(* ===== verification/Prelude.thy ===== *)
theory Prelude
  imports Main "HOL-Library.Word"
begin

text \<open>
  Shared vocabulary of the development.

  A Go \<^verbatim>\<open>byte\<close> is an 8-bit word and a \<^verbatim>\<open>[]byte\<close> a list of them (\<open>bytes\<close>); a Go
  \<^verbatim>\<open>string\<close>, which is also a sequence of bytes, is a HOL \<open>string\<close>, whose characters are
  8 bits wide.  \<open>bytes_of\<close> and \<open>string_of\<close> are Go's two conversions.  A \<^verbatim>\<open>uint64\<close> is a
  64-bit word and wraps around.  A call that returns \<^verbatim>\<open>(value, error)\<close> is a sum with the
  error on the left.

  The collection \<open>len_simps\<close> gathers the facts on lengths of encodings that the
  components share.
\<close>

named_theorems len_simps \<open>lengths of fixed-width encodings\<close>

type_synonym byte = "8 word"
type_synonym bytes = "byte list"
type_synonym u64 = "64 word"

section \<open>Strings and byte slices\<close>

definition byte_of :: "char \<Rightarrow> byte" where
  "byte_of c = word_of_nat (of_char c)"

definition char_of_byte :: "byte \<Rightarrow> char" where
  "char_of_byte b = char_of (unat b)"

definition bytes_of :: "string \<Rightarrow> bytes" where
  "bytes_of s = map byte_of s"

definition string_of :: "bytes \<Rightarrow> string" where
  "string_of bs = map char_of_byte bs"

lemma of_char_less [simp]: "(of_char c :: nat) < 256"
  by (metis of_char_mod_256 mod_less_divisor zero_less_numeral)

lemma unat_byte_of [simp]: "unat (byte_of c) = of_char c"
  by (simp add: byte_of_def unat_of_nat)

lemma char_of_byte_of [simp]: "char_of_byte (byte_of c) = c"
  by (simp add: char_of_byte_def)

lemma byte_of_char_of [simp]: "byte_of (char_of_byte b) = b"
proof -
  have "unat b < 256" using unsigned_less [of b] by simp
  then have "unat (byte_of (char_of_byte b)) = unat b"
    unfolding unat_byte_of char_of_byte_def of_char_of by simp
  then show ?thesis by (simp only: word_unat_eq_iff)
qed

lemma string_of_bytes_of [simp]: "string_of (bytes_of s) = s"
  by (simp add: string_of_def bytes_of_def comp_def)

lemma bytes_of_string_of [simp]: "bytes_of (string_of b) = b"
  by (simp add: string_of_def bytes_of_def comp_def)

lemma length_bytes_of [simp, len_simps]: "length (bytes_of s) = length s"
  by (simp add: bytes_of_def)

lemma bytes_of_append [simp]: "bytes_of (s @ t) = bytes_of s @ bytes_of t"
  by (simp add: bytes_of_def)

lemma bytes_of_inject [simp]: "bytes_of s = bytes_of t \<longleftrightarrow> s = t"
  by (metis string_of_bytes_of)

section \<open>Results\<close>

text \<open>\<open>ok r\<close>: the call returned a nil error.\<close>

fun ok :: "'e + 'a \<Rightarrow> bool" where
  "ok (Inl _) = False"
| "ok (Inr _) = True"

lemma ok_iff: "ok r \<longleftrightarrow> (\<exists>x. r = Inr x)"
  by (cases r) auto

lemma not_ok_iff: "\<not> ok r \<longleftrightarrow> (\<exists>e. r = Inl e)"
  by (cases r) auto

text \<open>A call that may also panic.\<close>

datatype 'a go = Panics | Returns 'a

section \<open>Big-endian words\<close>

text \<open>
  \<open>be n k\<close> is the \<open>n\<close>-byte big-endian image of \<open>k mod 256 ^ n\<close>, and \<open>be_nat\<close> reads a
  byte slice back as Go's \<^verbatim>\<open>big.Int.SetBytes\<close> does.
\<close>

fun be :: "nat \<Rightarrow> nat \<Rightarrow> bytes" where
  "be 0 k = []"
| "be (Suc n) k = be n (k div 256) @ [word_of_nat (k mod 256)]"

definition be_nat :: "bytes \<Rightarrow> nat" where
  "be_nat bs = foldl (\<lambda>a b. a * 256 + unat b) 0 bs"

lemma length_be [simp, len_simps]: "length (be n k) = n"
  by (induction n arbitrary: k) auto

lemma be_nat_Nil [simp]: "be_nat [] = 0"
  by (simp add: be_nat_def)

lemma be_nat_snoc [simp]: "be_nat (bs @ [b]) = be_nat bs * 256 + unat b"
  by (simp add: be_nat_def)

lemma be_nat_be: "be_nat (be n k) = k mod 256 ^ n"
proof (induction n arbitrary: k)
  case 0
  then show ?case by simp
next
  case (Suc n)
  have "unat (word_of_nat (k mod 256) :: byte) = k mod 256"
    by (simp add: unat_of_nat)
  with Suc show ?case
    by (simp add: mod_mult2_eq mult.commute)
qed

lemma be_inject:
  assumes "j < 256 ^ n" and "k < 256 ^ n"
  shows "be n j = be n k \<longleftrightarrow> j = k"
  by (metis assms be_nat_be mod_less)

lemma be_nat_less: "be_nat bs < 256 ^ length bs"
proof (induction bs rule: rev_induct)
  case Nil
  then show ?case by simp
next
  case (snoc b bs)
  have "unat b < 256" using unsigned_less [of b] by simp
  with snoc show ?case by (simp add: less_eq_Suc_le)
qed

lemma u64_less: "unat (x :: u64) < 2 ^ 64"
  by (rule order_less_le_trans [OF unsigned_less]) simp

lemma u64_fits_word: "unat (x :: u64) < 256 ^ 32"
  by (rule order_less_le_trans [OF u64_less]) simp

section \<open>Fixed-size arrays\<close>

text \<open>
  \<open>copy_into n b\<close> is \<^verbatim>\<open>var a [n]byte; copy(a[:], b)\<close>: front-aligned, zero-padded on the
  right, and cut off after \<open>n\<close> bytes.  \<open>left_pad n b\<close> is the right-aligned image.
\<close>

definition copy_into :: "nat \<Rightarrow> bytes \<Rightarrow> bytes" where
  "copy_into n b = take n b @ replicate (n - length b) 0"

definition left_pad :: "nat \<Rightarrow> bytes \<Rightarrow> bytes" where
  "left_pad n b = replicate (n - length b) 0 @ b"

lemma length_copy_into [simp, len_simps]: "length (copy_into n b) = n"
  by (simp add: copy_into_def)

lemma copy_into_id [simp]: "length b = n \<Longrightarrow> copy_into n b = b"
  by (simp add: copy_into_def)

lemma length_left_pad [len_simps]: "length b \<le> n \<Longrightarrow> length (left_pad n b) = n"
  by (simp add: left_pad_def)

lemma left_pad_inject:
  "length a = length b \<Longrightarrow> left_pad n a = left_pad n b \<longleftrightarrow> a = b"
  by (simp add: left_pad_def)

lemma append_eq_same_length:
  "length a = length c \<Longrightarrow> a @ b = c @ d \<longleftrightarrow> a = c \<and> b = d"
  by simp

end
