(* ===== verification/Primary_Arbiter.thy ===== *)
theory Primary_Arbiter
  imports Go_Strings
begin

text \<open>
  The election of the signing node (\<^verbatim>\<open>src/consensus/primary.go\<close>).

  Every method holds the arbiter's mutex, so each is one step.  A time is the number of
  nanoseconds since Go's zero time, a duration is an \<^verbatim>\<open>int64\<close> number of nanoseconds and the
  difference of two times saturates as \<^verbatim>\<open>Time.Sub\<close> does.  The clock reading of a call is an
  argument.

  The locale \<open>lease\<close> is what the gated handler relies on; it is interpreted on \<open>Acquire\<close> and
  \<open>Release\<close>.
\<close>

type_synonym time = int

definition time_sub :: "time \<Rightarrow> time \<Rightarrow> int" where
  "time_sub t u = max (- (2 ^ 63)) (min (2 ^ 63 - 1) (t - u))"

record PrimaryArbiter =
  timeout :: int
  rank :: "(string \<times> nat) list"
  primary :: string
  lastReq :: time
  maxHeight :: int

text \<open>The loop over \<^verbatim>\<open>preferOrder\<close>: the first position of each id.\<close>

fun rank_loop :: "nat \<Rightarrow> string list \<Rightarrow> (string \<times> nat) list \<Rightarrow> (string \<times> nat) list" where
  "rank_loop i [] rk = rk"
| "rank_loop i (nid # ids) rk =
     (case map_of rk nid of
        Some _ \<Rightarrow> rank_loop (Suc i) ids rk
      | None \<Rightarrow> rank_loop (Suc i) ids ((nid, i) # rk))"

definition NewPreferringPrimaryArbiter :: "int \<Rightarrow> string list \<Rightarrow> PrimaryArbiter" where
  "NewPreferringPrimaryArbiter tmo preferOrder =
     \<lparr>timeout = tmo, rank = rank_loop 0 preferOrder [], primary = '''', lastReq = 0, maxHeight = 0\<rparr>"

definition NewPrimaryArbiter :: "int \<Rightarrow> PrimaryArbiter" where
  "NewPrimaryArbiter tmo = NewPreferringPrimaryArbiter tmo []"

definition outranks :: "PrimaryArbiter \<Rightarrow> string \<Rightarrow> bool" where
  "outranks a nid =
     (if rank a = [] then False
      else case map_of (rank a) nid of
             None \<Rightarrow> False
           | Some mine \<Rightarrow>
               (case map_of (rank a) (primary a) of
                  None \<Rightarrow> True
                | Some theirs \<Rightarrow> mine < theirs))"

definition grant :: "PrimaryArbiter \<Rightarrow> int \<Rightarrow> PrimaryArbiter" where
  "grant a height = (if maxHeight a < height then a\<lparr>maxHeight := height\<rparr> else a)"

definition Acquire :: "PrimaryArbiter \<Rightarrow> string \<Rightarrow> int \<Rightarrow> time \<Rightarrow> bool \<times> PrimaryArbiter" where
  "Acquire a nid height now =
     (if primary a = nid then (True, grant (a\<lparr>lastReq := now\<rparr>) height)
      else if primary a = '''' then (True, grant (a\<lparr>primary := nid, lastReq := now\<rparr>) height)
      else if timeout a < time_sub now (lastReq a) then
        (True, grant (a\<lparr>primary := nid, lastReq := now\<rparr>) height)
      else if outranks a nid \<and> height < maxHeight a then (False, a)
      else if outranks a nid then (True, grant (a\<lparr>primary := nid, lastReq := now\<rparr>) height)
      else (False, a))"

definition Release :: "PrimaryArbiter \<Rightarrow> string \<Rightarrow> bool \<times> PrimaryArbiter" where
  "Release a nid =
     (if primary a \<noteq> nid then (False, a)
      else (True, a\<lparr>primary := '''', lastReq := 0\<rparr>))"

definition Primary :: "PrimaryArbiter \<Rightarrow> string" where
  "Primary a = primary a"

definition HostOf :: "string \<Rightarrow> string" where
  "HostOf addr =
     (if addr = '''' then ''''
      else
        let addr' = (case index_sub ''://'' addr of Some i \<Rightarrow> drop (i + 3) addr | None \<Rightarrow> addr)
        in case split_host_port addr' of Inr (host, _) \<Rightarrow> host | Inl _ \<Rightarrow> addr')"

definition PrimaryHost :: "PrimaryArbiter \<Rightarrow> string" where
  "PrimaryHost a = HostOf (primary a)"

section \<open>The lease contract\<close>

datatype arb_event =
    Req string int time
  | Rel string

fun lease_step ::
    "('a \<Rightarrow> string \<Rightarrow> int \<Rightarrow> time \<Rightarrow> bool \<times> 'a) \<Rightarrow> ('a \<Rightarrow> string \<Rightarrow> bool \<times> 'a) \<Rightarrow> arb_event \<Rightarrow> 'a \<Rightarrow> bool \<times> 'a" where
  "lease_step acq rel (Req i h t) a = acq a i h t"
| "lease_step acq rel (Rel i) a = rel a i"

text \<open>The requests that were granted, with the state each was granted in.\<close>

fun lease_grants ::
    "('a \<Rightarrow> string \<Rightarrow> int \<Rightarrow> time \<Rightarrow> bool \<times> 'a) \<Rightarrow> ('a \<Rightarrow> string \<Rightarrow> bool \<times> 'a) \<Rightarrow> arb_event list \<Rightarrow> 'a
      \<Rightarrow> (string \<times> int \<times> time) list" where
  "lease_grants acq rel [] a = []"
| "lease_grants acq rel (Req i h t # es) a =
     (case acq a i h t of
        (True, a') \<Rightarrow> (i, h, t) # lease_grants acq rel es a'
      | (False, a') \<Rightarrow> lease_grants acq rel es a')"
| "lease_grants acq rel (Rel i # es) a = lease_grants acq rel es (snd (rel a i))"

fun lease_final ::
    "('a \<Rightarrow> string \<Rightarrow> int \<Rightarrow> time \<Rightarrow> bool \<times> 'a) \<Rightarrow> ('a \<Rightarrow> string \<Rightarrow> bool \<times> 'a) \<Rightarrow> arb_event list \<Rightarrow> 'a \<Rightarrow> 'a" where
  "lease_final acq rel [] a = a"
| "lease_final acq rel (e # es) a = lease_final acq rel es (snd (lease_step acq rel e a))"

locale lease =
  fixes holder :: "'a \<Rightarrow> string"
    and acq :: "'a \<Rightarrow> string \<Rightarrow> int \<Rightarrow> time \<Rightarrow> bool \<times> 'a"
    and rel :: "'a \<Rightarrow> string \<Rightarrow> bool \<times> 'a"
    and expired :: "'a \<Rightarrow> time \<Rightarrow> bool"
    and preempts :: "'a \<Rightarrow> string \<Rightarrow> int \<Rightarrow> bool"
  assumes acq_granted: "acq a i h t = (True, a') \<Longrightarrow>
      holder a' = i \<and> (holder a = i \<or> holder a = '''' \<or> expired a t \<or> preempts a i h)"
    and acq_refused: "acq a i h t = (False, a') \<Longrightarrow> a' = a \<and> holder a \<noteq> i"
    and acq_holder: "holder a = i \<Longrightarrow> fst (acq a i h t)"
    and rel_other: "holder a \<noteq> i \<Longrightarrow> rel a i = (False, a)"
    and rel_holder: "holder a = i \<Longrightarrow> holder (snd (rel a i)) = ''''"
begin

text \<open>
  \<open>undisturbed p es a\<close>: while \<open>es\<close> runs from \<open>a\<close>, the connection of \<open>p\<close> is not lost and no
  other request finds the lease expired or preempts it.
\<close>

fun undisturbed :: "string \<Rightarrow> arb_event list \<Rightarrow> 'a \<Rightarrow> bool" where
  "undisturbed p [] a = True"
| "undisturbed p (Req i h t # es) a =
     ((i = p \<or> \<not> expired a t \<and> \<not> preempts a i h) \<and> undisturbed p es (snd (acq a i h t)))"
| "undisturbed p (Rel i # es) a = (i \<noteq> p \<and> undisturbed p es (snd (rel a i)))"

lemma holder_keeps:
  assumes "holder a = p" and "p \<noteq> ''''" and "undisturbed p es a"
  shows "holder (lease_final acq rel es a) = p \<and> (\<forall>g\<in>set (lease_grants acq rel es a). fst g = p)"
  using assms
proof (induction es arbitrary: a)
  case (Cons e es)
  show ?case
  proof (cases e)
    case (Req i h t)
    obtain b a' where acq: "acq a i h t = (b, a')" by force
    show ?thesis
    proof (cases b)
      case True
      with acq_granted acq Cons.prems Req have "i = p" "holder a' = p" by force+
      with Cons Req acq True show ?thesis by simp
    next
      case False
      with acq_refused acq have "a' = a" by simp
      with Cons Req acq False show ?thesis by simp
    qed
  next
    case (Rel i)
    with Cons.prems have "rel a i = (False, a)" by (intro rel_other) auto
    with Cons Rel show ?thesis by simp
  qed
qed simp

end

lemma grant_simps [simp]:
  "timeout (grant a h) = timeout a" "rank (grant a h) = rank a" "primary (grant a h) = primary a"
  "lastReq (grant a h) = lastReq a" "maxHeight (grant a h) = max (maxHeight a) h"
  by (simp_all add: grant_def)

interpretation arb: lease primary Acquire Release
    "\<lambda>a t. timeout a < time_sub t (lastReq a)" "\<lambda>a i h. outranks a i \<and> maxHeight a \<le> h"
  by unfold_locales (auto simp: Acquire_def Release_def split: if_splits)

section \<open>Runs of the arbiter\<close>

abbreviation arb_grants :: "arb_event list \<Rightarrow> PrimaryArbiter \<Rightarrow> (string \<times> int \<times> time) list" where
  "arb_grants \<equiv> lease_grants Acquire Release"

abbreviation arb_final :: "arb_event list \<Rightarrow> PrimaryArbiter \<Rightarrow> PrimaryArbiter" where
  "arb_final \<equiv> lease_final Acquire Release"

lemma Acquire_frame [simp]:
  "timeout (snd (Acquire a i h t)) = timeout a" "rank (snd (Acquire a i h t)) = rank a"
  by (simp_all add: Acquire_def)

lemma Release_frame [simp]:
  "timeout (snd (Release a i)) = timeout a" "rank (snd (Release a i)) = rank a"
  "maxHeight (snd (Release a i)) = maxHeight a"
  by (simp_all add: Release_def)

lemma Acquire_height:
  "maxHeight (snd (Acquire a i h t)) = (if fst (Acquire a i h t) then max (maxHeight a) h else maxHeight a)"
  by (simp add: Acquire_def)

text \<open>The mark is the greatest height granted so far.\<close>

lemma maxHeight_run:
  "maxHeight (arb_final es a) = foldl max (maxHeight a) (map (fst \<circ> snd) (arb_grants es a))"
proof (induction es arbitrary: a)
  case (Cons e es)
  show ?case
  proof (cases e)
    case (Req i h t)
    obtain b a' where acq: "Acquire a i h t = (b, a')" by force
    then have "maxHeight a' = (if b then max (maxHeight a) h else maxHeight a)"
      using Acquire_height [of a i h t] by simp
    with Cons Req acq show ?thesis by (cases b) simp_all
  next
    case (Rel i)
    with Cons show ?thesis by simp
  qed
qed simp

lemma foldl_max_bounds: "m \<le> foldl max m xs" "x \<in> set xs \<Longrightarrow> x \<le> foldl max m (xs :: int list)"
proof (induction xs arbitrary: m)
  case (Cons y ys)
  { case 1 then show ?case using Cons.IH(1) [of "max m y"] by simp }
  { case 2 then show ?case using Cons.IH [of "max m y"] by auto }
qed auto

lemma maxHeight_bounds:
  "(i, h, t) \<in> set (arb_grants es a) \<Longrightarrow> h \<le> maxHeight (arb_final es a)"
  unfolding maxHeight_run by (rule foldl_max_bounds(2)) force

section \<open>Fail-back and rank\<close>

definition rank_pos :: "PrimaryArbiter \<Rightarrow> nat \<Rightarrow> string \<Rightarrow> nat" where
  "rank_pos a n i = (case map_of (rank a) i of None \<Rightarrow> n | Some k \<Rightarrow> k)"

lemma rank_loop_bound:
  "\<forall>(j, k)\<in>set rk. k < i \<Longrightarrow> \<forall>(j, k)\<in>set (rank_loop i ids rk). k < i + length ids"
proof (induction i ids rk rule: rank_loop.induct)
  case (2 i nid ids rk)
  then show ?case by (cases "map_of rk nid") (fastforce dest: less_SucI)+
qed auto

lemma outranks_rank_pos:
  assumes "\<forall>(j, k)\<in>set (rank a). k < n" and "outranks a i"
  shows "rank_pos a n i < rank_pos a n (primary a)"
  using assms by (auto simp: outranks_def rank_pos_def dest!: map_of_SomeD split: if_splits option.splits)

text \<open>
  \<open>calm es a\<close>: while \<open>es\<close> runs from \<open>a\<close> no request finds the lease expired and the holder's
  connection is not lost, so that only fail-back can move the role.
\<close>

fun calm :: "arb_event list \<Rightarrow> PrimaryArbiter \<Rightarrow> bool" where
  "calm [] a = True"
| "calm (Req i h t # es) a =
     (\<not> timeout a < time_sub t (lastReq a) \<and> calm es (snd (Acquire a i h t)))"
| "calm (Rel i # es) a = (i \<noteq> primary a \<and> calm es a)"

fun moves :: "arb_event list \<Rightarrow> PrimaryArbiter \<Rightarrow> nat" where
  "moves [] a = 0"
| "moves (e # es) a =
     (let a' = snd (lease_step Acquire Release e a) in
      (if primary a' \<noteq> primary a then 1 else 0) + moves es a')"

lemma moves_bounded:
  assumes "\<forall>(j, k)\<in>set (rank a). k < n" and "primary a \<noteq> ''''" and "'''' \<notin> fst ` set (rank a)" and "calm es a"
  shows "moves es a + rank_pos a n (primary (arb_final es a)) \<le> rank_pos a n (primary a)"
  using assms
proof (induction es arbitrary: a)
  case (Cons e es)
  show ?case
  proof (cases e)
    case (Req i h t)
    let ?a = "snd (Acquire a i h t)"
    have pos: "rank_pos ?a n = rank_pos a n" by (simp add: rank_pos_def fun_eq_iff)
    have cases: "primary ?a = primary a \<or> primary ?a = i \<and> outranks a i"
      using Cons.prems(2,4) Req by (auto simp: Acquire_def)
    then have "primary ?a \<noteq> ''''"
      using Cons.prems(2,3) by (force simp: outranks_def dest!: map_of_SomeD split: if_splits option.splits)
    then have "moves es ?a + rank_pos a n (primary (arb_final es ?a)) \<le> rank_pos a n (primary ?a)"
      using Cons.IH [of ?a] Cons.prems Req pos by simp
    moreover have "(if primary ?a \<noteq> primary a then 1 else 0) + rank_pos a n (primary ?a) \<le> rank_pos a n (primary a)"
      using cases outranks_rank_pos [OF Cons.prems(1), of i] by (auto simp: Suc_le_eq)
    ultimately show ?thesis using Req by (simp add: Let_def)
  next
    case (Rel i)
    then have "Release a i = (False, a)" using Cons.prems by (intro arb.rel_other) auto
    with Cons Rel show ?thesis by (simp add: Let_def)
  qed
qed simp


section \<open>Hosts\<close>

lemma index_sub_skip: "x \<noteq> p \<Longrightarrow> index_sub (p # ps) (x # xs) = map_option Suc (index_sub (p # ps) xs)"
  by (simp add: has_prefix_def)

lemma index_sub_none: "p \<notin> set xs \<Longrightarrow> index_sub (p # ps) xs = None"
  by (induction xs) (auto simp: index_sub_skip simp del: index_sub.simps(2))

lemma HostOf_url:
  assumes "plain_host h" and "plain_host p" and "h @ CHR '':'' # p \<noteq> ''''"
  shows "HostOf (''tcp://'' @ h @ CHR '':'' # p) = h"
  using split_host_port_plain [OF assms(1,2)]
  by (simp add: HostOf_def has_prefix_def)

lemma index_sub_skips: "p \<notin> set xs \<Longrightarrow> index_sub (p # ps) ys = None \<Longrightarrow> index_sub (p # ps) (xs @ ys) = None"
  by (induction xs) (auto simp: index_sub_skip simp del: index_sub.simps(2))

lemma HostOf_peer:
  assumes "plain_host h" and "plain_host p" and "CHR ''/'' \<notin> set p"
  shows "HostOf (h @ CHR '':'' # p) = h"
proof -
  have "index_sub ''://'' (CHR '':'' # p) = None"
    using assms(2,3) index_sub_none [of "CHR '':''" p "''//''"]
    by (cases p) (auto simp: plain_host_def has_prefix_def)
  then have "index_sub ''://'' (h @ CHR '':'' # p) = None"
    using assms(1) index_sub_skips [of "CHR '':''" h "''//''" "CHR '':'' # p"] by (simp add: plain_host_def)
  then show ?thesis using split_host_port_plain [OF assms(1,2)] by (simp add: HostOf_def)
qed

section \<open>Properties\<close>

text \<open>
  \<open>kept tmo p u es\<close>: in \<open>es\<close> the connection of \<open>p\<close> is not lost and whenever another node
  asks, \<open>p\<close> last asked no longer than the timeout ago.
\<close>

fun kept :: "int \<Rightarrow> string \<Rightarrow> time \<Rightarrow> arb_event list \<Rightarrow> bool" where
  "kept tmo p u [] = True"
| "kept tmo p u (Req i h t # es) =
     (if i = p then kept tmo p t es else time_sub t u \<le> tmo \<and> kept tmo p u es)"
| "kept tmo p u (Rel i # es) = (i \<noteq> p \<and> kept tmo p u es)"

definition held_off :: "PrimaryArbiter \<Rightarrow> arb_event \<Rightarrow> bool" where
  "held_off a e =
     (case e of
        Req i h t \<Rightarrow> i = primary a \<or> \<not> outranks a i \<or> h < maxHeight a
      | Rel _ \<Rightarrow> True)"

lemma kept_undisturbed:
  assumes "primary a \<noteq> ''''" and "kept (timeout a) (primary a) (lastReq a) es" and "list_all (held_off a) es"
  shows "arb.undisturbed (primary a) es a"
  using assms
proof (induction es arbitrary: a)
  case (Cons e es)
  show ?case
  proof (cases e)
    case (Req i h t)
    let ?a = "snd (Acquire a i h t)"
    have same: "primary ?a = primary a" "lastReq ?a = (if i = primary a then t else lastReq a)"
        "maxHeight a \<le> maxHeight ?a" "rank ?a = rank a"
      using Cons.prems Req by (auto simp: Acquire_def held_off_def split: if_splits)
    then have "outranks ?a j = outranks a j" for j
      by (simp add: outranks_def cong: option.case_cong)
    with same have "held_off a e' \<Longrightarrow> held_off ?a e'" for e'
      by (auto simp: held_off_def split: arb_event.splits)
    then have "list_all (held_off ?a) es" using Cons.prems(3) by (simp add: list_all_iff)
    with same have "arb.undisturbed (primary a) es ?a"
      using Cons.IH [of ?a] Cons.prems Req by (auto split: if_splits)
    with Cons.prems Req show ?thesis by (auto simp: held_off_def not_less split: if_splits)
  next
    case (Rel i)
    then have "Release a i = (False, a)" using Cons.prems by (intro arb.rel_other) auto
    with Cons Rel show ?thesis by auto
  qed
qed simp

text \<open>Claim C9: active-passive signing is exclusive.  As long as the elected node keeps asking
  within the failover timeout and its connection is not lost, every other node is refused, in
  any order of requests, unless it is preferred and has caught up with the greatest height
  granted.\<close>

theorem arbiter_exclusive:
  assumes "primary a \<noteq> ''''" and "kept (timeout a) (primary a) (lastReq a) es" and "list_all (held_off a) es"
  shows "primary (arb_final es a) = primary a \<and> (\<forall>g\<in>set (arb_grants es a). fst g = primary a)"
  using arb.holder_keeps [OF refl assms(1) kept_undisturbed [OF assms]] by blast

definition demo_arbiter :: PrimaryArbiter where
  "demo_arbiter = (NewPreferringPrimaryArbiter 10 [''n1'', ''n2''])\<lparr>primary := ''n2'', lastReq := 100, maxHeight := 7\<rparr>"

theorem arbiter_exclusive_witness:
  "list_all (\<lambda>g. fst g = ''n2'') (arb_grants [Req ''n1'' 6 105, Req ''n2'' 7 108, Req ''n3'' 9 118, Rel ''n1''] demo_arbiter)"
  using arbiter_exclusive [of demo_arbiter "[Req ''n1'' 6 105, Req ''n2'' 7 108, Req ''n3'' 9 118, Rel ''n1'']"]
  by (simp add: list_all_iff demo_arbiter_def NewPreferringPrimaryArbiter_def time_sub_def held_off_def outranks_def)

text \<open>Claim C29: the role does not flap.  While no lease expires and no holder disconnects, the
  role moves at most as often as there are nodes in the preference order.\<close>

theorem arbiter_no_flapping:
  assumes "rank a = rank (NewPreferringPrimaryArbiter tmo order)" and "primary a \<noteq> ''''"
    and "'''' \<notin> set order" and "calm es a"
  shows "moves es a \<le> length order"
proof -
  have bound: "\<forall>(j, k)\<in>set (rank a). k < length order"
    using rank_loop_bound [of "[]" 0 order] assms(1) by (simp add: NewPreferringPrimaryArbiter_def)
  have "fst ` set (rank_loop i ids rk) \<subseteq> set ids \<union> fst ` set rk" for i ids rk
    by (induction i ids rk rule: rank_loop.induct) (auto split: option.splits, force)
  then have "'''' \<notin> fst ` set (rank a)"
    using assms(1,3) by (fastforce simp: NewPreferringPrimaryArbiter_def)
  from moves_bounded [OF bound assms(2) this assms(4)]
  have "moves es a \<le> rank_pos a (length order) (primary a)" by simp
  also have "\<dots> \<le> length order"
    using bound by (auto simp: rank_pos_def dest!: map_of_SomeD split: option.splits)
  finally show ?thesis .
qed

theorem arbiter_no_flapping_witness:
  "moves [Req ''n1'' 7 105, Req ''n2'' 8 106, Req ''n1'' 9 107] demo_arbiter \<le> 2"
  using arbiter_no_flapping [of demo_arbiter 10 "[''n1'', ''n2'']" "[Req ''n1'' 7 105, Req ''n2'' 8 106, Req ''n1'' 9 107]"]
  by (simp add: demo_arbiter_def NewPreferringPrimaryArbiter_def time_sub_def outranks_def Acquire_def grant_def)

text \<open>Claim C30: fail-back waits until the preferred node has caught up.  In any run of a new
  arbiter, a node that takes the role from a live holder is preferred to it and asks for a
  height at least as great as every height granted before.\<close>

theorem failback_caught_up:
  assumes "arb_final es (NewPreferringPrimaryArbiter tmo order) = a"
    and "primary a \<noteq> ''''" and "primary a \<noteq> i" and "time_sub t (lastReq a) \<le> timeout a"
    and "fst (Acquire a i h t)"
  shows "outranks a i \<and> (\<forall>(j, h', t')\<in>set (arb_grants es (NewPreferringPrimaryArbiter tmo order)). h' \<le> h)"
proof -
  have "outranks a i" "maxHeight a \<le> h"
    using assms(2-5) by (auto simp: Acquire_def split: if_splits)
  with assms(1) show ?thesis using maxHeight_bounds by fastforce
qed

theorem failback_caught_up_witness:
  "outranks (arb_final [Req ''n2'' 7 100] (NewPreferringPrimaryArbiter 10 [''n1'', ''n2''])) ''n1''"
  using failback_caught_up [of "[Req ''n2'' 7 100]" 10 "[''n1'', ''n2'']" _ "''n1''" 105 8]
  by (simp add: NewPreferringPrimaryArbiter_def time_sub_def outranks_def Acquire_def grant_def)

end
