(* ===== verification/Metrics.thy ===== *)
theory Metrics
  imports Go_Strings
begin

text \<open>
  The Prometheus gauges of the signer (\<^verbatim>\<open>src/metrics/metrics.go\<close>).  A gauge vector is a
  map from the label value to the value last set; a series exists from its first
  \<^verbatim>\<open>WithLabelValues\<close> on.  \<^verbatim>\<open>seen\<close> is the set of node labels, kept as a list without
  duplicates; the order in which \<^verbatim>\<open>range\<close> visits it does not matter
  (\<open>mark_active_apply\<close>).
\<close>

record Metrics =
  up :: int
  activeNode :: "string \<rightharpoonup> int"
  targetConnected :: "string \<rightharpoonup> int"
  seen :: "string list"

definition init_metrics :: Metrics where
  "init_metrics = \<lparr>up = 1, activeNode = Map.empty, targetConnected = Map.empty, seen = []\<rparr>"

definition SetTargetConnected :: "string \<Rightarrow> bool \<Rightarrow> Metrics \<Rightarrow> Metrics" where
  "SetTargetConnected target connected m =
     (let v = (if connected then 1 else 0)
      in m\<lparr>targetConnected := (targetConnected m)(target \<mapsto> v)\<rparr>)"

definition hostOnly :: "string \<Rightarrow> string" where
  "hostOnly remoteAddr =
     (case split_host_port remoteAddr of Inl _ \<Rightarrow> remoteAddr | Inr (host, _) \<Rightarrow> host)"

fun mark_active :: "string \<Rightarrow> string list \<Rightarrow> (string \<rightharpoonup> int) \<Rightarrow> (string \<rightharpoonup> int)" where
  "mark_active ip [] g = g"
| "mark_active ip (s # ss) g = mark_active ip ss (if s = ip then g(s \<mapsto> 1) else g(s \<mapsto> 0))"

definition RecordSign :: "string \<Rightarrow> Metrics \<Rightarrow> Metrics" where
  "RecordSign remoteAddr m =
     (let ip = hostOnly remoteAddr in
      if ip = '''' then m
      else
        let sn = List.insert ip (seen m)
        in m\<lparr>seen := sn, activeNode := mark_active ip sn (activeNode m)\<rparr>)"

section \<open>The active node\<close>

lemma mark_active_apply:
  "mark_active ip ss g s = (if s \<in> set ss then Some (if s = ip then 1 else 0) else g s)"
  by (induction ss arbitrary: g) auto

definition metrics_inv :: "Metrics \<Rightarrow> bool" where
  "metrics_inv m \<longleftrightarrow>
     distinct (seen m) \<and> dom (activeNode m) = set (seen m) \<and>
     length (filter (\<lambda>s. activeNode m s = Some 1) (seen m)) = (if seen m = [] then 0 else 1)"

lemma metrics_inv_init: "metrics_inv init_metrics"
  by (simp add: metrics_inv_def init_metrics_def)

lemma filter_eq_singleton: "distinct xs \<Longrightarrow> x \<in> set xs \<Longrightarrow> filter (\<lambda>y. y = x) xs = [x]"
  by (induction xs) (auto simp: filter_empty_conv)

lemma RecordSign_active:
  assumes "hostOnly r \<noteq> ''''" "metrics_inv m"
  shows "activeNode (RecordSign r m) s =
    (if s = hostOnly r then Some 1 else if s \<in> set (seen m) then Some 0 else None)"
  using assms by (auto simp: RecordSign_def Let_def mark_active_apply metrics_inv_def)

lemma metrics_inv_RecordSign:
  assumes "metrics_inv m"
  shows "metrics_inv (RecordSign r m)"
proof (cases "hostOnly r = ''''")
  case False
  let ?m = "RecordSign r m" and ?ip = "hostOnly r"
  have sn: "seen ?m = List.insert ?ip (seen m)" using False by (simp add: RecordSign_def Let_def)
  have one: "(activeNode ?m s = Some 1) = (s = ?ip)" for s
    using RecordSign_active [OF False assms] by simp
  have "filter (\<lambda>s. activeNode ?m s = Some 1) (seen ?m) = [?ip]"
    unfolding one sn using assms by (intro filter_eq_singleton) (simp_all add: metrics_inv_def)
  moreover have "dom (activeNode ?m) = set (seen ?m)"
    using RecordSign_active [OF False assms] sn by (auto split: if_splits)
  moreover have "seen ?m \<noteq> []" using sn by (cases "seen m") (simp_all add: List.insert_def)
  ultimately show ?thesis using assms sn by (simp add: metrics_inv_def)
qed (use assms in \<open>simp add: RecordSign_def\<close>)

lemma SetTargetConnected_frame [simp]:
  "activeNode (SetTargetConnected t c m) = activeNode m" "seen (SetTargetConnected t c m) = seen m"
  by (simp_all add: SetTargetConnected_def Let_def)

lemma RecordSign_frame [simp]: "targetConnected (RecordSign r m) = targetConnected m"
  by (simp add: RecordSign_def Let_def)

text \<open>
  Of a \<^verbatim>\<open>tcp://host:port\<close> target \<open>hostOnly\<close> strips nothing: the scheme has a colon of its own.
\<close>

lemma hostOnly_url: "hostOnly (''tcp://'' @ h @ CHR '':'' # p) = ''tcp://'' @ h @ CHR '':'' # p"
proof (cases "last_index_of (CHR '':'') (h @ CHR '':'' # p)")
  case None
  then show ?thesis unfolding last_index_of_None by simp
next
  case (Some j)
  then have "last_index_of (CHR '':'') (''tcp://'' @ h @ CHR '':'' # p) = Some (j + 6)" by simp
  then show ?thesis
    unfolding hostOnly_def split_host_port_def by (simp add: numeral_eq_Suc)
qed

lemma hostOnly_peer: "plain_host h \<Longrightarrow> plain_host p \<Longrightarrow> hostOnly (h @ CHR '':'' # p) = h"
  by (simp add: hostOnly_def split_host_port_plain)

end
