(* ===== verification/Go_Sha256.thy ===== *)
theory Go_Sha256
  imports Prelude
begin

text \<open>
  Go's \<^verbatim>\<open>crypto/sha256\<close>, that is SHA-256 of FIPS 180-4, as an executable function on byte
  slices.  The handlers use it through \<^verbatim>\<open>sha256.Sum256\<close>, whose result is a \<^verbatim>\<open>[32]byte\<close>.  The
  locale \<open>fixed_digest\<close> is what the callers rely on: the length of a digest.
\<close>

unbundle bit_operations_syntax

type_synonym w32 = "32 word"
type_synonym hstate = "w32 \<times> w32 \<times> w32 \<times> w32 \<times> w32 \<times> w32 \<times> w32 \<times> w32"

definition rotr :: "nat \<Rightarrow> w32 \<Rightarrow> w32" where
  "rotr n x = drop_bit n x OR push_bit (32 - n) x"

text \<open>
  The constants are the ones FIPS 180-4 prescribes: the first 32 bits of the fractional parts of the
  cube roots of the first 64 primes (round constants) and of the square roots of the first 8
  (initial hash value).  They are computed here by an integer root, bit by bit from the top.
\<close>

fun root_bits :: "nat \<Rightarrow> nat \<Rightarrow> nat \<Rightarrow> nat \<Rightarrow> nat" where
  "root_bits e n 0 x = x"
| "root_bits e n (Suc i) x = root_bits e n i (if (x + 2 ^ i) ^ e \<le> n then x + 2 ^ i else x)"

definition root_frac :: "nat \<Rightarrow> nat \<Rightarrow> w32" where
  "root_frac e p = word_of_nat (root_bits e (p * 2 ^ (32 * e)) 35 0)"

definition primes64 :: "nat list" where
  "primes64 =
    [2, 3, 5, 7, 11, 13, 17, 19, 23, 29, 31, 37, 41, 43, 47, 53, 59, 61, 67, 71, 73, 79,
     83, 89, 97, 101, 103, 107, 109, 113, 127, 131, 137, 139, 149, 151, 157, 163, 167, 173, 179, 181, 191, 193,
     197, 199, 211, 223, 227, 229, 233, 239, 241, 251, 257, 263, 269, 271, 277, 281, 283, 293, 307, 311]"

definition k256 :: "w32 list" where
  "k256 = map (root_frac 3) primes64"

fun hstate_of :: "w32 list \<Rightarrow> hstate" where
  "hstate_of [a, b, c, d, e, f, g, h] = (a, b, c, d, e, f, g, h)"
| "hstate_of _ = (0, 0, 0, 0, 0, 0, 0, 0)"

definition h256 :: hstate where
  "h256 = hstate_of (map (root_frac 2) (take 8 primes64))"

definition sha_pad :: "bytes \<Rightarrow> bytes" where
  "sha_pad m =
     (let n = length m in
      m @ [0x80] @ replicate ((119 - n mod 64) mod 64) 0 @ be 8 (8 * n))"

fun words_of :: "bytes \<Rightarrow> w32 list" where
  "words_of (a # b # c # d # r) = word_of_nat (be_nat [a, b, c, d]) # words_of r"
| "words_of _ = []"

text \<open>The message schedule, kept newest word first.\<close>

fun schedule :: "nat \<Rightarrow> w32 list \<Rightarrow> w32 list" where
  "schedule 0 w = w"
| "schedule (Suc n) w =
     (let x = w ! 14; y = w ! 1;
          s0 = rotr 7 x XOR rotr 18 x XOR drop_bit 3 x;
          s1 = rotr 17 y XOR rotr 19 y XOR drop_bit 10 y
      in schedule n ((w ! 15 + s0 + w ! 6 + s1) # w))"

fun sha_round :: "hstate \<Rightarrow> w32 \<times> w32 \<Rightarrow> hstate" where
  "sha_round (a, b, c, d, e, f, g, h) (k, w) =
     (let s1 = rotr 6 e XOR rotr 11 e XOR rotr 25 e;
          ch = (e AND f) XOR (NOT e AND g);
          t1 = h + s1 + ch + k + w;
          s0 = rotr 2 a XOR rotr 13 a XOR rotr 22 a;
          maj = (a AND b) XOR (a AND c) XOR (b AND c);
          t2 = s0 + maj
      in (t1 + t2, a, b, c, d + t1, e, f, g))"

fun add_state :: "hstate \<Rightarrow> hstate \<Rightarrow> hstate" where
  "add_state (a, b, c, d, e, f, g, h) (a', b', c', d', e', f', g', h') =
     (a + a', b + b', c + c', d + d', e + e', f + f', g + g', h + h')"

definition sha_block :: "hstate \<Rightarrow> bytes \<Rightarrow> hstate" where
  "sha_block st blk =
     add_state st (foldl sha_round st (zip k256 (rev (schedule 48 (rev (words_of blk))))))"

function sha_blocks :: "hstate \<Rightarrow> bytes \<Rightarrow> hstate" where
  "sha_blocks st m = (if length m < 64 then st else sha_blocks (sha_block st (take 64 m)) (drop 64 m))"
  by pat_completeness auto
termination
  by (relation "measure (length \<circ> snd)") auto

declare sha_blocks.simps [simp del]

fun digest_bytes :: "hstate \<Rightarrow> bytes" where
  "digest_bytes (a, b, c, d, e, f, g, h) =
     be 4 (unat a) @ be 4 (unat b) @ be 4 (unat c) @ be 4 (unat d) @
     be 4 (unat e) @ be 4 (unat f) @ be 4 (unat g) @ be 4 (unat h)"

definition sha256 :: "bytes \<Rightarrow> bytes" where
  "sha256 m = digest_bytes (sha_blocks h256 (sha_pad m))"

text \<open>\<open>root_bits\<close> is the floor of the root, so \<open>root_frac\<close> is the prescribed fraction.\<close>

lemma root_bits_floor:
  "\<lbrakk>x ^ e \<le> n; n < (x + 2 ^ k) ^ e\<rbrakk> \<Longrightarrow>
     root_bits e n k x ^ e \<le> n \<and> n < (root_bits e n k x + 1) ^ e"
proof (induction k arbitrary: x)
  case (Suc k)
  have "x + 2 ^ Suc k = (x + 2 ^ k) + 2 ^ k" by simp
  then show ?case
    using Suc.prems Suc.IH[of "x + 2 ^ k"] Suc.IH[of x] by (auto simp del: power_Suc simp: not_le add.assoc)
qed simp

lemma root_frac_floor:
  assumes "0 < e" "p < 8 ^ e"
  obtains r where "root_frac e p = word_of_nat r" "r ^ e \<le> p * 2 ^ (32 * e)" "p * 2 ^ (32 * e) < (r + 1) ^ e"
proof -
  have "p * 2 ^ (32 * e) < 8 ^ e * 2 ^ (32 * e)" using assms by simp
  also have "\<dots> = (0 + 2 ^ 35) ^ e" by (simp add: power_mult flip: power_mult_distrib)
  finally have "p * 2 ^ (32 * e) < (0 + 2 ^ 35) ^ e" .
  then show ?thesis
    using root_bits_floor[of 0 e "p * 2 ^ (32 * e)" 35] assms that[of "root_bits e (p * 2 ^ (32 * e)) 35 0"]
    by (simp add: root_frac_def zero_power)
qed

lemma root_bits_numeral:
  "root_bits e n (numeral k) x =
     root_bits e n (pred_numeral k)
       (if (x + 2 ^ pred_numeral k) ^ e \<le> n then x + 2 ^ pred_numeral k else x)"
  by (simp add: numeral_eq_Suc)

lemma k256_length: "length k256 = 64"
  by (simp add: k256_def primes64_def)

lemma primes64_small: "p \<in> set primes64 \<Longrightarrow> p < 8 ^ 3"
  by (auto simp: primes64_def)

lemma root_frac_first: "root_frac 3 2 = 0x428a2f98"
  by (simp add: root_frac_def root_bits_numeral)

lemma root_frac_last: "root_frac 3 311 = 0xc67178f2"
  by (simp add: root_frac_def root_bits_numeral)

lemma k256_ends: "hd k256 = 0x428a2f98 \<and> last k256 = 0xc67178f2"
  by (simp add: k256_def primes64_def root_frac_first root_frac_last)

lemma h256_first: "fst h256 = 0x6a09e667"
  by (simp add: h256_def primes64_def root_frac_def root_bits_numeral)

text \<open>Padding always ends on a block boundary, so no input byte is dropped.\<close>

lemma pad_count: "r < 64 \<Longrightarrow> (119 - r) mod 64 = (if r \<le> 55 then 55 - r else 119 - (r :: nat))"
  by (simp add: mod_if)

lemma sha_pad_blocks: "64 dvd length (sha_pad m)"
proof -
  define q r where "q = length m div 64" and "r = length m mod 64"
  then have n: "length m = 64 * q + r" and r: "r < 64" by simp_all
  have "length (sha_pad m) = length m + 9 + (119 - r) mod 64"
    by (simp add: sha_pad_def Let_def r_def)
  also have "\<dots> = (if r \<le> 55 then 64 * (q + 1) else 64 * (q + 2))"
    using n r by (simp add: pad_count)
  finally show ?thesis by simp
qed

lemma length_digest_bytes: "length (digest_bytes st) = 32"
  by (cases st rule: digest_bytes.cases) simp

section \<open>The contract of a digest\<close>

locale fixed_digest =
  fixes digest :: "bytes \<Rightarrow> bytes"
    and width :: nat
  assumes digest_length: "length (digest m) = width"
begin

lemma digest_twice_length: "length (digest (digest m)) = width"
  by (rule digest_length)

text \<open>An input of another length never is a digest: two layers of hashing do not mix.\<close>

lemma digest_neq_other_length: "length x \<noteq> width \<Longrightarrow> digest m \<noteq> x"
  using digest_length by metis

end

interpretation sha: fixed_digest sha256 32
  by unfold_locales (simp add: sha256_def length_digest_bytes)

lemmas length_sha256 [simp, len_simps] = sha.digest_length

end
