(* ===== verification/Eth_Lib.thy ===== *)
theory Eth_Lib
  imports Go_Sha256
begin

text \<open>
  The go-ethereum packages \<^verbatim>\<open>accounts/abi\<close>, \<^verbatim>\<open>common\<close> and \<^verbatim>\<open>crypto\<close>, which the program calls
  and which are not part of the repository: a record of functions that every definition using
  them takes as an argument.

  \<open>eth_lib_spec\<close> states what their documentation promises and the program relies on: type
  names parse, \<^verbatim>\<open>Arguments.Pack\<close> is the encoding of the Solidity contract ABI specification
  (\<open>abi_encode\<close>), \<^verbatim>\<open>BytesToAddress\<close> keeps 20 bytes, and a Keccak digest has 32 bytes.  It is a
  hypothesis of the theorems that need it; \<open>solidity_lib\<close> shows that it can hold.
\<close>

datatype abi_value =
    AAddress bytes
  | AUint nat
  | ABytes32 bytes
  | AStr string
  | ABytes bytes

record 'ty eth_lib =
  newType :: "string \<Rightarrow> string + 'ty"
  pack :: "'ty list \<Rightarrow> abi_value list \<Rightarrow> string + bytes"
  keccak256 :: "bytes \<Rightarrow> bytes"
  bytesToAddress :: "bytes \<Rightarrow> bytes"

section \<open>The contract ABI encoding\<close>

fun type_name :: "abi_value \<Rightarrow> string" where
  "type_name (AAddress _) = ''address''"
| "type_name (AUint _) = ''uint256''"
| "type_name (ABytes32 _) = ''bytes32''"
| "type_name (AStr _) = ''string''"
| "type_name (ABytes _) = ''bytes''"

fun value_ok :: "abi_value \<Rightarrow> bool" where
  "value_ok (AAddress a) \<longleftrightarrow> length a = 20"
| "value_ok (AUint n) \<longleftrightarrow> n < 256 ^ 32"
| "value_ok (ABytes32 b) \<longleftrightarrow> length b = 32"
| "value_ok (AStr s) \<longleftrightarrow> length s < 256 ^ 32"
| "value_ok (ABytes b) \<longleftrightarrow> length b < 256 ^ 32"

definition pad32 :: "bytes \<Rightarrow> bytes" where
  "pad32 b = b @ replicate ((32 - length b mod 32) mod 32) 0"

fun static_word :: "abi_value \<Rightarrow> bytes option" where
  "static_word (AAddress a) = Some (left_pad 32 a)"
| "static_word (AUint n) = Some (be 32 n)"
| "static_word (ABytes32 b) = Some b"
| "static_word _ = None"

fun dynamic_tail :: "abi_value \<Rightarrow> bytes" where
  "dynamic_tail (AStr s) = be 32 (length s) @ pad32 (bytes_of s)"
| "dynamic_tail (ABytes b) = be 32 (length b) @ pad32 b"
| "dynamic_tail _ = []"

text \<open>Heads and tails; \<open>off\<close> is where the next tail starts.\<close>

fun abi_parts :: "nat \<Rightarrow> abi_value list \<Rightarrow> bytes \<times> bytes" where
  "abi_parts off [] = ([], [])"
| "abi_parts off (v # vs) =
     (case static_word v of
        Some w \<Rightarrow> (case abi_parts off vs of (h, t) \<Rightarrow> (w @ h, t))
      | None \<Rightarrow>
          (case abi_parts (off + length (dynamic_tail v)) vs of
             (h, t) \<Rightarrow> (be 32 off @ h, dynamic_tail v @ t)))"

definition abi_encode :: "abi_value list \<Rightarrow> bytes" where
  "abi_encode vs = (case abi_parts (32 * length vs) vs of (h, t) \<Rightarrow> h @ t)"

section \<open>What the library promises\<close>

definition abi_types :: "string list" where
  "abi_types = [''address'', ''uint256'', ''bytes32'', ''string'', ''bytes'']"

definition eth_lib_spec :: "'ty eth_lib \<Rightarrow> bool" where
  "eth_lib_spec L \<longleftrightarrow>
     list_all (\<lambda>n. ok (newType L n)) abi_types
   \<and> (\<forall>tys vs. list_all value_ok vs \<and> map (newType L \<circ> type_name) vs = map Inr tys
        \<longrightarrow> pack L tys vs = Inr (abi_encode vs))
   \<and> (\<forall>b. length b = 20 \<longrightarrow> bytesToAddress L b = b)
   \<and> (\<forall>b. length (keccak256 L b) = 32)"

lemma eth_newType:
  assumes "eth_lib_spec L" and "n \<in> set abi_types"
  obtains ty where "newType L n = Inr ty"
  using assms by (auto simp: eth_lib_spec_def list_all_iff ok_iff)

lemma eth_pack:
  "eth_lib_spec L \<Longrightarrow> list_all value_ok vs \<Longrightarrow> map (newType L \<circ> type_name) vs = map Inr tys
     \<Longrightarrow> pack L tys vs = Inr (abi_encode vs)"
  by (simp add: eth_lib_spec_def)

lemma eth_address: "eth_lib_spec L \<Longrightarrow> length b = 20 \<Longrightarrow> bytesToAddress L b = b"
  by (simp add: eth_lib_spec_def)

lemma eth_keccak_length [len_simps]: "eth_lib_spec L \<Longrightarrow> length (keccak256 L b) = 32"
  by (simp add: eth_lib_spec_def)

text \<open>An instance: types are their names and the digest is a 32-byte one.\<close>

definition solidity_lib :: "string eth_lib" where
  "solidity_lib =
     \<lparr>newType = (\<lambda>n. if n \<in> set abi_types then Inr n else Inl ''unsupported arg type''),
      pack = (\<lambda>tys vs. if tys = map type_name vs \<and> list_all value_ok vs
                       then Inr (abi_encode vs) else Inl ''abi: cannot use argument''),
      keccak256 = sha256,
      bytesToAddress = (\<lambda>b. left_pad 20 (drop (length b - 20) b))\<rparr>"

lemma type_name_known: "type_name v \<in> set abi_types"
  by (cases v) (simp_all add: abi_types_def)

lemma solidity_lib_spec: "eth_lib_spec solidity_lib"
proof -
  have "tys = map type_name vs"
    if "map (newType solidity_lib \<circ> type_name) vs = map Inr tys" for tys and vs :: "abi_value list"
  proof -
    have "map (newType solidity_lib \<circ> type_name) vs = map (Inr \<circ> type_name) vs"
      by (simp add: solidity_lib_def type_name_known)
    with that have "map Inr (map type_name vs) = map (Inr :: string \<Rightarrow> string + string) tys"
      by simp
    then have "map type_name vs = tys" by (rule map_injective) simp
    then show ?thesis by simp
  qed
  moreover have "left_pad 20 b = b" if "length b = 20" for b
    using that by (simp add: left_pad_def)
  ultimately show ?thesis
    unfolding eth_lib_spec_def
    by (auto simp: solidity_lib_def abi_types_def)
qed

section \<open>Shape of encodings\<close>

lemma length_pad32 [len_simps]: "length (pad32 b) = 32 * ((length b + 31) div 32)"
proof -
  define q r where "q = length b div 32" and "r = length b mod 32"
  then have n: "length b = 32 * q + r" and r: "r < 32" by simp_all
  have "(32 - r) mod 32 = (if r = 0 then 0 else 32 - r)" using r by simp
  moreover have "(32 * q + r + 31) div 32 = (if r = 0 then q else q + 1)"
    using r by auto
  ultimately show ?thesis using n r by (auto simp: pad32_def)
qed

lemma static_encode:
  assumes "list_all (\<lambda>v. static_word v \<noteq> None) vs"
  shows "abi_encode vs = concat (map (the \<circ> static_word) vs)"
proof -
  have "abi_parts off vs = (concat (map (the \<circ> static_word) vs), [])" for off
    using assms by (induction vs) auto
  then show ?thesis by (simp add: abi_encode_def)
qed

lemma be32_inject: "j < 256 ^ 32 \<Longrightarrow> k < 256 ^ 32 \<Longrightarrow> be 32 j = be 32 k \<longleftrightarrow> j = k"
  by (rule be_inject)

lemma u64_be32_inject: "be 32 (unat (a :: u64)) = be 32 (unat b) \<longleftrightarrow> a = b"
  by (simp add: be32_inject u64_fits_word [simplified] word_unat_eq_iff)

end
