(* ===== verification/Bridge_Checkpoint.thy ===== *)
theory Bridge_Checkpoint
  imports Eth_Lib "HOL-Library.Multiset"
begin

text \<open>
  The validator-set checkpoint encoder (\<^verbatim>\<open>src/server/checkpoint.go\<close>): the canonical order of a
  validator set, its Solidity encoding and hash, the domain separator and the checkpoint.

  The locale \<open>canonical_sort\<close> is the contract between the sort and the comparison it is given:
  for a strict total order the result is sorted, a permutation, and the only such list.  It is
  interpreted on the comparison of the code.
\<close>

definition MainnetChainID :: string where
  "MainnetChainID = ''tellor-1''"

record bridgeValidator =
  EthereumAddress :: bytes
  Power :: u64

datatype encode_error =
    AbiTypeErr string string
  | PackErr string

section \<open>Canonical order\<close>

text \<open>\<^verbatim>\<open>bytes.Compare\<close>.\<close>

fun bytes_compare :: "bytes \<Rightarrow> bytes \<Rightarrow> int" where
  "bytes_compare [] [] = 0"
| "bytes_compare [] (_ # _) = -1"
| "bytes_compare (_ # _) [] = 1"
| "bytes_compare (a # as) (b # bs) =
     (if a < b then -1 else if b < a then 1 else bytes_compare as bs)"

text \<open>The \<^verbatim>\<open>less\<close> function given to \<^verbatim>\<open>sort.SliceStable\<close>.\<close>

definition validator_less :: "bridgeValidator \<Rightarrow> bridgeValidator \<Rightarrow> bool" where
  "validator_less v w =
     (if Power v = Power w then bytes_compare (EthereumAddress v) (EthereumAddress w) < 0
      else Power w < Power v)"

text \<open>
  \<^verbatim>\<open>sort.SliceStable\<close> as the insertion sort it runs on a block: each element moves left past
  the elements it is less than.  The sorted prefix is kept in reverse.
\<close>

fun insert_left :: "('a \<Rightarrow> 'a \<Rightarrow> bool) \<Rightarrow> 'a \<Rightarrow> 'a list \<Rightarrow> 'a list" where
  "insert_left lt x [] = [x]"
| "insert_left lt x (p # ps) = (if lt x p then p # insert_left lt x ps else x # p # ps)"

definition slice_stable :: "('a \<Rightarrow> 'a \<Rightarrow> bool) \<Rightarrow> 'a list \<Rightarrow> 'a list" where
  "slice_stable lt vs = rev (foldl (\<lambda>acc x. insert_left lt x acc) [] vs)"

definition sortBridgeValidators :: "bridgeValidator list \<Rightarrow> bridgeValidator list" where
  "sortBridgeValidators vs = slice_stable validator_less vs"

section \<open>Encoders\<close>

text \<open>A 32-byte word with a big-endian \<^verbatim>\<open>uint64\<close> in its last 8 bytes.\<close>

definition put_uint64_word :: "u64 \<Rightarrow> bytes" where
  "put_uint64_word k = replicate 24 0 @ be 8 (unat k)"

fun encode_vals :: "'ty eth_lib \<Rightarrow> 'ty list \<Rightarrow> bridgeValidator list \<Rightarrow> encode_error + bytes" where
  "encode_vals L valArgs [] = Inr []"
| "encode_vals L valArgs (v # vs) =
     (case pack L valArgs [AAddress (bytesToAddress L (EthereumAddress v)), AUint (unat (Power v))] of
        Inl e \<Rightarrow> Inl (PackErr e)
      | Inr b \<Rightarrow> (case encode_vals L valArgs vs of Inl e \<Rightarrow> Inl e | Inr bs \<Rightarrow> Inr (b @ bs)))"

definition encodeAndHashValidatorSet ::
    "'ty eth_lib \<Rightarrow> bridgeValidator list \<Rightarrow> encode_error + (bytes \<times> bytes)" where
  "encodeAndHashValidatorSet L vs =
     (case newType L ''address'' of
        Inl e \<Rightarrow> Inl (AbiTypeErr ''address'' e)
      | Inr addressType \<Rightarrow>
          (case newType L ''uint256'' of
             Inl e \<Rightarrow> Inl (AbiTypeErr ''uint256'' e)
           | Inr uintType \<Rightarrow>
               (case encode_vals L [addressType, uintType] vs of
                  Inl e \<Rightarrow> Inl e
                | Inr encodedVals \<Rightarrow>
                    let finalEncoded = put_uint64_word 32 @ put_uint64_word (word_of_nat (length vs)) @ encodedVals
                    in Inr (finalEncoded, keccak256 L finalEncoded))))"

definition computeDomainSeparator :: "'ty eth_lib \<Rightarrow> string \<Rightarrow> encode_error + bytes" where
  "computeDomainSeparator L chainID =
     (if chainID = MainnetChainID then Inr (copy_into 32 (bytes_of ''checkpoint''))
      else
        (case newType L ''string'' of
           Inl e \<Rightarrow> Inl (AbiTypeErr ''string'' e)
         | Inr stringType \<Rightarrow>
             (case pack L [stringType, stringType] [AStr ''checkpoint'', AStr chainID] of
                Inl e \<Rightarrow> Inl (PackErr e)
              | Inr encoded \<Rightarrow> Inr (keccak256 L encoded))))"

definition encodeValsetCheckpoint ::
    "'ty eth_lib \<Rightarrow> bytes \<Rightarrow> u64 \<Rightarrow> u64 \<Rightarrow> bytes \<Rightarrow> encode_error + bytes" where
  "encodeValsetCheckpoint L domainSep powerThreshold validatorTimestamp validatorSetHash =
     (case newType L ''bytes32'' of
        Inl e \<Rightarrow> Inl (AbiTypeErr ''bytes32'' e)
      | Inr bytes32Type \<Rightarrow>
          (case newType L ''uint256'' of
             Inl e \<Rightarrow> Inl (AbiTypeErr ''uint256'' e)
           | Inr uint256Type \<Rightarrow>
               (case pack L [bytes32Type, uint256Type, uint256Type, bytes32Type]
                       [ABytes32 (copy_into 32 domainSep), AUint (unat powerThreshold),
                        AUint (unat validatorTimestamp), ABytes32 (copy_into 32 validatorSetHash)] of
                  Inl e \<Rightarrow> Inl (PackErr e)
                | Inr encoded \<Rightarrow> Inr (keccak256 L encoded))))"

section \<open>The order is total\<close>

lemma bytes_compare_eq: "bytes_compare a b = 0 \<longleftrightarrow> a = b"
  by (induction a b rule: bytes_compare.induct) auto

lemma bytes_compare_swap: "bytes_compare b a = - bytes_compare a b"
  by (induction a b rule: bytes_compare.induct) auto

lemma bytes_compare_trans: "bytes_compare a b < 0 \<Longrightarrow> bytes_compare b c < 0 \<Longrightarrow> bytes_compare a c < 0"
proof (induction a c arbitrary: b rule: bytes_compare.induct)
  case (4 x xs y ys)
  then show ?case by (cases b) (auto split: if_splits)
next
  case 1
  then show ?case by (cases b) auto
next
  case 3
  then show ?case by (cases b) auto
qed auto

locale canonical_sort =
  fixes lt :: "'a \<Rightarrow> 'a \<Rightarrow> bool"
  assumes less_irrefl: "\<not> lt x x"
    and less_trans: "lt x y \<Longrightarrow> lt y z \<Longrightarrow> lt x z"
    and less_total: "x \<noteq> y \<Longrightarrow> lt x y \<or> lt y x"
begin

definition le :: "'a \<Rightarrow> 'a \<Rightarrow> bool" where
  "le x y \<longleftrightarrow> x = y \<or> lt x y"

lemma le_antisym: "le x y \<Longrightarrow> le y x \<Longrightarrow> x = y"
  unfolding le_def using less_trans less_irrefl by blast

lemma le_trans: "le x y \<Longrightarrow> le y z \<Longrightarrow> le x z"
  unfolding le_def using less_trans by blast

lemma not_less: "\<not> lt x y \<longleftrightarrow> le y x"
  unfolding le_def using less_total less_irrefl less_trans by metis

lemma mset_insert_left: "mset (insert_left lt x ps) = add_mset x (mset ps)"
  by (induction ps) auto

lemma sorted_insert_left:
  "sorted_wrt (\<lambda>a b. le b a) ps \<Longrightarrow> sorted_wrt (\<lambda>a b. le b a) (insert_left lt x ps)"
proof (induction ps)
  case Nil
  then show ?case by simp
next
  case (Cons p ps)
  have set_ins: "set (insert_left lt x ps) = insert x (set ps)"
    using mset_insert_left [of x ps] by (metis set_mset_add_mset_insert set_mset_mset)
  show ?case
  proof (cases "lt x p")
    case True
    then have "le x p" by (simp add: le_def)
    with True Cons show ?thesis by (auto simp: set_ins)
  next
    case False
    then have "le p x" by (simp add: not_less)
    with False Cons.prems show ?thesis by (auto intro: le_trans)
  qed
qed

lemma foldl_insert:
  "sorted_wrt (\<lambda>a b. le b a) acc \<Longrightarrow>
     sorted_wrt (\<lambda>a b. le b a) (foldl (\<lambda>acc x. insert_left lt x acc) acc vs)
   \<and> mset (foldl (\<lambda>acc x. insert_left lt x acc) acc vs) = mset acc + mset vs"
  by (induction vs arbitrary: acc) (auto simp: mset_insert_left sorted_insert_left)

lemma slice_stable_perm: "mset (slice_stable lt vs) = mset vs"
  using foldl_insert [of "[]" vs] by (simp add: slice_stable_def)

lemma slice_stable_sorted: "sorted_wrt le (slice_stable lt vs)"
  using foldl_insert [of "[]" vs] by (simp add: slice_stable_def sorted_wrt_rev)

text \<open>A sorted list is determined by its elements, so any correct sort gives the same list.\<close>

lemma sorted_unique: "sorted_wrt le xs \<Longrightarrow> sorted_wrt le ys \<Longrightarrow> mset xs = mset ys \<Longrightarrow> xs = ys"
proof (induction xs arbitrary: ys)
  case Nil
  then show ?case by simp
next
  case (Cons x xs)
  then obtain y ys' where ys: "ys = y # ys'" by (cases ys) auto
  have "x \<in> set ys" "y \<in> set (x # xs)"
    using Cons.prems(3) ys by (metis list.set_intros(1) set_mset_mset)+
  then have "x = y" using Cons.prems(1,2) ys le_antisym by auto
  with Cons ys show ?case by simp
qed

lemma slice_stable_canonical: "mset vs = mset ws \<Longrightarrow> slice_stable lt vs = slice_stable lt ws"
  by (rule sorted_unique) (simp_all add: slice_stable_sorted slice_stable_perm)

lemma slice_stable_id: "sorted_wrt le vs \<Longrightarrow> slice_stable lt vs = vs"
  by (rule sorted_unique) (simp_all add: slice_stable_sorted slice_stable_perm)

end

interpretation valset: canonical_sort validator_less
proof unfold_locales
  fix x y z :: bridgeValidator
  show "\<not> validator_less x x"
    using bytes_compare_eq [of "EthereumAddress x" "EthereumAddress x"] by (simp add: validator_less_def)
  show "validator_less x z" if "validator_less x y" "validator_less y z"
    using that bytes_compare_trans [of "EthereumAddress x" "EthereumAddress y" "EthereumAddress z"]
    by (auto simp: validator_less_def split: if_splits)
  show "validator_less x y \<or> validator_less y x" if "x \<noteq> y"
  proof (cases "Power x = Power y")
    case True
    with that have "bytes_compare (EthereumAddress x) (EthereumAddress y) \<noteq> 0"
      by (cases x; cases y) (simp add: bytes_compare_eq)
    with True show ?thesis
      using bytes_compare_swap [of "EthereumAddress y" "EthereumAddress x"] by (auto simp: validator_less_def)
  qed (auto simp: validator_less_def)
qed

section \<open>The encoders implement the contract ABI\<close>

definition addr20 :: "bridgeValidator \<Rightarrow> bool" where
  "addr20 v \<longleftrightarrow> length (EthereumAddress v) = 20"

text \<open>
  The contract ABI encoding of one argument of type \<^verbatim>\<open>T[]\<close>, for a static tuple type \<^verbatim>\<open>T\<close>: the
  offset of the data, the number of elements, the elements.
\<close>

definition abi_encode_array :: "abi_value list list \<Rightarrow> bytes" where
  "abi_encode_array ts = be 32 32 @ be 32 (length ts) @ concat (map abi_encode ts)"

definition validator_tuple :: "bridgeValidator \<Rightarrow> abi_value list" where
  "validator_tuple v = [AAddress (EthereumAddress v), AUint (unat (Power v))]"

definition valset_preimage :: "bridgeValidator list \<Rightarrow> bytes" where
  "valset_preimage vs = abi_encode_array (map validator_tuple vs)"

definition checkpoint_preimage :: "bytes \<Rightarrow> u64 \<Rightarrow> u64 \<Rightarrow> bytes \<Rightarrow> bytes" where
  "checkpoint_preimage d thr ts h = d @ be 32 (unat thr) @ be 32 (unat ts) @ h"

lemma be_zero: "be n 0 = replicate n 0"
  by (induction n) (simp_all add: replicate_append_same)

lemma be_leading_zeros: "k < 256 ^ n \<Longrightarrow> be (m + n) k = replicate m 0 @ be n k"
proof (induction n arbitrary: k)
  case 0
  then show ?case by (simp add: be_zero)
next
  case (Suc n)
  then have "k div 256 < 256 ^ n" by (simp add: less_mult_imp_div_less mult.commute)
  with Suc show ?case by simp
qed

lemma put_uint64_word_be: "put_uint64_word k = be 32 (unat k)"
proof -
  have "unat k < 256 ^ 8" using u64_less [of k] by simp
  from be_leading_zeros [OF this, of 24] show ?thesis by (simp add: put_uint64_word_def)
qed

lemma encode_validator:
  "abi_encode (validator_tuple v) = left_pad 32 (EthereumAddress v) @ be 32 (unat (Power v))"
  by (simp add: validator_tuple_def static_encode)

lemma length_encode_validator [len_simps]: "addr20 v \<Longrightarrow> length (abi_encode (validator_tuple v)) = 64"
  by (simp add: encode_validator addr20_def len_simps)

lemma encode_validator_inject:
  "addr20 v \<Longrightarrow> addr20 w \<Longrightarrow> abi_encode (validator_tuple v) = abi_encode (validator_tuple w) \<longleftrightarrow> v = w"
  by (cases v; cases w)
     (simp add: encode_validator addr20_def len_simps left_pad_inject u64_be32_inject)

lemma encode_vals_ok:
  assumes L: "eth_lib_spec L" and a: "newType L ''address'' = Inr ta" and u: "newType L ''uint256'' = Inr tu"
    and vs: "list_all addr20 vs"
  shows "encode_vals L [ta, tu] vs = Inr (concat (map (abi_encode \<circ> validator_tuple) vs))"
  using vs
proof (induction vs)
  case (Cons v vs)
  then have len: "length (EthereumAddress v) = 20" by (simp add: addr20_def)
  have "pack L [ta, tu] (validator_tuple v) = Inr (abi_encode (validator_tuple v))"
    by (rule eth_pack [OF L]) (simp_all add: validator_tuple_def a u len u64_fits_word [simplified])
  with Cons len show ?case
    by (simp add: validator_tuple_def eth_address [OF L])
qed simp

lemma encodeAndHashValidatorSet_ok:
  assumes L: "eth_lib_spec L" and vs: "list_all addr20 vs" and len: "length vs < 2 ^ 64"
  shows "encodeAndHashValidatorSet L vs = Inr (valset_preimage vs, keccak256 L (valset_preimage vs))"
proof -
  obtain ta where a: "newType L ''address'' = Inr ta"
    by (rule eth_newType [OF L, of "''address''"]) (simp_all add: abi_types_def)
  obtain tu where u: "newType L ''uint256'' = Inr tu"
    by (rule eth_newType [OF L, of "''uint256''"]) (simp_all add: abi_types_def)
  have "unat (word_of_nat (length vs) :: u64) = length vs"
    using len by (simp add: unat_of_nat)
  then show ?thesis
    using encode_vals_ok [OF L a u vs]
    by (simp add: encodeAndHashValidatorSet_def a u put_uint64_word_be valset_preimage_def
        abi_encode_array_def comp_def Let_def)
qed

lemma encodeValsetCheckpoint_ok:
  assumes L: "eth_lib_spec L" and d: "length d = 32" and h: "length h = 32"
  shows "encodeValsetCheckpoint L d thr ts h = Inr (keccak256 L (checkpoint_preimage d thr ts h))"
proof -
  obtain tb where b: "newType L ''bytes32'' = Inr tb"
    by (rule eth_newType [OF L, of "''bytes32''"]) (simp_all add: abi_types_def)
  obtain tu where u: "newType L ''uint256'' = Inr tu"
    by (rule eth_newType [OF L, of "''uint256''"]) (simp_all add: abi_types_def)
  let ?vs = "[ABytes32 d, AUint (unat thr), AUint (unat ts), ABytes32 h]"
  have "pack L [tb, tu, tu, tb] ?vs = Inr (abi_encode ?vs)"
    by (rule eth_pack [OF L]) (simp_all add: b u d h u64_fits_word [simplified])
  then show ?thesis
    by (simp add: encodeValsetCheckpoint_def b u d h checkpoint_preimage_def static_encode)
qed

lemma computeDomainSeparator_length:
  "eth_lib_spec L \<Longrightarrow> computeDomainSeparator L c = Inr d \<Longrightarrow> length d = 32"
  by (auto simp: computeDomainSeparator_def len_simps split: if_splits sum.splits)

lemma computeDomainSeparator_ok:
  assumes L: "eth_lib_spec L" and len: "length c < 256 ^ 32"
  shows "computeDomainSeparator L c =
    Inr (if c = MainnetChainID then bytes_of ''checkpoint'' @ replicate 22 0
         else keccak256 L (abi_encode [AStr ''checkpoint'', AStr c]))"
proof -
  obtain t where t: "newType L ''string'' = Inr t"
    by (rule eth_newType [OF L, of "''string''"]) (simp_all add: abi_types_def)
  have "pack L [t, t] [AStr ''checkpoint'', AStr c] = Inr (abi_encode [AStr ''checkpoint'', AStr c])"
    by (rule eth_pack [OF L]) (use len in \<open>simp_all add: t\<close>)
  then show ?thesis
    by (simp add: computeDomainSeparator_def t copy_into_def)
qed

section \<open>The encodings bind their inputs\<close>

lemma concat_fixed_inject:
  assumes "list_all P xs" "list_all P ys" "\<And>x. P x \<Longrightarrow> length (f x) = n"
    and inj: "\<And>x y. P x \<Longrightarrow> P y \<Longrightarrow> f x = f y \<Longrightarrow> x = y"
    and "length xs = length ys" "concat (map f xs) = concat (map f ys)"
  shows "xs = ys"
  using assms(5,1,2,6)
proof (induction xs ys rule: list_induct2)
  case (Cons x xs y ys)
  then have "f x = f y \<and> concat (map f xs) = concat (map f ys)"
    using assms(3) by (auto dest: append_eq_same_length [THEN iffD1, rotated])
  with Cons inj show ?case by auto
qed simp

lemma valset_preimage_inject:
  assumes "list_all addr20 vs" "list_all addr20 ws" "length vs < 2 ^ 64" "length ws < 2 ^ 64"
    and eq: "valset_preimage vs = valset_preimage ws"
  shows "vs = ws"
proof -
  have "be 32 (length vs) = be 32 (length ws)"
    and c: "concat (map (abi_encode \<circ> validator_tuple) vs) = concat (map (abi_encode \<circ> validator_tuple) ws)"
    using eq by (simp_all add: valset_preimage_def abi_encode_array_def del: be.simps)
  then have "length vs = length ws"
    using assms(3,4) be_inject [of "length vs" 32 "length ws"] by simp
  with c assms(1,2) show ?thesis
    by (intro concat_fixed_inject [of addr20 vs ws "abi_encode \<circ> validator_tuple" 64])
       (simp_all add: len_simps encode_validator_inject)
qed

lemma checkpoint_preimage_inject:
  assumes "length d = 32" "length d' = 32"
  shows "checkpoint_preimage d thr ts h = checkpoint_preimage d' thr' ts' h'
    \<longleftrightarrow> d = d' \<and> thr = thr' \<and> ts = ts' \<and> h = h'"
  using assms by (simp add: checkpoint_preimage_def u64_be32_inject del: be.simps)

lemma length_checkpoint_preimage [len_simps]:
  "length d = 32 \<Longrightarrow> length h = 32 \<Longrightarrow> length (checkpoint_preimage d thr ts h) = 128"
  by (simp add: checkpoint_preimage_def)

lemma sortBridgeValidators_canonical:
  "sortBridgeValidators vs = sortBridgeValidators ws \<longleftrightarrow> mset vs = mset ws"
  by (metis sortBridgeValidators_def valset.slice_stable_canonical valset.slice_stable_perm)

lemma set_sortBridgeValidators [simp]: "set (sortBridgeValidators vs) = set vs"
  by (metis set_mset_mset sortBridgeValidators_def valset.slice_stable_perm)

lemma length_sortBridgeValidators [simp]: "length (sortBridgeValidators vs) = length vs"
  by (metis size_mset sortBridgeValidators_def valset.slice_stable_perm)

end
