(* ===== verification/Go_Json.thy ===== *)
theory Go_Json
  imports Go_Strings
begin

text \<open>
  Go's \<^verbatim>\<open>encoding/json\<close> as far as the program uses it: the scanner and the decoder of JSON
  texts (with Go's replacement of invalid UTF-8, its surrogate handling and its nesting limit
  of 10000), the case folding by which object keys are matched to struct fields, and the
  string quoting of the encoder.

  \<open>jvalue d s\<close> reads one value from the front of \<open>s\<close> with \<open>d\<close> levels of nesting left.  The
  tests \<open>length r < length s\<close> in the recursive calls never fail; they make the recursion
  well-founded without a fuel argument.
\<close>

datatype json =
    JNull
  | JBool bool
  | JNum string
  | JStr string
  | JArr "json list"
  | JObj "(string \<times> json) list"

section \<open>Runes\<close>

abbreviation code :: "char \<Rightarrow> nat" where
  "code c \<equiv> of_char c"

definition replacement :: string where
  "replacement = [CHR 0xEF, CHR 0xBF, CHR 0xBD]"

definition cont :: "nat \<Rightarrow> nat \<Rightarrow> char \<Rightarrow> bool" where
  "cont lo hi c \<longleftrightarrow> lo \<le> code c \<and> code c \<le> hi"

text \<open>The number of bytes of the valid UTF-8 sequence at the front, or 0.\<close>

fun utf8_len :: "string \<Rightarrow> nat" where
  "utf8_len [] = 0"
| "utf8_len (a # r) =
     (let n = code a;
          c1 = (\<lambda>lo hi. case r of b # _ \<Rightarrow> cont lo hi b | _ \<Rightarrow> False);
          c2 = (case r of _ # b # _ \<Rightarrow> cont 0x80 0xBF b | _ \<Rightarrow> False);
          c3 = (case r of _ # _ # b # _ \<Rightarrow> cont 0x80 0xBF b | _ \<Rightarrow> False)
      in if n < 0x80 then 1
         else if 0xC2 \<le> n \<and> n \<le> 0xDF \<and> c1 0x80 0xBF then 2
         else if n = 0xE0 \<and> c1 0xA0 0xBF \<and> c2 then 3
         else if n = 0xED \<and> c1 0x80 0x9F \<and> c2 then 3
         else if 0xE1 \<le> n \<and> n \<le> 0xEF \<and> n \<noteq> 0xED \<and> c1 0x80 0xBF \<and> c2 then 3
         else if n = 0xF0 \<and> c1 0x90 0xBF \<and> c2 \<and> c3 then 4
         else if 0xF1 \<le> n \<and> n \<le> 0xF3 \<and> c1 0x80 0xBF \<and> c2 \<and> c3 then 4
         else if n = 0xF4 \<and> c1 0x80 0x8F \<and> c2 \<and> c3 then 4
         else 0)"

definition utf8_encode :: "nat \<Rightarrow> string" where
  "utf8_encode n =
     (if n < 0x80 then [char_of n]
      else if n < 0x800 then [char_of (0xC0 + n div 64), char_of (0x80 + n mod 64)]
      else if n < 0x10000 then
        [char_of (0xE0 + n div 4096), char_of (0x80 + n div 64 mod 64), char_of (0x80 + n mod 64)]
      else
        [char_of (0xF0 + n div 262144), char_of (0x80 + n div 4096 mod 64),
         char_of (0x80 + n div 64 mod 64), char_of (0x80 + n mod 64)])"

text \<open>\<^verbatim>\<open>getu4\<close>: the code unit of a \<^verbatim>\<open>\uXXXX\<close> escape at the front.\<close>

fun getu4 :: "string \<Rightarrow> nat option" where
  "getu4 (b # u # x1 # x2 # x3 # x4 # _) =
     (if b = CHR 0x5C \<and> u = CHR ''u'' then
        (case (hex_val x1, hex_val x2, hex_val x3, hex_val x4) of
           (Some h1, Some h2, Some h3, Some h4) \<Rightarrow> Some (((h1 * 16 + h2) * 16 + h3) * 16 + h4)
         | _ \<Rightarrow> None)
      else None)"
| "getu4 _ = None"

definition surrogate :: "nat \<Rightarrow> bool" where
  "surrogate n \<longleftrightarrow> 0xD800 \<le> n \<and> n < 0xE000"

section \<open>Strings\<close>

definition simple_escape :: "char \<Rightarrow> char option" where
  "simple_escape c =
     (if c = CHR 0x22 \<or> c = CHR 0x5C \<or> c = CHR ''/'' then Some c
      else if c = CHR ''b'' then Some (CHR 0x08)
      else if c = CHR ''f'' then Some (CHR 0x0C)
      else if c = CHR ''n'' then Some (CHR 0x0A)
      else if c = CHR ''r'' then Some (CHR 0x0D)
      else if c = CHR ''t'' then Some (CHR 0x09)
      else None)"

text \<open>
  One element of a string body: the decoded bytes and the number of input bytes it takes;
  \<open>None\<close> is a syntax error.
\<close>

definition str_elem :: "string \<Rightarrow> (string \<times> nat) option" where
  "str_elem s =
     (case s of
        [] \<Rightarrow> None
      | c # r \<Rightarrow>
          if c = CHR 0x5C then
            (case r of
               [] \<Rightarrow> None
             | e # _ \<Rightarrow>
                 if e = CHR ''u'' then
                   (case getu4 s of
                      None \<Rightarrow> None
                    | Some u \<Rightarrow>
                        if surrogate u then
                          (case getu4 (drop 6 s) of
                             Some v \<Rightarrow>
                               if u < 0xDC00 \<and> 0xDC00 \<le> v \<and> v < 0xE000
                               then Some (utf8_encode (0x10000 + (u - 0xD800) * 1024 + (v - 0xDC00)), 12)
                               else Some (replacement, 6)
                           | None \<Rightarrow> Some (replacement, 6))
                        else Some (utf8_encode u, 6))
                 else map_option (\<lambda>x. ([x], 2)) (simple_escape e))
          else if code c < 0x20 then None
          else if code c < 0x80 then Some ([c], 1)
          else (let n = utf8_len s in if n = 0 then Some (replacement, 1) else Some (take n s, n)))"

function str_body :: "string \<Rightarrow> (string \<times> string) option" where
  "str_body s =
     (case s of
        [] \<Rightarrow> None
      | c # r \<Rightarrow>
          if c = CHR 0x22 then Some ([], r)
          else (case str_elem s of
                  None \<Rightarrow> None
                | Some (t, n) \<Rightarrow>
                    if n = 0 then None
                    else map_option (\<lambda>(u, r'). (t @ u, r')) (str_body (drop n s))))"
  by pat_completeness auto
termination
  by (relation "measure length") auto

declare str_body.simps [simp del]

lemma str_body_shrinks: "str_body s = Some (t, r) \<Longrightarrow> length r < length s"
proof (induction s arbitrary: t r rule: str_body.induct)
  case (1 s)
  show ?case
  proof (cases s)
    case Nil
    with "1.prems" show ?thesis by (simp add: str_body.simps)
  next
    case (Cons c s')
    show ?thesis
    proof (cases "c = CHR 0x22")
      case True
      with "1.prems" Cons show ?thesis by (simp add: str_body.simps)
    next
      case False
      with "1.prems" Cons obtain u n w where e: "str_elem s = Some (u, n)" and n: "n \<noteq> 0"
        and w: "str_body (drop n s) = Some (w, r)"
        by (subst (asm) str_body.simps) (auto split: option.splits if_splits)
      have "length r < length (drop n s)"
        using "1.IH" [OF Cons False e refl n w] .
      then show ?thesis by simp
    qed
  qed
qed

section \<open>Numbers and values\<close>

definition is_digit :: "char \<Rightarrow> bool" where
  "is_digit c \<longleftrightarrow> digit_val c \<noteq> None"

definition json_ws :: "char \<Rightarrow> bool" where
  "json_ws c \<longleftrightarrow> c = CHR 0x20 \<or> c = CHR 0x09 \<or> c = CHR 0x0A \<or> c = CHR 0x0D"

definition skip_ws :: "string \<Rightarrow> string" where
  "skip_ws s = dropWhile json_ws s"

definition scan_int :: "string \<Rightarrow> (string \<times> string) option" where
  "scan_int s =
     (case s of
        [] \<Rightarrow> None
      | c # r \<Rightarrow>
          if c = CHR ''0'' then Some ([c], r)
          else if is_digit c then Some (takeWhile is_digit s, dropWhile is_digit s)
          else None)"

definition scan_frac :: "string \<Rightarrow> (string \<times> string) option" where
  "scan_frac s =
     (case s of
        c # d # r \<Rightarrow>
          if c = CHR ''.'' then
            (if is_digit d then Some (c # takeWhile is_digit (d # r), dropWhile is_digit (d # r)) else None)
          else Some ([], s)
      | [c] \<Rightarrow> if c = CHR ''.'' then None else Some ([], s)
      | [] \<Rightarrow> Some ([], s))"

definition scan_exp :: "string \<Rightarrow> (string \<times> string) option" where
  "scan_exp s =
     (case s of
        [] \<Rightarrow> Some ([], [])
      | c # r \<Rightarrow>
          if c = CHR ''e'' \<or> c = CHR ''E'' then
            (let (sg, r') = (case r of
                               x # y \<Rightarrow> if x = CHR ''+'' \<or> x = CHR ''-'' then ([x], y) else ([], r)
                             | [] \<Rightarrow> ([], r));
                 ds = takeWhile is_digit r'
             in if ds = [] then None else Some (c # sg @ ds, dropWhile is_digit r'))
          else Some ([], s))"

definition scan_num :: "string \<Rightarrow> (string \<times> string) option" where
  "scan_num s =
     (let (sg, r) = (case s of c # t \<Rightarrow> if c = CHR ''-'' then ([c], t) else ([], s) | [] \<Rightarrow> ([], s))
      in case scan_int r of
           None \<Rightarrow> None
         | Some (i, r1) \<Rightarrow>
             (case scan_frac r1 of
                None \<Rightarrow> None
              | Some (f, r2) \<Rightarrow>
                  (case scan_exp r2 of
                     None \<Rightarrow> None
                   | Some (e, r3) \<Rightarrow> Some (sg @ i @ f @ e, r3))))"

definition scan_lit :: "string \<Rightarrow> json \<Rightarrow> string \<Rightarrow> (json \<times> string) option" where
  "scan_lit w v s = (if has_prefix s w then Some (v, drop (length w) s) else None)"

lemma length_skip_ws: "length (skip_ws s) \<le> length s"
  by (simp add: skip_ws_def length_dropWhile_le)

lemma skip_ws_Cons: "skip_ws s = c # r \<Longrightarrow> length r < length s"
  using length_skip_ws [of s] by simp

function jvalue :: "nat \<Rightarrow> string \<Rightarrow> (json \<times> string) option"
  and jmembers :: "nat \<Rightarrow> string \<Rightarrow> ((string \<times> json) list \<times> string) option"
  and jelems :: "nat \<Rightarrow> string \<Rightarrow> (json list \<times> string) option"
where
  "jvalue d s =
     (case skip_ws s of
        [] \<Rightarrow> None
      | c # r \<Rightarrow>
          if c = CHR ''{'' then
            (if d = 0 then None
             else case skip_ws r of
                    [] \<Rightarrow> None
                  | x # r' \<Rightarrow>
                      if x = CHR ''}'' then Some (JObj [], r')
                      else map_option (\<lambda>(ms, t). (JObj ms, t)) (jmembers (d - 1) r))
          else if c = CHR ''['' then
            (if d = 0 then None
             else case skip_ws r of
                    [] \<Rightarrow> None
                  | x # r' \<Rightarrow>
                      if x = CHR '']'' then Some (JArr [], r')
                      else map_option (\<lambda>(vs, t). (JArr vs, t)) (jelems (d - 1) r))
          else if c = CHR 0x22 then map_option (\<lambda>(t, r'). (JStr t, r')) (str_body r)
          else if c = CHR ''t'' then scan_lit ''true'' (JBool True) (c # r)
          else if c = CHR ''f'' then scan_lit ''false'' (JBool False) (c # r)
          else if c = CHR ''n'' then scan_lit ''null'' JNull (c # r)
          else map_option (\<lambda>(t, r'). (JNum t, r')) (scan_num (c # r)))"
| "jmembers d s =
     (case skip_ws s of
        [] \<Rightarrow> None
      | c # r \<Rightarrow>
          if c \<noteq> CHR 0x22 then None
          else case str_body r of
                 None \<Rightarrow> None
               | Some (k, r1) \<Rightarrow>
                   (case skip_ws r1 of
                      [] \<Rightarrow> None
                    | x # r2 \<Rightarrow>
                        if x \<noteq> CHR '':'' then None
                        else case jvalue d r2 of
                               None \<Rightarrow> None
                             | Some (v, r3) \<Rightarrow>
                                 (case skip_ws r3 of
                                    [] \<Rightarrow> None
                                  | y # r4 \<Rightarrow>
                                      if y = CHR ''}'' then Some ([(k, v)], r4)
                                      else if y = CHR '','' \<and> length r4 < length s then
                                        map_option (\<lambda>(ms, t). ((k, v) # ms, t)) (jmembers d r4)
                                      else None)))"
| "jelems d s =
     (case jvalue d s of
        None \<Rightarrow> None
      | Some (v, r) \<Rightarrow>
          (case skip_ws r of
             [] \<Rightarrow> None
           | y # r' \<Rightarrow>
               if y = CHR '']'' then Some ([v], r')
               else if y = CHR '','' \<and> length r' < length s then
                 map_option (\<lambda>(vs, t). (v # vs, t)) (jelems d r')
               else None))"
  by pat_completeness auto
termination
  by (relation "measure (\<lambda>x. case x of
        Inl (d, s) \<Rightarrow> 2 * length s
      | Inr (Inl (d, s)) \<Rightarrow> 2 * length s + 1
      | Inr (Inr (d, s)) \<Rightarrow> 2 * length s + 1)")
    (auto dest!: skip_ws_Cons str_body_shrinks)

declare jvalue.simps [simp del] jmembers.simps [simp del] jelems.simps [simp del]

text \<open>\<^verbatim>\<open>checkValid\<close> and the decoder: one value with nothing but white space after it.\<close>

definition json_parse :: "string \<Rightarrow> json option" where
  "json_parse s =
     (case jvalue 10000 s of
        Some (v, r) \<Rightarrow> if skip_ws r = [] then Some v else None
      | None \<Rightarrow> None)"

section \<open>Struct fields\<close>

definition upper :: "char \<Rightarrow> char" where
  "upper c = (if 97 \<le> code c \<and> code c \<le> 122 then char_of (code c - 32) else c)"

text \<open>\<^verbatim>\<open>foldName\<close>: besides ASCII case, the Kelvin sign folds to K and the long s to S.\<close>

fun fold_name :: "string \<Rightarrow> string" where
  "fold_name (a # b # c # r) =
     (if [a, b, c] = [CHR 0xE2, CHR 0x84, CHR 0xAA] then CHR ''K'' # fold_name r
      else if [a, b] = [CHR 0xC5, CHR 0xBF] then CHR ''S'' # fold_name (c # r)
      else upper a # fold_name (b # c # r))"
| "fold_name [a, b] = (if [a, b] = [CHR 0xC5, CHR 0xBF] then ''S'' else [upper a, upper b])"
| "fold_name [a] = [upper a]"
| "fold_name [] = []"

definition json_field :: "string list \<Rightarrow> string \<Rightarrow> string option" where
  "json_field names k =
     (if k \<in> set names then Some k else find (\<lambda>n. fold_name n = fold_name k) names)"

section \<open>The encoder\<close>

definition hex4 :: "nat \<Rightarrow> string" where
  "hex4 n = [CHR 0x5C, CHR ''u'', CHR ''0'', CHR ''0'', hex_char (n div 16), hex_char (n mod 16)]"

definition json_escape :: "char \<Rightarrow> string" where
  "json_escape c =
     (if c = CHR 0x22 \<or> c = CHR 0x5C then [CHR 0x5C, c]
      else if c = CHR 0x08 then [CHR 0x5C, CHR ''b'']
      else if c = CHR 0x0C then [CHR 0x5C, CHR ''f'']
      else if c = CHR 0x0A then [CHR 0x5C, CHR ''n'']
      else if c = CHR 0x0D then [CHR 0x5C, CHR ''r'']
      else if c = CHR 0x09 then [CHR 0x5C, CHR ''t'']
      else if code c < 0x20 \<or> c \<in> set ''<>&'' then hex4 (code c)
      else [c])"

text \<open>Quoting of an ASCII string.\<close>

definition json_quote :: "string \<Rightarrow> string" where
  "json_quote s = CHR 0x22 # concat (map json_escape s) @ [CHR 0x22]"

section \<open>Reading back plain tokens\<close>

text \<open>Characters that stand for themselves inside a JSON string.\<close>

definition plain_char :: "char \<Rightarrow> bool" where
  "plain_char c \<longleftrightarrow> 0x20 \<le> code c \<and> code c < 0x80 \<and> c \<noteq> CHR 0x22 \<and> c \<noteq> CHR 0x5C \<and> c \<notin> set ''<>&''"

lemma plain_not_control:
  "plain_char c \<Longrightarrow> c \<noteq> CHR 0x08 \<and> c \<noteq> CHR 0x0C \<and> c \<noteq> CHR 0x0A \<and> c \<noteq> CHR 0x0D \<and> c \<noteq> CHR 0x09"
  unfolding plain_char_def by (intro conjI notI) simp_all

lemma json_escape_plain: "plain_char c \<Longrightarrow> json_escape c = [c]"
  using plain_not_control [of c] unfolding json_escape_def plain_char_def by (simp del: set_simps)

lemma json_quote_plain: "list_all plain_char s \<Longrightarrow> json_quote s = CHR 0x22 # s @ [CHR 0x22]"
  unfolding json_quote_def by (induction s) (auto simp: json_escape_plain)

lemma str_elem_plain: "plain_char c \<Longrightarrow> str_elem (c # r) = Some ([c], 1)"
  unfolding str_elem_def plain_char_def list.case by (simp del: set_simps)

lemma str_body_plain: "list_all plain_char s \<Longrightarrow> str_body (s @ CHR 0x22 # r) = Some (s, r)"
proof (induction s)
  case Nil
  then show ?case by (simp add: str_body.simps)
next
  case (Cons c s)
  then have "plain_char c" by simp
  then have "c \<noteq> CHR 0x22" and "str_elem (c # s @ CHR 0x22 # r) = Some ([c], 1)"
    by (simp_all add: plain_char_def str_elem_plain del: set_simps)
  with Cons show ?case by (subst str_body.simps) simp
qed

text \<open>Decimal digits and hexadecimal digits are such characters.\<close>

lemma plain_charI:
  "48 \<le> code c \<and> code c \<le> 57 \<or> 97 \<le> code c \<and> code c \<le> 122 \<Longrightarrow> plain_char c"
  unfolding plain_char_def by auto

lemma hex_encode_plain: "list_all plain_char (hex_encode bs)"
proof (induction bs)
  case Nil
  then show ?case by simp
next
  case (Cons b bs)
  have h: "d < 16 \<Longrightarrow> plain_char (hex_char d)" for d
    using hex_char_cases [of d] by (intro plain_charI) auto
  have "unat b div 16 < 16" and "unat b mod 16 < 16" using unat_byte_less [of b] by simp_all
  with Cons h show ?case by simp
qed

lemma skip_ws_id: "\<not> json_ws c \<Longrightarrow> skip_ws (c # r) = c # r"
  by (simp add: skip_ws_def)

lemma is_digit_range: "is_digit c \<longleftrightarrow> 48 \<le> code c \<and> code c \<le> 57"
  by (auto simp: is_digit_def digit_val_def Let_def)

lemma digit_not_special:
  assumes "is_digit c"
  shows "\<not> json_ws c" and "c \<notin> set ''{[tfn-''" and "c \<noteq> CHR 0x22"
  using assms by (auto simp: is_digit_range json_ws_def)

lemma format_nat_Cons: "\<exists>c cs. format_nat n = c # cs \<and> is_digit c \<and> (c = CHR ''0'' \<longrightarrow> cs = [])"
proof (induction n rule: format_nat.induct)
  case (1 n)
  show ?case
  proof (cases "n < 10")
    case True
    then show ?thesis by (subst format_nat.simps) (simp add: is_digit_def)
  next
    case False
    then obtain c cs where c: "format_nat (n div 10) = c # cs" "is_digit c" "c = CHR ''0'' \<longrightarrow> cs = []"
      using "1.IH" by blast
    have "c \<noteq> CHR ''0''"
    proof
      assume "c = CHR ''0''"
      with c parse_format_nat [of "n div 10"] have "n div 10 = 0" by (simp add: digit_val_def)
      with False show False by simp
    qed
    with False c show ?thesis by (subst format_nat.simps) simp
  qed
qed

lemma format_nat_all_digits: "\<forall>c \<in> set (format_nat n). is_digit c"
  using format_nat_digits by (auto simp: is_digit_def)

definition delimiter :: "char \<Rightarrow> bool" where
  "delimiter y \<longleftrightarrow> y = CHR '','' \<or> y = CHR ''}''"

lemma delimiter_simps:
  assumes "delimiter y"
  shows "\<not> is_digit y" and "y \<noteq> CHR ''.''" and "y \<noteq> CHR ''e''" and "y \<noteq> CHR ''E''" and "\<not> json_ws y"
  using assms by (auto simp: delimiter_def is_digit_range json_ws_def)

lemma scan_num_format:
  assumes "delimiter y"
  shows "scan_num (format_nat n @ y # r) = Some (format_nat n, y # r)"
proof -
  obtain c cs where c: "format_nat n = c # cs" "is_digit c" "c = CHR ''0'' \<longrightarrow> cs = []"
    using format_nat_Cons by blast
  have "\<forall>x \<in> set (c # cs). is_digit x" using format_nat_all_digits [of n] c(1) by simp
  then have digits: "takeWhile is_digit (c # cs @ y # r) = c # cs" "dropWhile is_digit (c # cs @ y # r) = y # r"
    using takeWhile_append2 [of "c # cs" is_digit "y # r"] dropWhile_append2 [of "c # cs" is_digit "y # r"]
      delimiter_simps(1) [OF assms] by auto
  have i: "scan_int (c # cs @ y # r) = Some (c # cs, y # r)"
    using c(2,3) digits by (auto simp: scan_int_def)
  have f: "scan_frac (y # r) = Some ([], y # r)"
    using delimiter_simps [OF assms] by (auto simp: scan_frac_def split: list.splits)
  have e: "scan_exp (y # r) = Some ([], y # r)"
    using delimiter_simps [OF assms] by (auto simp: scan_exp_def)
  have "c \<noteq> CHR ''-''" using c(2) by (auto simp: is_digit_range)
  with c(1) i f e show ?thesis by (simp add: scan_num_def)
qed

lemma jvalue_num:
  assumes "delimiter y"
  shows "jvalue d (format_nat n @ y # r) = Some (JNum (format_nat n), y # r)"
proof -
  obtain c cs where c: "format_nat n = c # cs" "is_digit c"
    using format_nat_Cons by blast
  show ?thesis
    using digit_not_special [OF c(2)] scan_num_format [OF assms, of n r] c(1)
    by (subst jvalue.simps) (simp add: skip_ws_id)
qed

lemma jvalue_str:
  assumes "list_all plain_char t"
  shows "jvalue d (CHR 0x22 # t @ CHR 0x22 # r) = Some (JStr t, r)"
  using str_body_plain [OF assms, of r]
  by (subst jvalue.simps) (simp add: skip_ws_def json_ws_def)

lemma jmembers_last:
  assumes "list_all plain_char k" and "jvalue d (t @ CHR ''}'' # r) = Some (v, CHR ''}'' # r)"
  shows "jmembers d (CHR 0x22 # k @ CHR 0x22 # CHR '':'' # t @ CHR ''}'' # r) = Some ([(k, v)], r)"
  using str_body_plain [OF assms(1)] assms(2)
  by (subst jmembers.simps) (simp add: skip_ws_def json_ws_def)

lemma jmembers_cons:
  assumes "list_all plain_char k" and "jvalue d (t @ CHR '','' # r) = Some (v, CHR '','' # r)"
    and "jmembers d r = Some (ms, r')"
  shows "jmembers d (CHR 0x22 # k @ CHR 0x22 # CHR '':'' # t @ CHR '','' # r) = Some ((k, v) # ms, r')"
  using str_body_plain [OF assms(1)] assms(2,3)
  by (subst jmembers.simps) (simp add: skip_ws_def json_ws_def)

lemma json_parse_object:
  assumes "jmembers 9999 r = Some (ms, [])" and "r \<noteq> []" and "hd r = CHR 0x22"
  shows "json_parse (CHR ''{'' # r) = Some (JObj ms)"
proof -
  obtain r' where "r = CHR 0x22 # r'" using assms(2,3) by (cases r) auto
  then have "jvalue 10000 (CHR ''{'' # r) = Some (JObj ms, [])"
    using assms(1) by (subst jvalue.simps) (simp add: skip_ws_def json_ws_def)
  then show ?thesis by (simp add: json_parse_def skip_ws_def)
qed

end
