(* ===== verification/Go_Os.thy ===== *)
theory Go_Os
  imports Go_Strings
begin

text \<open>
  The file system behind Go's \<^verbatim>\<open>os\<close> and \<^verbatim>\<open>path/filepath\<close> packages.

  The state \<open>os\<close> maps absolute or relative path names to nodes, and carries the
  environment's choices: \<open>faults n\<close> says whether the \<open>n\<close>-th system call of the run fails,
  \<open>short n\<close> how many bytes a failing write had already stored, \<open>rnd n\<close> the random part
  of the \<open>n\<close>-th temporary name.  Theorems quantify over the state, hence over every
  pattern of failures.  An injected failure is never reported as \<^verbatim>\<open>os.ErrNotExist\<close> or
  \<^verbatim>\<open>os.ErrExist\<close>: those two come from the nodes alone.  Durability of completed calls
  (the effect of \<^verbatim>\<open>fsync\<close> across a power failure) is not modelled beyond this: a call that
  returned has happened.
\<close>

section \<open>Path names\<close>

fun clean_step :: "bool \<Rightarrow> string list \<Rightarrow> string \<Rightarrow> string list" where
  "clean_step rooted out e =
     (if e = '''' \<or> e = ''.'' then out
      else if e = ''..'' then
        (case out of
           [] \<Rightarrow> if rooted then [] else [''..'']
         | p # ps \<Rightarrow> if p = ''..'' then ''..'' # out else ps)
      else e # out)"

fun join_slash :: "string list \<Rightarrow> string" where
  "join_slash [] = []"
| "join_slash [e] = e"
| "join_slash (e # es) = e @ ''/'' @ join_slash es"

text \<open>\<^verbatim>\<open>filepath.Clean\<close>, with the components kept newest first while they are processed.\<close>

definition path_clean :: "string \<Rightarrow> string" where
  "path_clean p =
     (if p = '''' then ''.''
      else
        let rooted = (hd p = CHR ''/'');
            out = join_slash (rev (foldl (clean_step rooted) [] (split_on (CHR ''/'') p)));
            res = (if rooted then CHR ''/'' # out else out)
        in if res = '''' then ''.'' else res)"

definition path_dir :: "string \<Rightarrow> string" where
  "path_dir p =
     path_clean (case last_index_of (CHR ''/'') p of None \<Rightarrow> '''' | Some i \<Rightarrow> take (i + 1) p)"

definition path_join :: "string \<Rightarrow> string \<Rightarrow> string" where
  "path_join a b =
     (let es = filter (\<lambda>e. e \<noteq> '''') [a, b]
      in if es = [] then '''' else path_clean (join_slash es))"

section \<open>Nodes, failures and the state\<close>

type_synonym file_mode = "32 word"

text \<open>Mode bits \<^verbatim>\<open>0o600\<close>.\<close>

abbreviation perm_0600 :: file_mode where
  "perm_0600 \<equiv> 0x180"

datatype node = DirNode | FileNode (fmode: file_mode) (fdata: string)

datatype os_error = NotExist | Exist | OtherErr

record os =
  files :: "string \<Rightarrow> node option"
  faults :: "nat \<Rightarrow> bool"
  short :: "nat \<Rightarrow> nat"
  rnd :: "nat \<Rightarrow> nat"
  tick :: nat

text \<open>What a reader would find at a path.\<close>

definition content_at :: "string \<Rightarrow> 'a os_scheme \<Rightarrow> string option" where
  "content_at p s = (case files s p of Some (FileNode _ d) \<Rightarrow> Some d | _ \<Rightarrow> None)"

definition mode_at :: "string \<Rightarrow> 'a os_scheme \<Rightarrow> file_mode option" where
  "mode_at p s = (case files s p of Some (FileNode m _) \<Rightarrow> Some m | _ \<Rightarrow> None)"

definition step :: "'a os_scheme \<Rightarrow> 'a os_scheme" where
  "step s = s\<lparr>tick := Suc (tick s)\<rparr>"

definition fails :: "'a os_scheme \<Rightarrow> bool" where
  "fails s = faults s (tick s)"

definition set_node :: "string \<Rightarrow> node option \<Rightarrow> 'a os_scheme \<Rightarrow> 'a os_scheme" where
  "set_node p n s = s\<lparr>files := (files s)(p := n)\<rparr>"

lemma files_step [simp]: "files (step s) = files s"
  by (simp add: step_def)

lemma files_set_node [simp]: "files (set_node p n s) = (files s)(p := n)"
  by (simp add: set_node_def)

section \<open>System calls\<close>

definition os_stat :: "string \<Rightarrow> 'a os_scheme \<Rightarrow> (os_error + node) \<times> 'a os_scheme" where
  "os_stat p s =
     ((if fails s then Inl OtherErr
       else case files s p of None \<Rightarrow> Inl NotExist | Some n \<Rightarrow> Inr n), step s)"

definition os_read_file :: "string \<Rightarrow> 'a os_scheme \<Rightarrow> (os_error + string) \<times> 'a os_scheme" where
  "os_read_file p s =
     ((if fails s then Inl OtherErr
       else case files s p of
          None \<Rightarrow> Inl NotExist
        | Some DirNode \<Rightarrow> Inl OtherErr
        | Some (FileNode m d) \<Rightarrow> Inr d), step s)"

text \<open>\<open>ancestors n p\<close> is \<open>p\<close> and up to \<open>n\<close> directories above it.\<close>

fun ancestors :: "nat \<Rightarrow> string \<Rightarrow> string list" where
  "ancestors 0 p = [p]"
| "ancestors (Suc n) p = (let d = path_dir p in if d = p then [p] else p # ancestors n d)"

text \<open>\<^verbatim>\<open>os.MkdirAll\<close>: fails if a file is in the way, otherwise adds the missing directories.\<close>

definition os_mkdir_all :: "string \<Rightarrow> 'a os_scheme \<Rightarrow> (os_error + unit) \<times> 'a os_scheme" where
  "os_mkdir_all d s =
     (let as = ancestors (length d) d in
      if fails s then (Inl OtherErr, step s)
      else if list_ex (\<lambda>a. case files s a of Some (FileNode _ _) \<Rightarrow> True | _ \<Rightarrow> False) as
      then (Inl OtherErr, step s)
      else (Inr (), (step s)\<lparr>files := (\<lambda>p. if files s p = None \<and> p \<in> set as
                                          then Some DirNode else files s p)\<rparr>))"

definition temp_name :: "string \<Rightarrow> string \<Rightarrow> nat \<Rightarrow> string" where
  "temp_name dir pre n =
     (if dir \<noteq> '''' \<and> last dir = CHR ''/'' then dir else dir @ ''/'') @ pre @ format_nat n @ ''.tmp''"

text \<open>
  \<^verbatim>\<open>os.CreateTemp(dir, pre + "*.tmp")\<close>: random names are tried with \<^verbatim>\<open>O_EXCL\<close> until one is
  free, at most 10000 times.
\<close>

fun create_temp_try :: "nat \<Rightarrow> string \<Rightarrow> string \<Rightarrow> 'a os_scheme \<Rightarrow> (os_error + string) \<times> 'a os_scheme" where
  "create_temp_try 0 dir pre s = (Inl Exist, s)"
| "create_temp_try (Suc n) dir pre s =
     (let t = temp_name dir pre (rnd s (tick s)) in
      if fails s then (Inl OtherErr, step s)
      else if files s dir \<noteq> Some DirNode then (Inl NotExist, step s)
      else if files s t \<noteq> None then create_temp_try n dir pre (step s)
      else (Inr t, set_node t (Some (FileNode perm_0600 [])) (step s)))"

definition os_create_temp :: "string \<Rightarrow> string \<Rightarrow> 'a os_scheme \<Rightarrow> (os_error + string) \<times> 'a os_scheme" where
  "os_create_temp dir pre s = create_temp_try 10000 dir pre s"

text \<open>Writing to an open, so far empty file; a failing write may have stored a part.\<close>

definition f_write :: "string \<Rightarrow> string \<Rightarrow> 'a os_scheme \<Rightarrow> (os_error + unit) \<times> 'a os_scheme" where
  "f_write p d s =
     (case files s p of
        Some (FileNode m c) \<Rightarrow>
          if fails s
          then (Inl OtherErr, set_node p (Some (FileNode m (c @ take (short s (tick s)) d))) (step s))
          else (Inr (), set_node p (Some (FileNode m (c @ d))) (step s))
      | _ \<Rightarrow> (Inl OtherErr, step s))"

definition f_chmod :: "string \<Rightarrow> file_mode \<Rightarrow> 'a os_scheme \<Rightarrow> (os_error + unit) \<times> 'a os_scheme" where
  "f_chmod p m s =
     (case files s p of
        Some (FileNode _ c) \<Rightarrow>
          if fails s then (Inl OtherErr, step s)
          else (Inr (), set_node p (Some (FileNode m c)) (step s))
      | _ \<Rightarrow> (Inl OtherErr, step s))"

text \<open>\<^verbatim>\<open>Sync\<close> and \<^verbatim>\<open>Close\<close> change no content; they may report an error.\<close>

definition f_sync :: "'a os_scheme \<Rightarrow> (os_error + unit) \<times> 'a os_scheme" where
  "f_sync s = ((if fails s then Inl OtherErr else Inr ()), step s)"

definition f_close :: "'a os_scheme \<Rightarrow> (os_error + unit) \<times> 'a os_scheme" where
  "f_close s = ((if fails s then Inl OtherErr else Inr ()), step s)"

definition os_open_dir :: "string \<Rightarrow> 'a os_scheme \<Rightarrow> (os_error + unit) \<times> 'a os_scheme" where
  "os_open_dir d s =
     ((if fails s then Inl OtherErr
       else case files s d of None \<Rightarrow> Inl NotExist | Some _ \<Rightarrow> Inr ()), step s)"

definition os_rename :: "string \<Rightarrow> string \<Rightarrow> 'a os_scheme \<Rightarrow> (os_error + unit) \<times> 'a os_scheme" where
  "os_rename old new s =
     (if fails s then (Inl OtherErr, step s)
      else case files s old of
             None \<Rightarrow> (Inl NotExist, step s)
           | Some n \<Rightarrow>
               if files s new = Some DirNode then (Inl OtherErr, step s)
               else if old = new then (Inr (), step s)
               else (Inr (), set_node old None (set_node new (Some n) (step s))))"

definition os_link :: "string \<Rightarrow> string \<Rightarrow> 'a os_scheme \<Rightarrow> (os_error + unit) \<times> 'a os_scheme" where
  "os_link old new s =
     (if fails s then (Inl OtherErr, step s)
      else case files s old of
             None \<Rightarrow> (Inl NotExist, step s)
           | Some n \<Rightarrow>
               if files s new \<noteq> None then (Inl Exist, step s)
               else (Inr (), set_node new (Some n) (step s)))"

text \<open>\<^verbatim>\<open>os.Remove\<close>, whose result every caller here discards.\<close>

definition os_remove :: "string \<Rightarrow> 'a os_scheme \<Rightarrow> 'a os_scheme" where
  "os_remove p s =
     (if fails s then step s
      else case files s p of
             Some (FileNode _ _) \<Rightarrow> set_node p None (step s)
           | _ \<Rightarrow> step s)"

text \<open>
  \<^verbatim>\<open>os.WriteFile(p, d, m)\<close>: create or truncate, then write.  An existing file keeps its
  mode; a failing write leaves a prefix of the data.
\<close>

definition os_write_file :: "string \<Rightarrow> string \<Rightarrow> file_mode \<Rightarrow> 'a os_scheme \<Rightarrow> (os_error + unit) \<times> 'a os_scheme" where
  "os_write_file p d m s =
     (if fails s then (Inl OtherErr, step s)
      else case files s p of
             Some DirNode \<Rightarrow> (Inl OtherErr, step s)
           | Some (FileNode m' _) \<Rightarrow> f_write p d (set_node p (Some (FileNode m' [])) (step s))
           | None \<Rightarrow>
               if files s (path_dir p) \<noteq> Some DirNode then (Inl NotExist, step s)
               else f_write p d (set_node p (Some (FileNode m [])) (step s)))"

section \<open>Frame facts\<close>

text \<open>
  A path whose name does not end in \<^verbatim>\<open>.tmp\<close> never is a temporary name, so creating,
  filling and removing temporary files leaves it alone.
\<close>

definition ends_tmp :: "string \<Rightarrow> bool" where
  "ends_tmp p \<longleftrightarrow> drop (length p - 4) p = ''.tmp''"

lemma temp_name_ends [simp]: "ends_tmp (temp_name dir pre n)"
  by (simp add: temp_name_def ends_tmp_def)

lemma temp_name_neq: "\<not> ends_tmp p \<Longrightarrow> temp_name dir pre n \<noteq> p"
  using temp_name_ends by metis

lemma create_temp_try_frame:
  assumes "create_temp_try n dir pre s = (r, s')"
  shows "(\<forall>p. \<not> ends_tmp p \<longrightarrow> files s' p = files s p)
    \<and> (\<forall>t. r = Inr t \<longrightarrow> ends_tmp t \<and> files s t = None \<and> files s' t = Some (FileNode perm_0600 []))"
  using assms
proof (induction n dir pre s rule: create_temp_try.induct)
  case (1 dir pre s)
  then show ?case by auto
next
  case (2 n dir pre s)
  show ?case
  proof (cases "\<not> fails s \<and> files s dir = Some DirNode \<and> files s (temp_name dir pre (rnd s (tick s))) \<noteq> None")
    case True
    with "2.prems" have "create_temp_try n dir pre (step s) = (r, s')"
      by (simp add: Let_def)
    with True show ?thesis using "2.IH" [OF refl] by simp
  next
    case False
    with "2.prems" show ?thesis
      by (auto simp: Let_def temp_name_neq split: if_splits)
  qed
qed

lemma os_create_temp_frame:
  "os_create_temp dir pre s = (r, s') \<Longrightarrow> \<not> ends_tmp p \<Longrightarrow> files s' p = files s p"
  by (simp add: os_create_temp_def create_temp_try_frame)

lemma os_create_temp_new:
  "os_create_temp dir pre s = (Inr t, s') \<Longrightarrow>
     ends_tmp t \<and> files s t = None \<and> files s' t = Some (FileNode perm_0600 [])"
  using create_temp_try_frame [of 10000 dir pre s "Inr t" s'] by (simp add: os_create_temp_def)

lemma mkdir_all_content: "content_at p (snd (os_mkdir_all d s)) = content_at p s"
  by (simp add: os_mkdir_all_def Let_def content_at_def)

lemma content_at_cong: "files s p = files s' p \<Longrightarrow> content_at p s = content_at p s'"
  by (simp add: content_at_def)

lemma os_remove_other: "p \<noteq> q \<Longrightarrow> files (os_remove q s) p = files s p"
  by (simp add: os_remove_def split: option.splits node.splits)

lemma os_read_file_Inr: "os_read_file p s = (Inr d, s') \<longleftrightarrow> \<not> fails s \<and> content_at p s = Some d \<and> s' = step s"
  by (auto simp: os_read_file_def content_at_def split: option.splits node.splits)

lemmas os_calls = os_stat_def os_read_file_def os_open_dir_def f_sync_def f_close_def

end
