(* ===== verification/Replay_Guard.thy ===== *)
theory Replay_Guard
  imports Go_Json Go_Os
begin

text \<open>
  The checkpoint replay guard (\<^verbatim>\<open>src/server/replay_guard.go\<close>): a high-water mark on the
  validator timestamp, the memo of the last signature, and their file.

  Each method runs under the guard's mutex, so it is one step: a function from the guard and
  the file system to its result, the new guard and the new file system.  A \<^verbatim>\<open>nil\<close> slice is
  \<open>None\<close>.

  The store contract \<open>atomic_store\<close> is what the guard relies on when it persists itself; it
  is interpreted on \<open>writeBytesAtomic\<close>.  The contract of the guard itself, \<open>monotone_gate\<close>, is
  what the server relies on; it is interpreted on the methods below.
\<close>

section \<open>Errors\<close>

datatype write_error =
    MkdirErr os_error
  | CreateTempErr os_error
  | WriteErr os_error
  | ChmodErr os_error
  | FsyncErr os_error
  | CloseErr os_error
  | RenameErr os_error
  | OpenDirErr os_error
  | FsyncDirErr os_error

datatype guard_error =
    ReadErr os_error
  | ParseErr
  | HexErr string
  | HexLenErr string nat nat
  | ErrReplayGuardRejected u64 u64
  | PersistErr write_error

section \<open>State\<close>

record checkpointReplayGuard =
  statePath :: string
  highWater :: u64
  loaded :: bool
  signedCheckpoint :: "bytes option"
  signedSignature :: "bytes option"

record guardState =
  HighWater :: u64
  Checkpoint :: string
  Signature :: string

section \<open>The state file format\<close>

text \<open>\<^verbatim>\<open>json.Marshal\<close> of a \<open>guardState\<close>: the two \<^verbatim>\<open>omitempty\<close> fields are left out when empty.\<close>

definition marshal_guardState :: "guardState \<Rightarrow> string" where
  "marshal_guardState st =
     ''{'' @ json_quote ''high_water'' @ '':'' @ format_uint (HighWater st) @
     (if Checkpoint st = '''' then '''' else '','' @ json_quote ''checkpoint'' @ '':'' @ json_quote (Checkpoint st)) @
     (if Signature st = '''' then '''' else '','' @ json_quote ''signature'' @ '':'' @ json_quote (Signature st)) @ ''}''"

definition guard_fields :: "string list" where
  "guard_fields = [''high_water'', ''checkpoint'', ''signature'']"

text \<open>
  One object member: unknown keys are skipped, \<^verbatim>\<open>null\<close> leaves a field alone, a value of the
  wrong type or out of range is an error of the whole call.
\<close>

fun set_member :: "guardState option \<Rightarrow> string \<times> json \<Rightarrow> guardState option" where
  "set_member None _ = None"
| "set_member (Some st) (k, v) =
     (case json_field guard_fields k of
        None \<Rightarrow> Some st
      | Some f \<Rightarrow>
          if v = JNull then Some st
          else if f = ''high_water'' then
            (case v of
               JNum t \<Rightarrow> map_option (\<lambda>n. st\<lparr>HighWater := n\<rparr>) (parse_uint t)
             | _ \<Rightarrow> None)
          else if f = ''checkpoint'' then
            (case v of JStr t \<Rightarrow> Some (st\<lparr>Checkpoint := t\<rparr>) | _ \<Rightarrow> None)
          else (case v of JStr t \<Rightarrow> Some (st\<lparr>Signature := t\<rparr>) | _ \<Rightarrow> None))"

definition unmarshal_guardState :: "string \<Rightarrow> guardState option" where
  "unmarshal_guardState raw =
     (case json_parse raw of
        Some (JObj ms) \<Rightarrow> foldl set_member (Some \<lparr>HighWater = 0, Checkpoint = '''', Signature = ''''\<rparr>) ms
      | Some JNull \<Rightarrow> Some \<lparr>HighWater = 0, Checkpoint = '''', Signature = ''''\<rparr>
      | _ \<Rightarrow> None)"

definition decodeOptionalHex :: "string \<Rightarrow> nat \<Rightarrow> string \<Rightarrow> guard_error + bytes option" where
  "decodeOptionalHex s want field =
     (if s = '''' then Inr None
      else case hex_decode s of
             None \<Rightarrow> Inl (HexErr field)
           | Some b \<Rightarrow> if length b \<noteq> want then Inl (HexLenErr field want (length b)) else Inr (Some b))"

text \<open>What the bytes of a state file mean: the mark and the memo, or a refusal to start.\<close>

definition parse_guard :: "string \<Rightarrow> guard_error + (u64 \<times> bytes option \<times> bytes option)" where
  "parse_guard data =
     (let raw = trim_space data in
      if has_prefix raw ''{'' then
        (case unmarshal_guardState raw of
           None \<Rightarrow> Inl ParseErr
         | Some st \<Rightarrow>
             (case decodeOptionalHex (Checkpoint st) 32 ''checkpoint'' of
                Inl e \<Rightarrow> Inl e
              | Inr ckpt \<Rightarrow>
                  (case decodeOptionalHex (Signature st) 64 ''signature'' of
                     Inl e \<Rightarrow> Inl e
                   | Inr sig \<Rightarrow>
                       if ckpt \<noteq> None \<and> sig \<noteq> None then Inr (HighWater st, ckpt, sig)
                       else Inr (HighWater st, None, None))))
      else
        (case parse_uint raw of
           None \<Rightarrow> Inl ParseErr
         | Some v \<Rightarrow> Inr (v, None, None)))"

section \<open>Operations\<close>

definition newCheckpointReplayGuard ::
    "string \<Rightarrow> 'a os_scheme \<Rightarrow> (guard_error + checkpointReplayGuard) \<times> 'a os_scheme" where
  "newCheckpointReplayGuard path s =
     (let g = \<lparr>statePath = path, highWater = 0, loaded = True, signedCheckpoint = None, signedSignature = None\<rparr>
      in if path = '''' then (Inr g, s)
         else case os_read_file path s of
                (Inl NotExist, s') \<Rightarrow> (Inr g, s')
              | (Inl e, s') \<Rightarrow> (Inl (ReadErr e), s')
              | (Inr data, s') \<Rightarrow>
                  (case parse_guard data of
                     Inl e \<Rightarrow> (Inl e, s')
                   | Inr (hw, c, sg) \<Rightarrow>
                       (Inr (g\<lparr>highWater := hw, signedCheckpoint := c, signedSignature := sg\<rparr>), s')))"

definition CachedSignature :: "checkpointReplayGuard \<Rightarrow> u64 \<Rightarrow> bytes \<Rightarrow> bytes option" where
  "CachedSignature g ts checkpoint =
     (if \<not> loaded g \<or> ts \<noteq> highWater g then None
      else case (signedCheckpoint g, signedSignature g) of
             (Some c, Some sg) \<Rightarrow> if c = checkpoint then Some sg else None
           | _ \<Rightarrow> None)"

text \<open>\<^verbatim>\<open>syncDirBestEffort\<close>; the deferred close of the directory handle changes nothing.\<close>

definition syncDirBestEffort :: "string \<Rightarrow> 'a os_scheme \<Rightarrow> (write_error + unit) \<times> 'a os_scheme" where
  "syncDirBestEffort dir s =
     (case os_open_dir dir s of
        (Inl e, s1) \<Rightarrow> (Inl (OpenDirErr e), s1)
      | (Inr _, s1) \<Rightarrow>
          (case f_sync s1 of
             (Inl e, s2) \<Rightarrow> (Inl (FsyncDirErr e), step s2)
           | (Inr _, s2) \<Rightarrow> (Inr (), step s2)))"

text \<open>The steps on the temporary file; a failure after the write closes it first.\<close>

definition fill_temp :: "string \<Rightarrow> string \<Rightarrow> 'a os_scheme \<Rightarrow> (write_error + unit) \<times> 'a os_scheme" where
  "fill_temp t b s =
     (case f_write t b s of
        (Inl e, s1) \<Rightarrow> (Inl (WriteErr e), step s1)
      | (Inr _, s1) \<Rightarrow>
          (case f_chmod t perm_0600 s1 of
             (Inl e, s2) \<Rightarrow> (Inl (ChmodErr e), step s2)
           | (Inr _, s2) \<Rightarrow>
               (case f_sync s2 of
                  (Inl e, s3) \<Rightarrow> (Inl (FsyncErr e), step s3)
                | (Inr _, s3) \<Rightarrow>
                    (case f_close s3 of
                       (Inl e, s4) \<Rightarrow> (Inl (CloseErr e), s4)
                     | (Inr _, s4) \<Rightarrow> (Inr (), s4)))))"

text \<open>
  What follows the creation of the temporary file.  The deferred \<^verbatim>\<open>os.Remove(tmpPath)\<close> runs on
  every return from here on.
\<close>

definition commit_temp :: "string \<Rightarrow> string \<Rightarrow> string \<Rightarrow> string \<Rightarrow> 'a os_scheme \<Rightarrow> (write_error + unit) \<times> 'a os_scheme" where
  "commit_temp t dir path b s =
     (case fill_temp t b s of
        (Inl e, s1) \<Rightarrow> (Inl e, os_remove t s1)
      | (Inr _, s1) \<Rightarrow>
          (case os_rename t path s1 of
             (Inl e, s2) \<Rightarrow> (Inl (RenameErr e), os_remove t s2)
           | (Inr _, s2) \<Rightarrow>
               (case syncDirBestEffort dir s2 of (r, s3) \<Rightarrow> (r, os_remove t s3))))"

definition writeBytesAtomic :: "string \<Rightarrow> string \<Rightarrow> 'a os_scheme \<Rightarrow> (write_error + unit) \<times> 'a os_scheme" where
  "writeBytesAtomic path b s =
     (let dir = path_dir path in
      case os_mkdir_all dir s of
        (Inl e, s1) \<Rightarrow> (Inl (MkdirErr e), s1)
      | (Inr _, s1) \<Rightarrow>
          (case os_create_temp dir ''.ckpt-hw-'' s1 of
             (Inl e, s2) \<Rightarrow> (Inl (CreateTempErr e), s2)
           | (Inr t, s2) \<Rightarrow> commit_temp t dir path b s2))"

definition guard_blob :: "checkpointReplayGuard \<Rightarrow> string" where
  "guard_blob g =
     marshal_guardState
       (case (signedCheckpoint g, signedSignature g) of
          (Some c, Some sg) \<Rightarrow> \<lparr>HighWater = highWater g, Checkpoint = hex_encode c, Signature = hex_encode sg\<rparr>
        | _ \<Rightarrow> \<lparr>HighWater = highWater g, Checkpoint = '''', Signature = ''''\<rparr>)"

definition persistLocked :: "checkpointReplayGuard \<Rightarrow> 'a os_scheme \<Rightarrow> (write_error + unit) \<times> 'a os_scheme" where
  "persistLocked g s = writeBytesAtomic (statePath g) (guard_blob g) s"

text \<open>\<^verbatim>\<open>append([]byte(nil), b...)\<close> is \<^verbatim>\<open>nil\<close> for an empty \<open>b\<close>.\<close>

definition append_nil :: "bytes \<Rightarrow> bytes option" where
  "append_nil b = (if b = [] then None else Some b)"

definition RecordSignature ::
    "checkpointReplayGuard \<Rightarrow> u64 \<Rightarrow> bytes \<Rightarrow> bytes \<Rightarrow> 'a os_scheme
      \<Rightarrow> (guard_error + unit) \<times> checkpointReplayGuard \<times> 'a os_scheme" where
  "RecordSignature g ts checkpoint sig s =
     (if ts \<noteq> highWater g then (Inr (), g, s)
      else
        let g' = g\<lparr>signedCheckpoint := append_nil checkpoint, signedSignature := append_nil sig\<rparr>
        in if statePath g = '''' then (Inr (), g', s)
           else case persistLocked g' s of
                  (Inl e, s') \<Rightarrow> (Inl (PersistErr e), g', s')
                | (Inr _, s') \<Rightarrow> (Inr (), g', s'))"

definition CheckAndAdvance ::
    "checkpointReplayGuard \<Rightarrow> u64 \<Rightarrow> 'a os_scheme
      \<Rightarrow> (guard_error + unit) \<times> checkpointReplayGuard \<times> 'a os_scheme" where
  "CheckAndAdvance g ts s =
     (if loaded g \<and> ts \<le> highWater g then (Inl (ErrReplayGuardRejected ts (highWater g)), g, s)
      else
        let g' = g\<lparr>highWater := ts, signedCheckpoint := None, signedSignature := None\<rparr>
        in if statePath g = '''' then (Inr (), g', s)
           else case persistLocked g' s of
                  (Inl e, s') \<Rightarrow> (Inl (PersistErr e), g, s')
                | (Inr _, s') \<Rightarrow> (Inr (), g', s'))"

section \<open>The store contract\<close>

text \<open>
  All-or-nothing replacement: after a call that succeeds the new content is there, after a
  call that fails the old or the new one is, never a part of it.
\<close>

locale atomic_store =
  fixes put :: "string \<Rightarrow> string \<Rightarrow> 's \<Rightarrow> ('e + unit) \<times> 's"
    and get :: "string \<Rightarrow> 's \<Rightarrow> string option"
    and valid :: "string \<Rightarrow> bool"
  assumes put_ok: "valid p \<Longrightarrow> put p d s = (Inr (), s') \<Longrightarrow> get p s' = Some d"
    and put_any: "valid p \<Longrightarrow> put p d s = (r, s') \<Longrightarrow> get p s' = get p s \<or> get p s' = Some d"
begin

text \<open>A property of the stored text survives a write that establishes it, failed or not.\<close>

lemma put_preserves:
  assumes "valid p" and "put p d s = (r, s')"
    and "\<And>c. get p s = Some c \<Longrightarrow> P c" and "P d" and "get p s' = Some c"
  shows "P c"
  using put_any [OF assms(1,2)] assms(3-5) by auto

lemma put_keeps_existing:
  assumes "valid p" and "put p d s = (r, s')" and "get p s \<noteq> None"
  shows "get p s' \<noteq> None"
  using put_any [OF assms(1,2)] assms(3) by auto

end

lemma fill_temp_files:
  assumes "fill_temp t b s = (r, s')" and "files s t = Some (FileNode m [])"
  shows "\<forall>p. p \<noteq> t \<longrightarrow> files s' p = files s p"
    and "r = Inr () \<Longrightarrow> files s' t = Some (FileNode perm_0600 b)"
  using assms
  by (auto simp: fill_temp_def f_write_def f_chmod_def f_sync_def f_close_def
      split: if_splits)

lemma syncDir_files: "files (snd (syncDirBestEffort d s)) = files s"
  by (simp add: syncDirBestEffort_def os_open_dir_def f_sync_def split: option.splits)

lemma os_rename_content:
  assumes "os_rename t path s = (r, s')" and "t \<noteq> path" and "files s t = Some (FileNode m b)"
  shows "if r = Inr () then files s' path = Some (FileNode m b) else files s' = files s"
  using assms by (auto simp: os_rename_def split: if_splits)

lemma commit_temp_cases:
  assumes w: "commit_temp tmp dir path b s = (r, s')"
    and ne: "tmp \<noteq> path" and tmp: "files s tmp = Some (FileNode m [])"
  shows "files s' path = files s path \<and> r \<noteq> Inr () \<or> files s' path = Some (FileNode perm_0600 b)"
proof -
  obtain r1 s1 where f: "fill_temp tmp b s = (r1, s1)" by force
  have c1: "files s1 path = files s path" using fill_temp_files(1) [OF f tmp] ne by simp
  show ?thesis
  proof (cases r1)
    case (Inl e)
    with w f have "s' = os_remove tmp s1" and "r = Inl e" by (auto simp: commit_temp_def)
    with c1 ne show ?thesis by (simp add: os_remove_other)
  next
    case (Inr u)
    then have "files s1 tmp = Some (FileNode perm_0600 b)" using fill_temp_files(2) [OF f tmp] by simp
    moreover obtain r2 s2 where n: "os_rename tmp path s1 = (r2, s2)" by force
    ultimately have rn: "if r2 = Inr () then files s2 path = Some (FileNode perm_0600 b) else files s2 = files s1"
      using os_rename_content [OF n ne] by simp
    show ?thesis
    proof (cases r2)
      case n_err: (Inl e)
      with w f Inr n have "s' = os_remove tmp s2" and "r = Inl (RenameErr e)"
        by (auto simp: commit_temp_def)
      with rn n_err c1 ne show ?thesis by (simp add: os_remove_other)
    next
      case n_ok: (Inr v)
      obtain r3 s3 where y: "syncDirBestEffort dir s2 = (r3, s3)" by force
      with w f Inr n n_ok have "s' = os_remove tmp s3" by (auto simp: commit_temp_def)
      moreover have "files s3 = files s2" using syncDir_files [of dir s2] y by simp
      ultimately show ?thesis using rn n_ok ne by (simp add: os_remove_other)
    qed
  qed
qed

lemma writeBytesAtomic_cases:
  assumes w: "writeBytesAtomic path b s = (r, s')" and v: "\<not> ends_tmp path"
  shows "content_at path s' = content_at path s \<and> r \<noteq> Inr ()
    \<or> files s' path = Some (FileNode perm_0600 b)"
proof -
  obtain r1 s1 where m: "os_mkdir_all (path_dir path) s = (r1, s1)" by force
  obtain r2 s2 where t: "os_create_temp (path_dir path) ''.ckpt-hw-'' s1 = (r2, s2)" by force
  have c1: "content_at path s1 = content_at path s"
    using mkdir_all_content [of path "path_dir path" s] m by simp
  have c2: "content_at path s2 = content_at path s1"
    by (rule content_at_cong) (rule os_create_temp_frame [OF t v])
  show ?thesis
  proof (cases "\<exists>u tmp. r1 = Inr u \<and> r2 = Inr tmp")
    case False
    with w m t c1 c2 show ?thesis
      by (cases r1; cases r2) (auto simp: writeBytesAtomic_def Let_def)
  next
    case True
    then obtain u tmp where ok: "r1 = Inr u" "r2 = Inr tmp" by blast
    then have "ends_tmp tmp" and new: "files s2 tmp = Some (FileNode perm_0600 [])"
      using os_create_temp_new t by blast+
    then have ne: "tmp \<noteq> path" using v by auto
    from w m t ok have "commit_temp tmp (path_dir path) path b s2 = (r, s')"
      by (simp add: writeBytesAtomic_def Let_def)
    from commit_temp_cases [OF this ne new] c1 c2 content_at_cong [of s' path s2] show ?thesis
      by auto
  qed
qed

interpretation guard_store: atomic_store writeBytesAtomic content_at "\<lambda>p. \<not> ends_tmp p"
proof unfold_locales
  fix p d s s'
  assume "\<not> ends_tmp p" and "writeBytesAtomic p d s = (Inr (), s' :: 'a os_scheme)"
  then show "content_at p s' = Some d"
    using writeBytesAtomic_cases [of p d s "Inr ()" s'] by (auto simp: content_at_def)
next
  fix p d s s' r
  assume "\<not> ends_tmp p" and "writeBytesAtomic p d s = (r, s' :: 'a os_scheme)"
  then show "content_at p s' = content_at p s \<or> content_at p s' = Some d"
    using writeBytesAtomic_cases [of p d s r s'] by (auto simp: content_at_def)
qed

section \<open>The state file reads back\<close>

definition memo_wf :: "checkpointReplayGuard \<Rightarrow> bool" where
  "memo_wf g \<longleftrightarrow>
     (case (signedCheckpoint g, signedSignature g) of
        (None, None) \<Rightarrow> True
      | (Some c, Some sg) \<Rightarrow> length c = 32 \<and> length sg = 64
      | _ \<Rightarrow> False)"

lemma field_names:
  "list_all plain_char ''high_water''" "list_all plain_char ''checkpoint''" "list_all plain_char ''signature''"
  by (simp_all add: plain_char_def)

lemmas quote_fields = field_names [THEN json_quote_plain]

lemma json_field_self: "k \<in> set guard_fields \<Longrightarrow> json_field guard_fields k = Some k"
  by (simp add: json_field_def)

definition memo_members :: "u64 \<Rightarrow> bytes \<Rightarrow> bytes \<Rightarrow> (string \<times> json) list" where
  "memo_members hw c sg =
     [(''high_water'', JNum (format_uint hw)), (''checkpoint'', JStr (hex_encode c)),
      (''signature'', JStr (hex_encode sg))]"

lemma marshal_plain:
  "marshal_guardState \<lparr>HighWater = hw, Checkpoint = '''', Signature = ''''\<rparr>
   = CHR ''{'' # (CHR 0x22 # ''high_water'' @ CHR 0x22 # CHR '':'' # format_uint hw @ CHR ''}'' # [])"
  by (simp add: marshal_guardState_def quote_fields)

lemma marshal_memo:
  assumes "c \<noteq> []" and "sg \<noteq> []"
  shows "marshal_guardState \<lparr>HighWater = hw, Checkpoint = hex_encode c, Signature = hex_encode sg\<rparr>
   = CHR ''{'' # (CHR 0x22 # ''high_water'' @ CHR 0x22 # CHR '':'' # format_uint hw @ CHR '','' #
       (CHR 0x22 # ''checkpoint'' @ CHR 0x22 # CHR '':'' # (CHR 0x22 # hex_encode c @ [CHR 0x22]) @ CHR '','' #
         (CHR 0x22 # ''signature'' @ CHR 0x22 # CHR '':'' # (CHR 0x22 # hex_encode sg @ [CHR 0x22]) @ CHR ''}'' # [])))"
  using assms by (simp add: marshal_guardState_def quote_fields json_quote_plain hex_encode_plain)

lemma parse_plain:
  "json_parse (marshal_guardState \<lparr>HighWater = hw, Checkpoint = '''', Signature = ''''\<rparr>)
   = Some (JObj [(''high_water'', JNum (format_uint hw))])"
  unfolding marshal_plain format_uint_def
  by (rule json_parse_object, rule jmembers_last [OF field_names(1)], rule jvalue_num)
    (simp_all add: delimiter_def)

lemma jvalue_hex:
  "jvalue d ((CHR 0x22 # hex_encode c @ [CHR 0x22]) @ r) = Some (JStr (hex_encode c), r)"
  using jvalue_str [OF hex_encode_plain, of d c r] by simp

lemma parse_memo:
  assumes "c \<noteq> []" and "sg \<noteq> []"
  shows "json_parse (marshal_guardState \<lparr>HighWater = hw, Checkpoint = hex_encode c, Signature = hex_encode sg\<rparr>)
   = Some (JObj (memo_members hw c sg))"
  unfolding marshal_memo [OF assms] memo_members_def format_uint_def
  by (rule json_parse_object, rule jmembers_cons [OF field_names(1)], rule jvalue_num,
      simp add: delimiter_def, rule jmembers_cons [OF field_names(2)], rule jvalue_hex,
      rule jmembers_last [OF field_names(3)], rule jvalue_hex) simp_all


lemma unmarshal_plain:
  "unmarshal_guardState (marshal_guardState \<lparr>HighWater = hw, Checkpoint = '''', Signature = ''''\<rparr>)
   = Some \<lparr>HighWater = hw, Checkpoint = '''', Signature = ''''\<rparr>"
  by (simp add: unmarshal_guardState_def parse_plain json_field_def guard_fields_def parse_format_uint)

lemma unmarshal_memo:
  assumes "c \<noteq> []" and "sg \<noteq> []"
  shows "unmarshal_guardState (marshal_guardState
      \<lparr>HighWater = hw, Checkpoint = hex_encode c, Signature = hex_encode sg\<rparr>)
   = Some \<lparr>HighWater = hw, Checkpoint = hex_encode c, Signature = hex_encode sg\<rparr>"
  by (simp add: unmarshal_guardState_def parse_memo [OF assms] memo_members_def json_field_def
      guard_fields_def parse_format_uint)

lemma trim_marshal: "trim_space (marshal_guardState st) = marshal_guardState st"
  by (rule trim_space_graphic) (simp_all add: marshal_guardState_def graphic_def)

lemma marshal_prefix: "has_prefix (marshal_guardState st) ''{''"
  by (simp add: marshal_guardState_def has_prefix_def)

lemma parse_guard_blob:
  assumes "memo_wf g"
  shows "parse_guard (guard_blob g) = Inr (highWater g, signedCheckpoint g, signedSignature g)"
proof (cases "signedCheckpoint g")
  case None
  with assms have "signedSignature g = None"
    by (auto simp: memo_wf_def split: option.splits)
  with None show ?thesis
    by (simp add: parse_guard_def guard_blob_def trim_marshal marshal_prefix unmarshal_plain
        decodeOptionalHex_def)
next
  case (Some c)
  with assms obtain sg where "signedSignature g = Some sg" "length c = 32" "length sg = 64"
    by (auto simp: memo_wf_def split: option.splits)
  moreover from this have "c \<noteq> []" "sg \<noteq> []" by auto
  ultimately show ?thesis using Some
    by (simp add: parse_guard_def guard_blob_def trim_marshal marshal_prefix unmarshal_memo
        decodeOptionalHex_def hex_decode_encode)
qed

text \<open>A file in the legacy format, a bare decimal number, still carries its mark.\<close>

lemma format_nat_last: "is_digit (last (format_nat n))"
  using format_nat_all_digits [of n] last_in_set [OF format_nat_nonempty] by blast

lemma digit_graphic: "is_digit c \<Longrightarrow> graphic c"
  by (auto simp: is_digit_range graphic_def)

lemma parse_guard_legacy: "parse_guard (format_uint hw) = Inr (hw, None, None)"
proof -
  obtain c cs where c: "format_nat (unat hw) = c # cs" "is_digit c" using format_nat_Cons by blast
  have "trim_space (format_uint hw) = format_uint hw"
    using c format_nat_last [of "unat hw"] unfolding format_uint_def
    by (intro trim_space_graphic) (auto intro: digit_graphic)
  moreover have "\<not> has_prefix (format_uint hw) ''{''"
    using c digit_not_special(2) [OF c(2)] by (auto simp: format_uint_def has_prefix_def)
  ultimately show ?thesis by (simp add: parse_guard_def parse_format_uint)
qed

section \<open>The guard invariant\<close>

definition guard_inv :: "checkpointReplayGuard \<Rightarrow> bool" where
  "guard_inv g \<longleftrightarrow> loaded g \<and> memo_wf g"

lemma decodeOptionalHex_len: "decodeOptionalHex t n f = Inr (Some b) \<Longrightarrow> length b = n"
  by (auto simp: decodeOptionalHex_def split: if_splits option.splits)

lemma parse_guard_memo:
  "parse_guard d = Inr (hw, c, sg) \<Longrightarrow>
     c = None \<and> sg = None \<or> (\<exists>c' sg'. c = Some c' \<and> sg = Some sg' \<and> length c' = 32 \<and> length sg' = 64)"
  by (auto simp: parse_guard_def Let_def dest!: decodeOptionalHex_len
      split: if_splits option.splits sum.splits)

lemma newGuard_inv:
  assumes "newCheckpointReplayGuard path s = (Inr g, s')"
  shows "guard_inv g" and "statePath g = path" and "files s' = files s"
  using assms parse_guard_memo
  by (fastforce simp: newCheckpointReplayGuard_def guard_inv_def memo_wf_def os_read_file_def Let_def
      split: if_splits sum.splits os_error.splits option.splits node.splits prod.splits)+

lemma CheckAndAdvance_inv:
  "guard_inv g \<Longrightarrow> CheckAndAdvance g ts s = (r, g', s') \<Longrightarrow> guard_inv g'"
  by (auto simp: CheckAndAdvance_def guard_inv_def memo_wf_def Let_def
      split: if_splits sum.splits prod.splits)

lemma RecordSignature_inv:
  assumes "guard_inv g" and "length c = 32" and "length sg = 64"
    and "RecordSignature g ts c sg s = (r, g', s')"
  shows "guard_inv g'"
proof -
  have "append_nil c = Some c" "append_nil sg = Some sg"
    using assms(2,3) by (auto simp: append_nil_def)
  with assms show ?thesis
    by (auto simp: RecordSignature_def guard_inv_def memo_wf_def Let_def
        split: if_splits sum.splits prod.splits)
qed

section \<open>What is on disk\<close>

text \<open>\<open>mark_at_least b p s\<close>: a guard loaded from \<open>p\<close> in \<open>s\<close> has a mark of at least \<open>b\<close>.\<close>

definition mark_at_least :: "u64 \<Rightarrow> string \<Rightarrow> 'a os_scheme \<Rightarrow> bool" where
  "mark_at_least b p s \<longleftrightarrow>
     (case content_at p s of
        None \<Rightarrow> b = 0
      | Some d \<Rightarrow> (case parse_guard d of Inl _ \<Rightarrow> True | Inr (hw, _, _) \<Rightarrow> b \<le> hw))"

lemma mark_at_least_cong: "content_at p s = content_at p s' \<Longrightarrow> mark_at_least b p s = mark_at_least b p s'"
  by (simp add: mark_at_least_def)

lemma mark_at_least_mono: "mark_at_least b p s \<Longrightarrow> a \<le> b \<Longrightarrow> mark_at_least a p s"
  by (auto simp: mark_at_least_def split: option.splits sum.splits)

text \<open>Persisting a guard, whatever fails on the way, never lowers the mark on disk.\<close>

lemma persist_mark:
  assumes "persistLocked g s = (r, s')" and "memo_wf g" and "\<not> ends_tmp (statePath g)"
    and "mark_at_least b (statePath g) s" and "b \<le> highWater g"
  shows "mark_at_least b (statePath g) s'"
    and "r = Inr () \<Longrightarrow> mark_at_least (highWater g) (statePath g) s'"
proof -
  have blob: "parse_guard (guard_blob g) = Inr (highWater g, signedCheckpoint g, signedSignature g)"
    by (rule parse_guard_blob [OF assms(2)])
  from assms(1) have w: "writeBytesAtomic (statePath g) (guard_blob g) s = (r, s')"
    by (simp add: persistLocked_def)
  show "mark_at_least b (statePath g) s'"
    using guard_store.put_any [OF assms(3) w] assms(4,5) blob
    by (auto simp: mark_at_least_def split: option.splits sum.splits)
  show "mark_at_least (highWater g) (statePath g) s'" if "r = Inr ()"
  proof -
    from w that have "content_at (statePath g) s' = Some (guard_blob g)"
      using guard_store.put_ok [OF assms(3)] by blast
    with blob show ?thesis by (simp add: mark_at_least_def)
  qed
qed

text \<open>The guard in memory and its file agree: the file is never behind.\<close>

definition in_sync :: "string \<Rightarrow> checkpointReplayGuard \<Rightarrow> 'a os_scheme \<Rightarrow> bool" where
  "in_sync p g s \<longleftrightarrow>
     guard_inv g \<and> statePath g = p \<and> p \<noteq> '''' \<and> \<not> ends_tmp p \<and> mark_at_least (highWater g) p s"

definition durable_mark :: "string \<Rightarrow> u64 \<Rightarrow> 'a os_scheme \<Rightarrow> bool" where
  "durable_mark p b s \<longleftrightarrow> p \<noteq> '''' \<and> \<not> ends_tmp p \<and> mark_at_least b p s"

lemma advance_ok:
  assumes "in_sync p g s" and "CheckAndAdvance g t s = (Inr u, g', s')"
  shows "highWater g < t \<and> highWater g' = t \<and> in_sync p g' s'"
proof -
  let ?g = "g\<lparr>highWater := t, signedCheckpoint := None, signedSignature := None\<rparr>"
  from assms have g: "loaded g" "statePath g = p" "p \<noteq> ''''" "\<not> ends_tmp p"
      "mark_at_least (highWater g) p s"
    by (auto simp: in_sync_def guard_inv_def)
  with assms(2) have lt: "highWater g < t" and p: "persistLocked ?g s = (Inr (), s')" and g': "g' = ?g"
    by (auto simp: CheckAndAdvance_def Let_def split: if_splits sum.splits prod.splits)
  have "memo_wf ?g" by (simp add: memo_wf_def)
  with persist_mark(2) [OF p, of "highWater g"] g lt have "mark_at_least t p s'"
    by simp
  with lt g' g show ?thesis
    by (simp add: in_sync_def guard_inv_def memo_wf_def)
qed

lemma advance_err:
  assumes "in_sync p g s" and "CheckAndAdvance g t s = (Inl e, g', s')"
  shows "g' = g \<and> in_sync p g s'"
proof -
  let ?g = "g\<lparr>highWater := t, signedCheckpoint := None, signedSignature := None\<rparr>"
  from assms have g: "loaded g" "statePath g = p" "p \<noteq> ''''" "\<not> ends_tmp p"
      "mark_at_least (highWater g) p s"
    by (auto simp: in_sync_def guard_inv_def)
  have "memo_wf ?g" by (simp add: memo_wf_def)
  note pm = persist_mark(1) [OF _ this, of s _ s' "highWater g"]
  show ?thesis
  proof (cases "t \<le> highWater g")
    case True
    with assms g show ?thesis by (simp add: CheckAndAdvance_def)
  next
    case False
    with assms(2) g obtain e' where "persistLocked ?g s = (Inl e', s')" and "g' = g"
      by (auto simp: CheckAndAdvance_def Let_def split: sum.splits prod.splits)
    with pm g False assms(1) show ?thesis by (auto simp: in_sync_def)
  qed
qed

lemma record_sync:
  assumes "in_sync p g s" and "length c = 32" and "length sg = 64"
    and "RecordSignature g t c sg s = (r, g', s')"
  shows "highWater g' = highWater g \<and> in_sync p g' s'"
proof -
  from assms(1) have g: "guard_inv g" "statePath g = p" "p \<noteq> ''''" "\<not> ends_tmp p"
      "mark_at_least (highWater g) p s"
    by (auto simp: in_sync_def)
  have inv: "guard_inv g'" using RecordSignature_inv [OF g(1) assms(2-4)] .
  have f: "highWater g' = highWater g" "statePath g' = p"
    using assms(4) g(2) by (auto simp: RecordSignature_def Let_def split: if_splits sum.splits prod.splits)
  have "s' = s \<or> (\<exists>r'. persistLocked g' s = (r', s'))"
    using assms(4) g(2,3) by (auto simp: RecordSignature_def Let_def split: if_splits sum.splits prod.splits)
  then have "mark_at_least (highWater g) p s'"
  proof
    assume "\<exists>r'. persistLocked g' s = (r', s')"
    then show ?thesis
      using persist_mark(1) [of g' s _ s' "highWater g"] inv f g by (auto simp: guard_inv_def)
  qed (use g in simp)
  with inv f g show ?thesis by (simp add: in_sync_def)
qed

lemma restart_ok:
  assumes "durable_mark p b s" and "newCheckpointReplayGuard p s = (Inr g, s')"
  shows "b \<le> highWater g \<and> in_sync p g s'"
proof -
  have "b \<le> highWater g \<and> mark_at_least (highWater g) p s"
    using assms by (auto simp: durable_mark_def newCheckpointReplayGuard_def os_read_file_def
        mark_at_least_def content_at_def Let_def
        split: if_splits sum.splits os_error.splits option.splits node.splits prod.splits)
  then show ?thesis
    using newGuard_inv [OF assms(2)] assms(1) mark_at_least_cong [OF content_at_cong, of s p s']
    by (auto simp: in_sync_def durable_mark_def)
qed

section \<open>The contract of a monotone gate\<close>

text \<open>
  What a user of the guard may rely on, for any implementation: a mark that only grows, an
  advance that succeeds only above the mark and then moves it there, and a restart that comes
  up at or above every mark that had been reached.
\<close>

datatype 'l gate_op =
    OpAdvance 'l
  | OpNote 'l bytes bytes
  | OpRestart

fun gate_run ::
    "('g \<Rightarrow> 'l \<Rightarrow> 's \<Rightarrow> ('e + unit) \<times> 'g \<times> 's)
      \<Rightarrow> ('g \<Rightarrow> 'l \<Rightarrow> bytes \<Rightarrow> bytes \<Rightarrow> 's \<Rightarrow> ('e + unit) \<times> 'g \<times> 's)
      \<Rightarrow> ('s \<Rightarrow> ('e + 'g) \<times> 's)
      \<Rightarrow> 'l gate_op list \<Rightarrow> 'g option \<Rightarrow> 's \<Rightarrow> 'l list" where
  "gate_run adv nt rs [] g s = []"
| "gate_run adv nt rs (OpAdvance t # ops) (Some g) s =
     (case adv g t s of
        (Inr _, g', s') \<Rightarrow> t # gate_run adv nt rs ops (Some g') s'
      | (Inl _, g', s') \<Rightarrow> gate_run adv nt rs ops (Some g') s')"
| "gate_run adv nt rs (OpNote t c sg # ops) (Some g) s =
     (case nt g t c sg s of (_, g', s') \<Rightarrow> gate_run adv nt rs ops (Some g') s')"
| "gate_run adv nt rs (OpRestart # ops) g s =
     (case rs s of
        (Inr g', s') \<Rightarrow> gate_run adv nt rs ops (Some g') s'
      | (Inl _, s') \<Rightarrow> gate_run adv nt rs ops None s')"
| "gate_run adv nt rs (_ # ops) None s = gate_run adv nt rs ops None s"

fun good_note :: "'l gate_op \<Rightarrow> bool" where
  "good_note (OpNote _ c sg) \<longleftrightarrow> length c = 32 \<and> length sg = 64"
| "good_note _ \<longleftrightarrow> True"

locale monotone_gate =
  fixes level :: "'g \<Rightarrow> 'l::linorder"
    and adv :: "'g \<Rightarrow> 'l \<Rightarrow> 's \<Rightarrow> ('e + unit) \<times> 'g \<times> 's"
    and nt :: "'g \<Rightarrow> 'l \<Rightarrow> bytes \<Rightarrow> bytes \<Rightarrow> 's \<Rightarrow> ('e + unit) \<times> 'g \<times> 's"
    and rs :: "'s \<Rightarrow> ('e + 'g) \<times> 's"
    and sync :: "'g \<Rightarrow> 's \<Rightarrow> bool"
    and durable :: "'l \<Rightarrow> 's \<Rightarrow> bool"
  assumes adv_ok: "sync g s \<Longrightarrow> adv g t s = (Inr u, g', s') \<Longrightarrow> level g < t \<and> level g' = t \<and> sync g' s'"
    and adv_err: "sync g s \<Longrightarrow> adv g t s = (Inl e, g', s') \<Longrightarrow> g' = g \<and> sync g s'"
    and nt_any: "sync g s \<Longrightarrow> length c = 32 \<Longrightarrow> length sg = 64 \<Longrightarrow>
      nt g t c sg s = (r, g', s') \<Longrightarrow> level g' = level g \<and> sync g' s'"
    and sync_durable: "sync g s \<Longrightarrow> b \<le> level g \<Longrightarrow> durable b s"
    and rs_ok: "durable b s \<Longrightarrow> rs s = (Inr g, s') \<Longrightarrow> b \<le> level g \<and> sync g s'"
    and rs_err: "durable b s \<Longrightarrow> rs s = (Inl e, s') \<Longrightarrow> durable b s'"
begin

text \<open>
  Every value granted is above the bound that was durable at the start, and the granted
  values grow strictly, whatever fails and however often the process is restarted.
\<close>

definition ready :: "'l \<Rightarrow> 'g option \<Rightarrow> 's \<Rightarrow> bool" where
  "ready b g s \<longleftrightarrow> (case g of None \<Rightarrow> durable b s | Some g' \<Rightarrow> sync g' s \<and> b \<le> level g')"

lemma ready_durable: "ready b g s \<Longrightarrow> durable b s"
  by (auto simp: ready_def sync_durable split: option.splits)

lemma ready_simps:
  "ready b None s \<longleftrightarrow> durable b s"
  "ready b (Some g) s \<longleftrightarrow> sync g s \<and> b \<le> level g"
  by (simp_all add: ready_def)

lemma ready_restart:
  "ready b g s \<Longrightarrow> rs s = (Inr g', s') \<Longrightarrow> ready b (Some g') s'"
  "ready b g s \<Longrightarrow> rs s = (Inl e, s') \<Longrightarrow> ready b None s'"
  by (simp_all only: ready_simps) (blast dest: ready_durable rs_ok rs_err)+

lemma ready_note:
  "ready b (Some g) s \<Longrightarrow> length c = 32 \<Longrightarrow> length sg = 64 \<Longrightarrow> nt g t c sg s = (r, g', s')
     \<Longrightarrow> ready b (Some g') s'"
  by (simp add: ready_simps) (metis nt_any)

lemma ready_adv:
  "ready b (Some g) s \<Longrightarrow> adv g t s = (Inr u, g', s') \<Longrightarrow> b < t \<and> ready t (Some g') s'"
  "ready b (Some g) s \<Longrightarrow> adv g t s = (Inl e, g', s') \<Longrightarrow> ready b (Some g') s'"
  by (simp add: ready_simps, metis adv_ok order_refl order_le_less_trans)
    (simp add: ready_simps, metis adv_err)

lemma gate_run_grows:
  "ready b g s \<Longrightarrow> list_all good_note ops \<Longrightarrow> sorted_wrt (<) (b # gate_run adv nt rs ops g s)"
proof (induction ops arbitrary: b g s)
  case Nil
  then show ?case by simp
next
  case (Cons op ops)
  then have good: "good_note op" and rest: "list_all good_note ops" by simp_all
  note IH = Cons.IH [OF _ rest]
  show ?case
  proof (cases op)
    case OpRestart
    obtain r s1 where "rs s = (r, s1)" by force
    with OpRestart show ?thesis
      using ready_restart [OF Cons.prems(1)] IH by (cases r) simp_all
  next
    case nt_op: (OpNote t c sg)
    show ?thesis
    proof (cases g)
      case None
      with nt_op Cons.prems(1) IH show ?thesis by simp
    next
      case (Some g0)
      obtain r g1 s1 where n: "nt g0 t c sg s = (r, g1, s1)" by (cases "nt g0 t c sg s")
      then have "ready b (Some g1) s1" using ready_note [OF _ _ _ n] Cons.prems(1) Some nt_op good by simp
      then show ?thesis using IH nt_op Some n by simp
    qed
  next
    case adv_op: (OpAdvance t)
    show ?thesis
    proof (cases g)
      case None
      with adv_op Cons.prems(1) IH show ?thesis by simp
    next
      case (Some g0)
      obtain r g1 s1 where a: "adv g0 t s = (r, g1, s1)" by (cases "adv g0 t s")
      show ?thesis
      proof (cases r)
        case (Inl e)
        then have "ready b (Some g1) s1" using ready_adv(2) a Cons.prems(1) Some by blast
        with IH adv_op Some a Inl show ?thesis by simp
      next
        case (Inr u)
        then have "b < t" and "ready t (Some g1) s1" using ready_adv(1) a Cons.prems(1) Some by blast+
        with IH [of t "Some g1" s1] adv_op Some a Inr show ?thesis by auto
      qed
    qed
  qed
qed

end

lemma in_sync_durable: "in_sync p g s \<Longrightarrow> b \<le> highWater g \<Longrightarrow> durable_mark p b s"
  by (auto simp: in_sync_def durable_mark_def elim: mark_at_least_mono)

interpretation guard_gate: monotone_gate highWater CheckAndAdvance RecordSignature
    "newCheckpointReplayGuard p" "in_sync p" "durable_mark p" for p
proof unfold_locales
  fix b :: u64 and e :: guard_error and s s' :: "'a os_scheme"
  assume "durable_mark p b s" and "newCheckpointReplayGuard p s = (Inl e, s')"
  moreover from this have "files s' = files s"
    by (auto simp: newCheckpointReplayGuard_def os_read_file_def Let_def
        split: if_splits sum.splits os_error.splits option.splits node.splits prod.splits)
  ultimately show "durable_mark p b s'"
    using mark_at_least_cong [OF content_at_cong, of s p s'] by (auto simp: durable_mark_def)
qed (blast dest: advance_ok advance_err record_sync restart_ok in_sync_durable)+

section \<open>Progress when nothing fails\<close>

text \<open>
  A healthy file system for a state file: no call fails, the directory is there, the path is
  no directory, and no temporary file is left over.
\<close>

definition healthy :: "string \<Rightarrow> 'a os_scheme \<Rightarrow> bool" where
  "healthy p s \<longleftrightarrow>
     (\<forall>n. \<not> faults s n) \<and> files s p \<noteq> Some DirNode \<and> files s (path_dir p) = Some DirNode \<and>
     (\<forall>a \<in> set (ancestors (length (path_dir p)) (path_dir p)). files s a = Some DirNode) \<and>
     (\<forall>n. files s (temp_name (path_dir p) ''.ckpt-hw-'' n) = None) \<and> \<not> ends_tmp p"

lemma no_faults_fails [simp]: "\<forall>n. \<not> faults s n \<Longrightarrow> \<not> fails s"
  by (simp add: fails_def)

lemma faults_simps [simp]: "faults (step s) = faults s" "faults (set_node p n s) = faults s"
  by (simp_all add: step_def set_node_def)

lemma healthy_cong:
  "healthy p s \<Longrightarrow> faults s' = faults s \<Longrightarrow> files s' = (files s)(p \<mapsto> FileNode m b) \<Longrightarrow> healthy p s'"
  by (auto simp: healthy_def temp_name_neq)

lemma mkdir_healthy:
  assumes "healthy p s"
  shows "\<exists>s1. os_mkdir_all (path_dir p) s = (Inr (), s1) \<and> files s1 = files s \<and> faults s1 = faults s"
proof -
  let ?as = "ancestors (length (path_dir p)) (path_dir p)"
  have as: "\<forall>a \<in> set ?as. files s a = Some DirNode" using assms by (simp add: healthy_def)
  then have "(\<lambda>q. if files s q = None \<and> q \<in> set ?as then Some DirNode else files s q) = files s"
    by (intro ext) auto
  with assms as show ?thesis
    by (auto simp: os_mkdir_all_def Let_def healthy_def list_ex_iff)
qed

lemma create_temp_healthy:
  assumes "\<forall>n. \<not> faults s n" and "files s d = Some DirNode" and "\<forall>n. files s (temp_name d pre n) = None"
  shows "\<exists>n s1. os_create_temp d pre s = (Inr (temp_name d pre n), s1)
    \<and> files s1 = (files s)(temp_name d pre n \<mapsto> FileNode perm_0600 []) \<and> faults s1 = faults s"
proof -
  have "(10000 :: nat) = Suc 9999" by simp
  then show ?thesis
    using assms by (simp only: os_create_temp_def create_temp_try.simps) (auto simp: Let_def)
qed

lemma commit_healthy:
  assumes "\<forall>n. \<not> faults s n" and "files s t = Some (FileNode m [])" and "t \<noteq> p"
    and "files s p \<noteq> Some DirNode" and "files s d = Some DirNode" and "t \<noteq> d"
  shows "\<exists>s1. commit_temp t d p b s = (Inr (), s1)
    \<and> files s1 = (files s)(p \<mapsto> FileNode perm_0600 b, t := None) \<and> faults s1 = faults s"
  using assms
  by (auto simp: commit_temp_def fill_temp_def f_write_def f_chmod_def f_sync_def f_close_def
      os_rename_def syncDirBestEffort_def os_open_dir_def os_remove_def fun_upd_twist)

lemma write_healthy:
  assumes "healthy p s"
  shows "\<exists>s1. writeBytesAtomic p b s = (Inr (), s1) \<and> healthy p s1
    \<and> files s1 = (files s)(p \<mapsto> FileNode perm_0600 b)"
proof -
  let ?d = "path_dir p"
  obtain s1 where m: "os_mkdir_all ?d s = (Inr (), s1)" "files s1 = files s" "faults s1 = faults s"
    using mkdir_healthy [OF assms] by blast
  obtain n s2 where c: "os_create_temp ?d ''.ckpt-hw-'' s1 = (Inr (temp_name ?d ''.ckpt-hw-'' n), s2)"
      "files s2 = (files s)(temp_name ?d ''.ckpt-hw-'' n \<mapsto> FileNode perm_0600 [])" "faults s2 = faults s"
    using create_temp_healthy [of s1 ?d "''.ckpt-hw-''"] assms m by (auto simp: healthy_def)
  let ?t = "temp_name ?d ''.ckpt-hw-'' n"
  have t: "files s ?t = None" "?t \<noteq> p" using assms by (auto simp: healthy_def temp_name_neq)
  moreover have "?t \<noteq> ?d" using assms t by (metis healthy_def option.distinct(1))
  ultimately obtain s3 where w: "commit_temp ?t ?d p b s2 = (Inr (), s3)"
      "files s3 = (files s2)(p \<mapsto> FileNode perm_0600 b, ?t := None)" "faults s3 = faults s2"
    using commit_healthy [of s2 ?t _ p ?d b] assms c by (auto simp: healthy_def)
  have "files s3 = (files s)(p \<mapsto> FileNode perm_0600 b)"
    using w(2) c(2) t by auto
  then show ?thesis
    using m c w healthy_cong [OF assms] by (auto simp: writeBytesAtomic_def Let_def)
qed

section \<open>Properties\<close>

text \<open>A file system with one directory, in which no call fails, and a state file in it.\<close>

definition demo_path :: string where
  "demo_path = ''/data/ckpt.json''"

definition demo_os :: os where
  "demo_os = \<lparr>files = [''/data'' \<mapsto> DirNode, ''/'' \<mapsto> DirNode], faults = (\<lambda>_. False), short = (\<lambda>_. 0),
     rnd = (\<lambda>n. n), tick = 0\<rparr>"

definition demo_guard :: checkpointReplayGuard where
  "demo_guard = \<lparr>statePath = demo_path, highWater = 0, loaded = True, signedCheckpoint = None, signedSignature = None\<rparr>"

lemma demo_dir: "path_dir demo_path = ''/data''" "ancestors (length ''/data'') ''/data'' = [''/data'', ''/'']"
  by code_simp+

lemma demo_plain: "demo_path \<noteq> ''''" "\<not> ends_tmp demo_path" "demo_path \<noteq> ''/data''" "demo_path \<noteq> ''/''"
  by (simp_all add: demo_path_def ends_tmp_def)

lemma demo_healthy: "healthy demo_path demo_os"
proof -
  have "files demo_os (temp_name ''/data'' ''.ckpt-hw-'' n) = None" for n
    using temp_name_ends [of "''/data''" "''.ckpt-hw-''" n]
    by (auto simp: demo_os_def ends_tmp_def)
  then show ?thesis
    using demo_plain unfolding healthy_def demo_dir by (auto simp: demo_os_def)
qed

text \<open>Claim C17: over any sequence of advances, memo writes and process restarts, with any
  pattern of file-system failures, the timestamps that \<open>CheckAndAdvance\<close> lets through grow
  strictly: no timestamp is let through twice, also across restarts.\<close>

theorem guard_never_repeats:
  assumes "p \<noteq> ''''" and "\<not> ends_tmp p" and "list_all good_note ops"
  shows "sorted_wrt (<) (gate_run CheckAndAdvance RecordSignature (newCheckpointReplayGuard p) ops None s)"
proof -
  have "durable_mark p 0 s"
    using assms(1,2) by (auto simp: durable_mark_def mark_at_least_def split: option.splits sum.splits)
  then have "sorted_wrt (<) (0 # gate_run CheckAndAdvance RecordSignature (newCheckpointReplayGuard p) ops None s)"
    using guard_gate.gate_run_grows [of p 0 None s ops] assms(3) by (simp add: guard_gate.ready_simps)
  then show ?thesis by simp
qed

theorem guard_never_repeats_witness:
  "sorted_wrt (<) (gate_run CheckAndAdvance RecordSignature (newCheckpointReplayGuard demo_path)
     [OpRestart, OpAdvance 5, OpNote 5 (replicate 32 1) (replicate 64 2), OpRestart, OpAdvance 5, OpAdvance 9]
     None demo_os)"
  by (rule guard_never_repeats [OF demo_plain(1,2)]) simp

text \<open>When no file-system call fails, a timestamp above the mark is let through, the
  mark moves to it and the old memo is dropped, in memory and in the file.\<close>

theorem guard_progress:
  assumes "healthy (statePath g) s" and "highWater g < ts" and "statePath g \<noteq> ''''"
  shows "\<exists>s'. CheckAndAdvance g ts s
      = (Inr (), g\<lparr>highWater := ts, signedCheckpoint := None, signedSignature := None\<rparr>, s')
    \<and> healthy (statePath g) s'
    \<and> (case content_at (statePath g) s' of None \<Rightarrow> False | Some d \<Rightarrow> parse_guard d = Inr (ts, None, None))"
proof -
  let ?g = "g\<lparr>highWater := ts, signedCheckpoint := None, signedSignature := None\<rparr>"
  obtain s' where w: "writeBytesAtomic (statePath g) (guard_blob ?g) s = (Inr (), s')"
      "healthy (statePath g) s'" "files s' = (files s)(statePath g \<mapsto> FileNode perm_0600 (guard_blob ?g))"
    using write_healthy [OF assms(1)] by blast
  have "parse_guard (guard_blob ?g) = Inr (ts, None, None)"
    using parse_guard_blob [of ?g] by (simp add: memo_wf_def)
  with w assms(2,3) show ?thesis
    by (auto simp: CheckAndAdvance_def Let_def persistLocked_def content_at_def)
qed

theorem guard_progress_witness:
  "healthy demo_path demo_os \<and>
   (\<exists>s'. CheckAndAdvance demo_guard 7 demo_os = (Inr (), demo_guard\<lparr>highWater := 7\<rparr>, s'))"
  using guard_progress [of demo_guard demo_os 7] demo_healthy demo_plain(1)
  by (auto simp: demo_guard_def)

lemma record_then_restart:
  assumes "statePath g \<noteq> ''''" and "\<not> ends_tmp (statePath g)"
    and "length c = 32" and "length sg = 64"
    and "RecordSignature g (highWater g) c sg s = (Inr (), g', s')"
    and "newCheckpointReplayGuard (statePath g) s' = (Inr g'', s'')"
  shows "loaded g'' \<and> highWater g'' = highWater g \<and> signedCheckpoint g'' = Some c \<and> signedSignature g'' = Some sg"
proof -
  let ?g = "g\<lparr>signedCheckpoint := Some c, signedSignature := Some sg\<rparr>"
  have "append_nil c = Some c" "append_nil sg = Some sg" using assms(3,4) by (auto simp: append_nil_def)
  with assms(1,5) have "persistLocked ?g s = (Inr (), s')"
    by (auto simp: RecordSignature_def Let_def split: sum.splits prod.splits)
  then have "content_at (statePath g) s' = Some (guard_blob ?g)"
    using guard_store.put_ok [of "statePath g" "guard_blob ?g" s s'] assms(2) by (simp add: persistLocked_def)
  moreover have "parse_guard (guard_blob ?g) = Inr (highWater g, Some c, Some sg)"
    using parse_guard_blob [of ?g] assms(3,4) by (simp add: memo_wf_def)
  ultimately show ?thesis
    using assms(1,6)
    by (auto simp: newCheckpointReplayGuard_def os_read_file_def content_at_def Let_def
        split: if_splits option.splits node.splits)
qed

text \<open>A memo that was persisted survives a restart, and the restarted guard answers
  exactly the recorded request with exactly the recorded signature and nothing else.\<close>

theorem memo_survives_restart:
  assumes "statePath g \<noteq> ''''" and "\<not> ends_tmp (statePath g)"
    and "length c = 32" and "length sg = 64"
    and "RecordSignature g (highWater g) c sg s = (Inr (), g', s')"
    and "newCheckpointReplayGuard (statePath g) s' = (Inr g'', s'')"
  shows "CachedSignature g'' t x = (if t = highWater g \<and> x = c then Some sg else None)"
  using record_then_restart [OF assms] by (simp add: CachedSignature_def)

text \<open>The guard fails closed: a timestamp at or below the mark is always refused with
  the replay error and changes nothing, and whatever the error, the guard in memory is as it
  was before the call.\<close>

theorem guard_fails_closed:
  "loaded g \<Longrightarrow>
     (ts \<le> highWater g \<longrightarrow> CheckAndAdvance g ts s = (Inl (ErrReplayGuardRejected ts (highWater g)), g, s))
   \<and> (\<forall>e g' s'. CheckAndAdvance g ts s = (Inl e, g', s') \<longrightarrow> g' = g)
   \<and> (\<forall>g' s'. CheckAndAdvance g ts s = (Inr (), g', s') \<longrightarrow> highWater g < ts \<and> highWater g' = ts
        \<and> (\<forall>t x. CachedSignature g' t x = None))"
  by (auto simp: CheckAndAdvance_def CachedSignature_def Let_def split: if_splits sum.splits prod.splits)

theorem guard_fails_closed_witness:
  "CheckAndAdvance (demo_guard\<lparr>highWater := 9\<rparr>) 4 demo_os
     = (Inl (ErrReplayGuardRejected 4 9), demo_guard\<lparr>highWater := 9\<rparr>, demo_os)"
  using guard_fails_closed [of "demo_guard\<lparr>highWater := 9\<rparr>" 4 demo_os] by (simp add: demo_guard_def)

theorem memo_survives_restart_witness:
  "\<exists>g' s' g'' s''.
     RecordSignature demo_guard 0 (replicate 32 1) (replicate 64 2) demo_os = (Inr (), g', s')
   \<and> newCheckpointReplayGuard demo_path s' = (Inr g'', s'')
   \<and> CachedSignature g'' 0 (replicate 32 1) = Some (replicate 64 2)"
proof -
  let ?c = "replicate 32 1 :: bytes" and ?sg = "replicate 64 2 :: bytes"
  let ?g = "demo_guard\<lparr>signedCheckpoint := Some ?c, signedSignature := Some ?sg\<rparr>"
  have "append_nil ?c = Some ?c" "append_nil ?sg = Some ?sg" by (simp_all add: append_nil_def)
  moreover obtain s' where s': "writeBytesAtomic demo_path (guard_blob ?g) demo_os = (Inr (), s')"
      "healthy demo_path s'" "files s' = (files demo_os)(demo_path \<mapsto> FileNode perm_0600 (guard_blob ?g))"
    using write_healthy [OF demo_healthy] by blast
  ultimately have r: "RecordSignature demo_guard (highWater demo_guard) ?c ?sg demo_os = (Inr (), ?g, s')"
    by (simp add: RecordSignature_def Let_def persistLocked_def demo_guard_def demo_plain)
  have "parse_guard (guard_blob ?g) = Inr (0, Some ?c, Some ?sg)"
    using parse_guard_blob [of ?g] by (simp add: memo_wf_def demo_guard_def)
  then obtain g'' s'' where n: "newCheckpointReplayGuard demo_path s' = (Inr g'', s'')"
    using s' by (auto simp: newCheckpointReplayGuard_def os_read_file_def Let_def demo_plain healthy_def)
  have "CachedSignature g'' 0 ?c = Some ?sg"
    using memo_survives_restart [OF _ _ _ _ r, of g'' s'' 0 ?c] n demo_plain by (simp add: demo_guard_def)
  with r n show ?thesis by (auto simp: demo_guard_def)
qed

subsection \<open>The mark on disk can be ahead of the mark in memory\<close>

fun dir_error :: "write_error \<Rightarrow> bool" where
  "dir_error (OpenDirErr _) = True"
| "dir_error (FsyncDirErr _) = True"
| "dir_error _ = False"

lemma fill_temp_no_dir_error: "fill_temp t b s = (Inl e, s') \<Longrightarrow> \<not> dir_error e"
  by (auto simp: fill_temp_def split: sum.splits prod.splits)

lemma commit_temp_dir_error:
  assumes "commit_temp t d p b s = (Inl e, s')" and "dir_error e" and "t \<noteq> p"
    and "files s t = Some (FileNode m [])"
  shows "files s' p = Some (FileNode perm_0600 b)"
proof -
  obtain r1 s1 where f: "fill_temp t b s = (r1, s1)" by force
  obtain r2 s2 where n: "os_rename t p s1 = (r2, s2)" by force
  obtain r3 s3 where y: "syncDirBestEffort d s2 = (r3, s3)" by force
  have ok: "ok r1" "ok r2" "s' = os_remove t s3"
    using assms(1,2) f n y
    by (auto simp: commit_temp_def ok_iff split: sum.splits dest: fill_temp_no_dir_error)
  then have "files s1 t = Some (FileNode perm_0600 b)"
    using fill_temp_files(2) [OF f assms(4)] by (auto simp: ok_iff)
  then have "files s2 p = Some (FileNode perm_0600 b)"
    using os_rename_content [OF n assms(3)] ok(2) by (auto simp: ok_iff)
  then show ?thesis
    using ok(3) syncDir_files [of d s2] y assms(3) by (simp add: os_remove_other)
qed

lemma write_dir_error:
  assumes "writeBytesAtomic p b s = (Inl e, s')" and "dir_error e" and "\<not> ends_tmp p"
  shows "content_at p s' = Some b"
proof -
  obtain t s2 where "os_create_temp (path_dir p) ''.ckpt-hw-'' (snd (os_mkdir_all (path_dir p) s)) = (Inr t, s2)"
      and c: "commit_temp t (path_dir p) p b s2 = (Inl e, s')"
    using assms(1,2) by (auto simp: writeBytesAtomic_def Let_def split: sum.splits prod.splits)
  then have t: "ends_tmp t" "files s2 t = Some (FileNode perm_0600 [])"
    using os_create_temp_new by blast+
  then have "t \<noteq> p" using assms(3) by auto
  from commit_temp_dir_error [OF c assms(2) this t(2)] show ?thesis
    by (simp add: content_at_def)
qed

text \<open>When only the directory sync after the rename fails, \<open>CheckAndAdvance\<close> reports an
  error and rolls back in memory, but the new mark already is in the file: after a restart the
  timestamp is refused although it was never signed, and the memo of the previous checkpoint
  is gone.\<close>

theorem failed_dir_sync_burns_timestamp:
  assumes "loaded g" and "statePath g \<noteq> ''''" and "\<not> ends_tmp (statePath g)" and "dir_error e"
    and "CheckAndAdvance g ts s = (Inl (PersistErr e), g', s')"
    and "files s1 = files s'" and "newCheckpointReplayGuard (statePath g) s1 = (Inr g2, s2)"
  shows "g' = g \<and> highWater g < ts \<and> highWater g2 = ts \<and> CachedSignature g2 t x = None
    \<and> CheckAndAdvance g2 ts s2 = (Inl (ErrReplayGuardRejected ts ts), g2, s2)"
proof -
  let ?g = "g\<lparr>highWater := ts, signedCheckpoint := None, signedSignature := None\<rparr>"
  from assms(1,2,5) have lt: "highWater g < ts" and g': "g' = g" and "persistLocked ?g s = (Inl e, s')"
    by (auto simp: CheckAndAdvance_def Let_def split: if_splits sum.splits prod.splits)
  then have "content_at (statePath g) s' = Some (guard_blob ?g)"
    using write_dir_error assms(3,4) by (auto simp: persistLocked_def)
  moreover have "parse_guard (guard_blob ?g) = Inr (ts, None, None)"
    using parse_guard_blob [of ?g] by (simp add: memo_wf_def)
  ultimately have "loaded g2" "highWater g2 = ts" "signedCheckpoint g2 = None"
    using assms(2,6,7)
    by (auto simp: newCheckpointReplayGuard_def os_read_file_def content_at_def Let_def
        split: if_splits option.splits node.splits)
  with lt g' show ?thesis by (simp add: CachedSignature_def CheckAndAdvance_def)
qed

text \<open>A run in which exactly the eighth call, the opening of the directory, fails.\<close>

definition dir_fault_os :: os where
  "dir_fault_os = demo_os\<lparr>faults := (\<lambda>n. n = 7)\<rparr>"

lemma demo_mkdir: "os_mkdir_all ''/data'' dir_fault_os = (Inr (), step dir_fault_os)"
  unfolding os_mkdir_all_def demo_dir(2)
  by (auto simp: Let_def fails_def dir_fault_os_def demo_os_def step_def)

lemma demo_create_temp:
  "os_create_temp ''/data'' ''.ckpt-hw-'' (step dir_fault_os)
   = (Inr (temp_name ''/data'' ''.ckpt-hw-'' 1),
      set_node (temp_name ''/data'' ''.ckpt-hw-'' 1) (Some (FileNode perm_0600 [])) (step (step dir_fault_os)))"
proof -
  have "temp_name ''/data'' ''.ckpt-hw-'' 1 \<notin> {''/'', ''/data''}"
    using temp_name_ends [of "''/data''" "''.ckpt-hw-''" 1] by (auto simp: ends_tmp_def)
  moreover have "(10000 :: nat) = Suc 9999" by simp
  ultimately show ?thesis
    by (simp only: os_create_temp_def create_temp_try.simps)
      (simp add: Let_def fails_def dir_fault_os_def demo_os_def step_def)
qed

lemma demo_commit:
  assumes "t \<noteq> demo_path"
  shows "fst (commit_temp t ''/data'' demo_path b
      (set_node t (Some (FileNode perm_0600 [])) (step (step dir_fault_os)))) = Inl (OpenDirErr OtherErr)"
  using assms demo_plain
  by (simp add: commit_temp_def fill_temp_def f_write_def f_chmod_def f_sync_def f_close_def
      os_rename_def syncDirBestEffort_def os_open_dir_def fails_def dir_fault_os_def demo_os_def
      step_def set_node_def)

lemma demo_dir_fault:
  "\<exists>s'. writeBytesAtomic demo_path b dir_fault_os = (Inl (OpenDirErr OtherErr), s')"
proof -
  have "temp_name ''/data'' ''.ckpt-hw-'' 1 \<noteq> demo_path" using temp_name_neq demo_plain by blast
  from demo_commit [OF this, of b] show ?thesis
    unfolding writeBytesAtomic_def demo_dir(1) Let_def demo_mkdir demo_create_temp prod.case sum.case
    by (metis prod.collapse)
qed

lemma CheckAndAdvance_persist_error:
  "highWater g < ts \<Longrightarrow> statePath g \<noteq> '''' \<Longrightarrow>
   writeBytesAtomic (statePath g) (guard_blob (g\<lparr>highWater := ts, signedCheckpoint := None, signedSignature := None\<rparr>)) s = (Inl e, s')
   \<Longrightarrow> CheckAndAdvance g ts s = (Inl (PersistErr e), g, s')"
  by (simp add: CheckAndAdvance_def Let_def persistLocked_def not_le)

theorem failed_dir_sync_burns_timestamp_witness:
  "\<exists>s' g2 s2. CheckAndAdvance demo_guard 7 dir_fault_os = (Inl (PersistErr (OpenDirErr OtherErr)), demo_guard, s')
   \<and> newCheckpointReplayGuard demo_path (s'\<lparr>faults := (\<lambda>_. False)\<rparr>) = (Inr g2, s2)
   \<and> CheckAndAdvance g2 7 s2 = (Inl (ErrReplayGuardRejected 7 7), g2, s2)"
proof -
  let ?g = "demo_guard\<lparr>highWater := 7, signedCheckpoint := None, signedSignature := None\<rparr>"
  obtain s' where w: "writeBytesAtomic demo_path (guard_blob ?g) dir_fault_os = (Inl (OpenDirErr OtherErr), s')"
    using demo_dir_fault by blast
  then have c: "CheckAndAdvance demo_guard 7 dir_fault_os = (Inl (PersistErr (OpenDirErr OtherErr)), demo_guard, s')"
    by (intro CheckAndAdvance_persist_error) (simp_all add: demo_guard_def demo_plain)
  let ?s1 = "s'\<lparr>faults := (\<lambda>_. False)\<rparr>"
  have "content_at demo_path s' = Some (guard_blob ?g)"
    using write_dir_error [OF w] demo_plain by simp
  moreover have "parse_guard (guard_blob ?g) = Inr (7, None, None)"
    using parse_guard_blob [of ?g] by (simp add: memo_wf_def)
  ultimately obtain g2 s2 where n: "newCheckpointReplayGuard (statePath demo_guard) ?s1 = (Inr g2, s2)"
    by (auto simp: newCheckpointReplayGuard_def os_read_file_def content_at_def fails_def Let_def
        demo_guard_def demo_plain split: option.splits node.splits)
  have "CheckAndAdvance g2 7 s2 = (Inl (ErrReplayGuardRejected 7 7), g2, s2)"
    using failed_dir_sync_burns_timestamp [OF _ _ _ _ c _ n] demo_plain by (simp add: demo_guard_def)
  with c n show ?thesis by (auto simp: demo_guard_def)
qed

text \<open>A guard without a state file forgets its mark at a restart and lets every
  positive timestamp through again, which is why the configuration must name a file.\<close>

theorem memory_guard_forgets:
  assumes "0 < ts"
  shows "gate_run CheckAndAdvance RecordSignature (newCheckpointReplayGuard '''')
    [OpRestart, OpAdvance ts, OpAdvance ts, OpRestart, OpAdvance ts] None s = [ts, ts]"
  using assms by (simp add: newCheckpointReplayGuard_def CheckAndAdvance_def Let_def not_le)

theorem memory_guard_forgets_witness:
  "gate_run CheckAndAdvance RecordSignature (newCheckpointReplayGuard '''')
    [OpRestart, OpAdvance 3, OpAdvance 3, OpRestart, OpAdvance 3] None demo_os = [3, 3]"
  by (rule memory_guard_forgets) simp

section \<open>Facts for the users of the guard\<close>

lemma CheckAndAdvance_refuses:
  "loaded g \<Longrightarrow> ts \<le> highWater g \<Longrightarrow> CheckAndAdvance g ts s = (Inl (ErrReplayGuardRejected ts (highWater g)), g, s)"
  by (simp add: CheckAndAdvance_def)

lemma CheckAndAdvance_granted:
  "CheckAndAdvance g ts s = (Inr u, g', s') \<Longrightarrow>
     g' = g\<lparr>highWater := ts, signedCheckpoint := None, signedSignature := None\<rparr>"
  by (auto simp: CheckAndAdvance_def Let_def split: if_splits sum.splits prod.splits)

lemma CheckAndAdvance_error:
  "CheckAndAdvance g ts s = (Inl e, g', s') \<Longrightarrow>
     g' = g \<and> (e = ErrReplayGuardRejected ts (highWater g) \<and> s' = s \<and> loaded g \<and> ts \<le> highWater g \<or> (\<exists>w. e = PersistErr w))"
  by (auto simp: CheckAndAdvance_def Let_def split: if_splits sum.splits prod.splits)

lemma RecordSignature_current:
  "c \<noteq> [] \<Longrightarrow> sg \<noteq> [] \<Longrightarrow> RecordSignature g (highWater g) c sg s = (r, g', s') \<Longrightarrow>
     g' = g\<lparr>signedCheckpoint := Some c, signedSignature := Some sg\<rparr>"
  by (auto simp: RecordSignature_def append_nil_def Let_def split: if_splits sum.splits prod.splits)

lemma RecordSignature_healthy:
  assumes "healthy (statePath g) s"
  shows "\<exists>g' s'. RecordSignature g ts c sg s = (Inr (), g', s') \<and> healthy (statePath g) s'"
proof -
  let ?g = "g\<lparr>signedCheckpoint := append_nil c, signedSignature := append_nil sg\<rparr>"
  obtain s' where "writeBytesAtomic (statePath g) (guard_blob ?g) s = (Inr (), s')" "healthy (statePath g) s'"
    using write_healthy [OF assms] by blast
  with assms show ?thesis by (auto simp: RecordSignature_def Let_def persistLocked_def)
qed

lemma CheckAndAdvance_healthy:
  assumes "healthy (statePath g) s" and "highWater g < ts"
  shows "\<exists>s'. CheckAndAdvance g ts s
      = (Inr (), g\<lparr>highWater := ts, signedCheckpoint := None, signedSignature := None\<rparr>, s')
    \<and> healthy (statePath g) s'"
proof -
  let ?g = "g\<lparr>highWater := ts, signedCheckpoint := None, signedSignature := None\<rparr>"
  obtain s' where "writeBytesAtomic (statePath g) (guard_blob ?g) s = (Inr (), s')" "healthy (statePath g) s'"
    using write_healthy [OF assms(1)] by blast
  with assms show ?thesis by (auto simp: CheckAndAdvance_def Let_def persistLocked_def)
qed

end
