(* ===== verification/Rpc.thy ===== *)
theory Rpc
  imports Bridge_Checkpoint Primary_Arbiter Replay_Guard
begin

text \<open>
  The gRPC surface: the messages (\<^verbatim>\<open>src/api/gen/signer/v1/signer.pb.go\<close>), the method names and
  the dispatch (\<^verbatim>\<open>signer_grpc.pb.go\<close>), and the interceptors (\<^verbatim>\<open>src/server/auth.go\<close> and the end of
  \<^verbatim>\<open>src/server/server.go\<close>).

  A handler takes the request and the state of the process and returns an outcome and the new
  state.  An outcome is a panic or a return of a response or a status.  A status carries its
  code and the message it formats, as a constructor with the formatted values.
\<close>

section \<open>Outcomes\<close>

datatype code = InvalidArgument | PermissionDenied | FailedPrecondition | Unimplemented | Internal

datatype address_error =
    PrefixEmpty
  | PubKeyErr string
  | PubKeyLength nat
  | Bech32Err string

datatype reason =
    BlindSigningDisabled
  | MethodDisabled string
  | NotPrimary
  | InternalServerError
  | PublicKeyFailed string
  | PublicKeyLength nat
  | DeriveAddress address_error
  | ChainIDNotConfigured
  | OperatorAddressEmpty
  | OperatorAddressInvalid string
  | OperatorAddressForeign
  | SigningFailed string string
  | SignatureLength string nat
  | SignDocEmpty
  | SignDocDecode string
  | TxBodyDecode string
  | NoMessages
  | MessageNotAllowed string
  | FieldLength string nat
  | ValidatorSetEmpty
  | ChainIdEmpty
  | ValidatorAddressLength nat nat
  | ValidatorPowerZero nat
  | EncodeFailed encode_error
  | ValidatorSetHashMismatch
  | ThresholdMismatch u64 u64
  | DomainSeparatorMismatch string
  | NotMember
  | CheckpointMismatch
  | ReplayGuard guard_error
  | SnapshotMismatch

datatype status = Status (code_of: code) (reason_of: reason)

type_synonym 'r result = "(status + 'r) go"

section \<open>Messages\<close>

record SignBridgeCheckpointRequest =
  DomainSeparator :: bytes
  PowerThreshold :: u64
  ValidatorTimestamp :: u64
  ValidatorSetHash :: bytes
  ValidatorSet :: "bridgeValidator list"
  BlockHeight :: u64
  CheckpointIndex :: u64
  ChainId :: string
  ExpectedCheckpoint :: bytes
  CheckpointRequestId :: string

record SignOracleAttestationRequest =
  QueryId :: bytes
  Value :: bytes
  Timestamp :: u64
  AggregatePower :: u64
  PreviousTimestamp :: u64
  NextTimestamp :: u64
  ValsetCheckpoint :: bytes
  AttestationTimestamp :: u64
  LastConsensusTimestamp :: u64
  ExpectedSnapshot :: bytes
  AttestationRequestId :: string

datatype request =
    SignRequest bytes string
  | GetPublicKeyRequest
  | SignRawRequest bytes string
  | GetAddressRequest string
  | SignTxRequest bytes string
  | GetChainIDRequest
  | CheckpointRequest SignBridgeCheckpointRequest
  | AttestationRequest SignOracleAttestationRequest
  | SignInitialRequest string string

datatype response =
    SignResponse bytes
  | GetPublicKeyResponse bytes
  | SignRawResponse bytes
  | GetAddressResponse string
  | SignTxResponse bytes
  | GetChainIDResponse string
  | SignBridgeCheckpointResponse bytes bytes
  | SignOracleAttestationResponse bytes bytes
  | SignInitialResponse bytes bytes

section \<open>Method names\<close>

text \<open>The \<^verbatim>\<open>FullMethodName\<close> under which each handler calls the interceptor.\<close>

fun full_method :: "request \<Rightarrow> string" where
  "full_method (SignRequest _ _) = ''/signer.v1.BridgeSigner/Sign''"
| "full_method GetPublicKeyRequest = ''/signer.v1.BridgeSigner/GetPublicKey''"
| "full_method (SignRawRequest _ _) = ''/signer.v1.BridgeSigner/SignRaw''"
| "full_method (GetAddressRequest _) = ''/signer.v1.BridgeSigner/GetAddress''"
| "full_method (SignTxRequest _ _) = ''/signer.v1.BridgeSigner/SignTx''"
| "full_method GetChainIDRequest = ''/signer.v1.BridgeSigner/GetChainID''"
| "full_method (CheckpointRequest _) = ''/signer.v1.BridgeSigner/SignBridgeCheckpoint''"
| "full_method (AttestationRequest _) = ''/signer.v1.BridgeSigner/SignOracleAttestation''"
| "full_method (SignInitialRequest _ _) = ''/signer.v1.BridgeSigner/SignInitial''"

definition shortRPCNameToFullMethod :: "(string \<times> string) list" where
  "shortRPCNameToFullMethod =
     [(''sign_raw'', ''/signer.v1.BridgeSigner/SignRaw''),
      (''sign_tx'', ''/signer.v1.BridgeSigner/SignTx''),
      (''sign_bridge_checkpoint'', ''/signer.v1.BridgeSigner/SignBridgeCheckpoint''),
      (''sign_oracle_attestation'', ''/signer.v1.BridgeSigner/SignOracleAttestation''),
      (''sign_initial'', ''/signer.v1.BridgeSigner/SignInitial''),
      (''sign'', ''/signer.v1.BridgeSigner/Sign''),
      (''get_public_key'', ''/signer.v1.BridgeSigner/GetPublicKey''),
      (''get_address'', ''/signer.v1.BridgeSigner/GetAddress''),
      (''get_chain_id'', ''/signer.v1.BridgeSigner/GetChainID'')]"

definition KnownShortRPCNames :: "string list" where
  "KnownShortRPCNames = map fst shortRPCNameToFullMethod"

text \<open>A Go map is an association list of its entries; the loop visits them in any order.\<close>

definition EnabledRPCsFromConfig :: "(string \<times> bool) list \<Rightarrow> string \<rightharpoonup> bool" where
  "EnabledRPCsFromConfig cfg =
     (if cfg = [] then Map.empty
      else foldl (\<lambda>out (name, enabled).
             case map_of shortRPCNameToFullMethod name of
               Some full \<Rightarrow> out(full \<mapsto> enabled)
             | None \<Rightarrow> out) Map.empty cfg)"

definition primaryGatedRPCs :: "string list" where
  "primaryGatedRPCs =
     [''/signer.v1.BridgeSigner/SignBridgeCheckpoint'', ''/signer.v1.BridgeSigner/SignOracleAttestation'']"

section \<open>Interceptors\<close>

text \<open>
  The context of a call: the peer address if there is one, and what \<^verbatim>\<open>cfg.PrimaryHost\<close> answers
  during the call (\<open>None\<close> when it is \<^verbatim>\<open>nil\<close>).
\<close>

record call_ctx =
  peer :: "string option"
  primaryHost :: "string option"

type_synonym 's handler = "request \<Rightarrow> 's \<Rightarrow> response result \<times> 's"
type_synonym 's interceptor = "call_ctx \<Rightarrow> request \<Rightarrow> string \<Rightarrow> 's handler \<Rightarrow> 's \<Rightarrow> response result \<times> 's"

fun build_chain :: "'s interceptor list \<Rightarrow> call_ctx \<Rightarrow> string \<Rightarrow> 's handler \<Rightarrow> 's handler" where
  "build_chain [] ctx info handler = handler"
| "build_chain (ic # ics) ctx info handler = (\<lambda>req s. ic ctx req info (build_chain ics ctx info handler) s)"

text \<open>A \<^verbatim>\<open>nil\<close> interceptor is \<open>None\<close> and is skipped.\<close>

definition chainUnaryInterceptors :: "'s interceptor option list \<Rightarrow> 's interceptor" where
  "chainUnaryInterceptors interceptors =
     (let filtered = map the (filter (\<lambda>ic. ic \<noteq> None) interceptors) in
      (\<lambda>ctx req info handler s. build_chain filtered ctx info handler req s))"

definition newEnabledRPCInterceptor :: "(string \<rightharpoonup> bool) \<Rightarrow> 's interceptor" where
  "newEnabledRPCInterceptor enabled = (\<lambda>ctx req info handler s.
     if enabled info = Some False then (Returns (Inl (Status Unimplemented (MethodDisabled info))), s)
     else handler req s)"

definition newPrimaryGateInterceptor :: "'s interceptor" where
  "newPrimaryGateInterceptor = (\<lambda>ctx req info handler s.
     case primaryHost ctx of
       None \<Rightarrow> handler req s
     | Some want \<Rightarrow>
         if info \<notin> set primaryGatedRPCs then handler req s
         else if want = '''' then handler req s
         else case peer ctx of
                None \<Rightarrow> handler req s
              | Some addr \<Rightarrow>
                  if HostOf addr = want then handler req s
                  else (Returns (Inl (Status FailedPrecondition NotPrimary)), s))"

text \<open>
  The outermost interceptor turns a panic of anything inside it into a status; what the handler
  had changed before the panic stays changed.
\<close>

definition newUnaryInterceptor :: "'s interceptor" where
  "newUnaryInterceptor = (\<lambda>ctx req info handler s.
     case handler req s of
       (Panics, s') \<Rightarrow> (Returns (Inl (Status Internal InternalServerError)), s')
     | (Returns r, s') \<Rightarrow> (Returns r, s'))"

text \<open>The chain that \<^verbatim>\<open>New\<close> installs, and the generated handler that calls it.\<close>

definition server_interceptor :: "(string \<rightharpoonup> bool) \<Rightarrow> 's interceptor" where
  "server_interceptor enabled =
     chainUnaryInterceptors
       [Some newUnaryInterceptor, Some (newEnabledRPCInterceptor enabled), Some newPrimaryGateInterceptor]"

definition unary_call :: "'s interceptor \<Rightarrow> call_ctx \<Rightarrow> 's handler \<Rightarrow> 's handler" where
  "unary_call interceptor ctx srv = (\<lambda>req s. interceptor ctx req (full_method req) srv s)"

section \<open>What the chain does\<close>

definition gate_refuses :: "call_ctx \<Rightarrow> string \<Rightarrow> bool" where
  "gate_refuses ctx m \<longleftrightarrow>
     (case (primaryHost ctx, peer ctx) of
        (Some want, Some addr) \<Rightarrow> m \<in> set primaryGatedRPCs \<and> want \<noteq> '''' \<and> HostOf addr \<noteq> want
      | _ \<Rightarrow> False)"

fun recovered :: "'r result \<Rightarrow> 'r result" where
  "recovered Panics = Returns (Inl (Status Internal InternalServerError))"
| "recovered (Returns r) = Returns r"

lemma gate_interceptor:
  "newPrimaryGateInterceptor ctx req m h s =
     (if gate_refuses ctx m then (Returns (Inl (Status FailedPrecondition NotPrimary)), s) else h req s)"
  by (auto simp: newPrimaryGateInterceptor_def gate_refuses_def split: option.splits)

lemma unary_interceptor: "newUnaryInterceptor ctx req m h s = (recovered (fst (h req s)), snd (h req s))"
  by (auto simp: newUnaryInterceptor_def split: prod.splits go.splits)

text \<open>
  A call is a refusal of the enabled gate, a refusal of the primary gate, or the handler with
  its panics recovered; a refusal changes nothing.
\<close>

lemma server_call:
  "unary_call (server_interceptor enabled) ctx srv req s =
     (if enabled (full_method req) = Some False
      then (Returns (Inl (Status Unimplemented (MethodDisabled (full_method req)))), s)
      else if gate_refuses ctx (full_method req)
      then (Returns (Inl (Status FailedPrecondition NotPrimary)), s)
      else (recovered (fst (srv req s)), snd (srv req s)))"
  by (simp add: unary_call_def server_interceptor_def chainUnaryInterceptors_def unary_interceptor
      gate_interceptor newEnabledRPCInterceptor_def)

end
