(* ===== verification/Privval.thy ===== *)
theory Privval
  imports Primary_Arbiter Metrics Rpc
begin

text \<open>
  The consensus side of the signer: validation of privval requests
  (\<^verbatim>\<open>src/consensus/validate.go\<close>), the request handlers (\<^verbatim>\<open>handler.go\<close>), the gate in front of
  them and the connection loops (\<^verbatim>\<open>server.go\<close>), and the lock around the signing key
  (\<^verbatim>\<open>locked_pv.go\<close>).

  CometBFT is a parameter, the record \<open>cmt\<close>: its enumeration values, \<^verbatim>\<open>BlockIDFromProto\<close>,
  the two predicates on a block id and \<^verbatim>\<open>DefaultValidationRequestHandler\<close>, which signs with the
  state \<open>'pv\<close> of the private validator.  Heights, rounds and indices are only compared, never
  computed with, so the \<^verbatim>\<open>int64\<close> and \<^verbatim>\<open>int32\<close> fields are integers.  A nil vote or proposal
  pointer is \<open>None\<close>; decoding allocates the request messages themselves.
\<close>

section \<open>Messages\<close>

record BlockID =
  bHash :: bytes
  bTotal :: nat
  bPartsHash :: bytes

record Vote =
  vType :: int
  vHeight :: int
  vRound :: int
  vBlockID :: BlockID
  vTimestamp :: time
  ValidatorAddress :: bytes
  ValidatorIndex :: int
  vSignature :: bytes
  Extension :: bytes
  ExtensionSignature :: bytes

record Proposal =
  pType :: int
  pHeight :: int
  pRound :: int
  PolRound :: int
  pBlockID :: BlockID
  pTimestamp :: time
  pSignature :: bytes

definition zero_block :: BlockID where
  "zero_block = \<lparr>bHash = [], bTotal = 0, bPartsHash = []\<rparr>"

definition zero_vote :: Vote where
  "zero_vote = \<lparr>vType = 0, vHeight = 0, vRound = 0, vBlockID = zero_block, vTimestamp = 0,
     ValidatorAddress = [], ValidatorIndex = 0, vSignature = [], Extension = [], ExtensionSignature = []\<rparr>"

definition zero_proposal :: Proposal where
  "zero_proposal = \<lparr>pType = 0, pHeight = 0, pRound = 0, PolRound = 0, pBlockID = zero_block,
     pTimestamp = 0, pSignature = []\<rparr>"

record RemoteSignerError =
  Code :: int
  Description :: string

datatype PublicKey = EmptyKey | KeyOf string bytes

text \<open>The oneof \<^verbatim>\<open>privvalproto.Message.Sum\<close>; \<open>NoSum\<close> is a nil \<^verbatim>\<open>Sum\<close>.\<close>

datatype message =
    NoSum
  | PubKeyRequest string
  | PubKeyResponse PublicKey "RemoteSignerError option"
  | SignVoteRequest "Vote option" string
  | SignedVoteResponse Vote "RemoteSignerError option"
  | SignProposalRequest "Proposal option" string
  | SignedProposalResponse Proposal "RemoteSignerError option"
  | PingRequest
  | PingResponse

datatype val_error =
    EmptyChainID
  | OversizedChainID
  | NulChainID
  | NilVote
  | InvalidVoteType int
  | VoteHeight
  | NegativeVoteRound
  | NegativeValidatorIndex
  | AddressLength nat nat
  | AddressMismatch
  | BadBlockID string
  | PartialBlockID
  | ExtensionTooLong nat
  | UnexpectedExtension
  | UnexpectedExtensionSignature
  | NilProposal
  | InvalidProposalType int
  | NegativeProposalHeight
  | NegativeProposalRound
  | InvalidPolRound
  | IncompleteBlockID
  | PvError string

definition format_int :: "int \<Rightarrow> string" where
  "format_int i = (if i < 0 then CHR ''-'' # format_nat (nat (- i)) else format_nat (nat i))"

fun err_text :: "val_error \<Rightarrow> string" where
  "err_text EmptyChainID = ''chain_id is empty''"
| "err_text OversizedChainID = ''chain_id exceeds maximum length''"
| "err_text NulChainID = ''chain_id contains NUL''"
| "err_text NilVote = ''nil vote''"
| "err_text (InvalidVoteType t) = ''invalid vote type '' @ format_int t"
| "err_text VoteHeight = ''vote height must be positive''"
| "err_text NegativeVoteRound = ''negative vote round''"
| "err_text NegativeValidatorIndex = ''negative validator index''"
| "err_text (AddressLength n m) =
     ''validator address length '' @ format_nat n @ '', expected '' @ format_nat m"
| "err_text AddressMismatch = ''validator address does not match signer key''"
| "err_text (BadBlockID e) = ''block_id: '' @ e"
| "err_text PartialBlockID = ''block_id must be nil or complete, got partial id''"
| "err_text (ExtensionTooLong n) = ''vote extension exceeds max size '' @ format_nat n"
| "err_text UnexpectedExtension = ''vote extension only allowed on non-nil precommit''"
| "err_text UnexpectedExtensionSignature = ''extension signature only allowed on non-nil precommit''"
| "err_text NilProposal = ''nil proposal''"
| "err_text (InvalidProposalType t) = ''invalid proposal type '' @ format_int t"
| "err_text NegativeProposalHeight = ''negative proposal height''"
| "err_text NegativeProposalRound = ''negative proposal round''"
| "err_text InvalidPolRound = ''invalid POL round''"
| "err_text IncompleteBlockID = ''proposal requires complete block_id''"
| "err_text (PvError e) = e"

text \<open>An answer of a handler: the message to send back and the error to log.\<close>

type_synonym answer = "message \<times> val_error option"

record 'pv cmt =
  IsVoteTypeValid :: "int \<Rightarrow> bool"
  BlockIDFromProto :: "BlockID \<Rightarrow> string + BlockID"
  IsZero :: "BlockID \<Rightarrow> bool"
  IsComplete :: "BlockID \<Rightarrow> bool"
  MaxVoteExtensionSize :: nat
  PrecommitType :: int
  ProposalType :: int
  DefaultHandler :: "'pv \<Rightarrow> message \<Rightarrow> string \<Rightarrow> answer go \<times> 'pv"
  pvAddress :: "'pv \<Rightarrow> string + bytes"
  PubKeyFromProto :: "PublicKey \<Rightarrow> string + bytes"

section \<open>Validation\<close>

definition maxChainIDLen :: nat where
  "maxChainIDLen = 64"

definition validateRequestChainID :: "string \<Rightarrow> val_error option" where
  "validateRequestChainID cid =
     (if length cid = 0 then Some EmptyChainID
      else if length cid > maxChainIDLen then Some OversizedChainID
      else if CHR 0x00 \<in> set cid then Some NulChainID
      else None)"

definition ValidateSignVoteRequest :: "'pv cmt \<Rightarrow> Vote option \<Rightarrow> bytes \<Rightarrow> val_error option" where
  "ValidateSignVoteRequest C vote expectAddr =
     (case vote of
        None \<Rightarrow> Some NilVote
      | Some v \<Rightarrow>
          if \<not> IsVoteTypeValid C (vType v) then Some (InvalidVoteType (vType v))
          else if vHeight v \<le> 0 then Some VoteHeight
          else if vRound v < 0 then Some NegativeVoteRound
          else if ValidatorIndex v < 0 then Some NegativeValidatorIndex
          else if length expectAddr > 0 \<and> length (ValidatorAddress v) \<noteq> length expectAddr then
            Some (AddressLength (length (ValidatorAddress v)) (length expectAddr))
          else if length expectAddr > 0 \<and> ValidatorAddress v \<noteq> expectAddr then Some AddressMismatch
          else
            (case BlockIDFromProto C (vBlockID v) of
               Inl e \<Rightarrow> Some (BadBlockID e)
             | Inr bid \<Rightarrow>
                 if \<not> IsZero C bid \<and> \<not> IsComplete C bid then Some PartialBlockID
                 else if length (Extension v) > MaxVoteExtensionSize C then
                   Some (ExtensionTooLong (MaxVoteExtensionSize C))
                 else if vType v \<noteq> PrecommitType C \<or> IsZero C bid then
                   (if length (Extension v) > 0 then Some UnexpectedExtension
                    else if length (ExtensionSignature v) > 0 then Some UnexpectedExtensionSignature
                    else None)
                 else None))"

definition ValidateSignProposalRequest :: "'pv cmt \<Rightarrow> Proposal option \<Rightarrow> val_error option" where
  "ValidateSignProposalRequest C prop =
     (case prop of
        None \<Rightarrow> Some NilProposal
      | Some p \<Rightarrow>
          if pType p \<noteq> ProposalType C then Some (InvalidProposalType (pType p))
          else if pHeight p < 0 then Some NegativeProposalHeight
          else if pRound p < 0 then Some NegativeProposalRound
          else if PolRound p < -1 then Some InvalidPolRound
          else
            (case BlockIDFromProto C (pBlockID p) of
               Inl e \<Rightarrow> Some (BadBlockID e)
             | Inr bid \<Rightarrow> if \<not> IsComplete C bid then Some IncompleteBlockID else None))"

section \<open>Handlers\<close>

fun wrapMsg :: "message \<Rightarrow> message go" where
  "wrapMsg (PubKeyResponse k e) = Returns (PubKeyResponse k e)"
| "wrapMsg (SignedVoteResponse v e) = Returns (SignedVoteResponse v e)"
| "wrapMsg (SignedProposalResponse p e) = Returns (SignedProposalResponse p e)"
| "wrapMsg PingResponse = Returns PingResponse"
| "wrapMsg _ = Panics"

definition remoteErr :: "string \<Rightarrow> RemoteSignerError" where
  "remoteErr desc = \<lparr>Code = 0, Description = desc\<rparr>"

text \<open>\<open>refuse m e\<close>: \<^verbatim>\<open>res = wrapMsg(m); return res, e\<close>.\<close>

definition refuse :: "message \<Rightarrow> val_error \<Rightarrow> answer go" where
  "refuse m e = (case wrapMsg m of Panics \<Rightarrow> Panics | Returns r \<Rightarrow> Returns (r, Some e))"

text \<open>The cases of the switch: the answer that stops the request, if any.\<close>

definition request_refusal :: "'pv cmt \<Rightarrow> bytes \<Rightarrow> message \<Rightarrow> answer go option" where
  "request_refusal C valAddr req =
     (case req of
        PubKeyRequest cid \<Rightarrow>
          (case validateRequestChainID cid of
             Some e \<Rightarrow> Some (refuse (PubKeyResponse EmptyKey (Some (remoteErr (err_text e)))) e)
           | None \<Rightarrow> None)
      | SignVoteRequest vote cid \<Rightarrow>
          (case validateRequestChainID cid of
             Some e \<Rightarrow> Some (refuse (SignedVoteResponse zero_vote (Some (remoteErr (err_text e)))) e)
           | None \<Rightarrow>
               if vote = None then
                 Some (refuse (SignedVoteResponse zero_vote (Some (remoteErr ''nil vote in request''))) NilVote)
               else
                 (case ValidateSignVoteRequest C vote valAddr of
                    Some e \<Rightarrow> Some (refuse (SignedVoteResponse zero_vote (Some (remoteErr (err_text e)))) e)
                  | None \<Rightarrow> None))
      | SignProposalRequest prop cid \<Rightarrow>
          (case validateRequestChainID cid of
             Some e \<Rightarrow>
               Some (refuse (SignedProposalResponse zero_proposal (Some (remoteErr (err_text e)))) e)
           | None \<Rightarrow>
               if prop = None then
                 Some (refuse (SignedProposalResponse zero_proposal
                                (Some (remoteErr ''nil proposal in request''))) NilProposal)
               else
                 (case ValidateSignProposalRequest C prop of
                    Some e \<Rightarrow>
                      Some (refuse (SignedProposalResponse zero_proposal (Some (remoteErr (err_text e)))) e)
                  | None \<Rightarrow> None))
      | _ \<Rightarrow> None)"

definition ValidationRequestHandler ::
    "'pv cmt \<Rightarrow> bytes \<Rightarrow> 'pv \<Rightarrow> message \<Rightarrow> string \<Rightarrow> answer go \<times> 'pv" where
  "ValidationRequestHandler C valAddr pv req chainID =
     (case request_refusal C valAddr req of
        Some res \<Rightarrow> (res, pv)
      | None \<Rightarrow> DefaultHandler C pv req chainID)"

definition ValidatorAddressForHandler :: "'pv cmt \<Rightarrow> 'pv \<Rightarrow> string + bytes" where
  "ValidatorAddressForHandler C pv = (case pvAddress C pv of Inl e \<Rightarrow> Inl e | Inr a \<Rightarrow> Inr a)"

fun MustPubKeyResponse :: "message option \<Rightarrow> (PublicKey \<times> RemoteSignerError option) option" where
  "MustPubKeyResponse (Some (PubKeyResponse k e)) = Some (k, e)"
| "MustPubKeyResponse _ = None"

fun MustSignedVoteResponse :: "message option \<Rightarrow> (Vote \<times> RemoteSignerError option) option" where
  "MustSignedVoteResponse (Some (SignedVoteResponse v e)) = Some (v, e)"
| "MustSignedVoteResponse _ = None"

fun MustSignedProposalResponse :: "message option \<Rightarrow> (Proposal \<times> RemoteSignerError option) option" where
  "MustSignedProposalResponse (Some (SignedProposalResponse p e)) = Some (p, e)"
| "MustSignedProposalResponse _ = None"

definition PubKeyFromResponse ::
    "'pv cmt \<Rightarrow> (PublicKey \<times> RemoteSignerError option) option \<Rightarrow> (string + bytes)" where
  "PubKeyFromResponse C resp =
     (case resp of
        Some (k, None) \<Rightarrow> PubKeyFromProto C k
      | _ \<Rightarrow> Inl ''pubkey error'')"

section \<open>The gate in front of the handler\<close>

text \<open>
  What the connections share: the arbiter (\<open>None\<close> when \<^verbatim>\<open>arbiter == nil\<close>), the gauges and the
  private validator.  A handler of this section also takes the time of the call.
\<close>

record 'pv consensus =
  arbiter :: "PrimaryArbiter option"
  gauges :: Metrics
  pval :: 'pv

type_synonym 'pv handler = "time \<Rightarrow> message \<Rightarrow> string \<Rightarrow> 'pv consensus \<Rightarrow> answer go \<times> 'pv consensus"

definition plain_handler :: "'pv cmt \<Rightarrow> bytes \<Rightarrow> 'pv handler" where
  "plain_handler C valAddr now req chainID w =
     (case ValidationRequestHandler C valAddr (pval w) req chainID of
        (res, pv') \<Rightarrow> (res, w\<lparr>pval := pv'\<rparr>))"

fun notPrimaryResponse :: "message \<Rightarrow> (message \<times> int \<times> bool) go" where
  "notPrimaryResponse (SignVoteRequest vote cid) =
     (case wrapMsg (SignedVoteResponse zero_vote (Some (remoteErr ''not the primary signer''))) of
        Panics \<Rightarrow> Panics
      | Returns m \<Rightarrow> (case vote of None \<Rightarrow> Panics | Some v \<Rightarrow> Returns (m, vHeight v, True)))"
| "notPrimaryResponse (SignProposalRequest prop cid) =
     (case wrapMsg (SignedProposalResponse zero_proposal (Some (remoteErr ''not the primary signer''))) of
        Panics \<Rightarrow> Panics
      | Returns m \<Rightarrow> (case prop of None \<Rightarrow> Panics | Some p \<Rightarrow> Returns (m, pHeight p, True)))"
| "notPrimaryResponse _ = Returns (NoSum, 0, False)"

text \<open>
  The gate before \<^verbatim>\<open>next\<close> is called: \<open>Inl\<close> the outcome that ends the request, \<open>Inr\<close> to go on.
\<close>

definition gate ::
    "string \<Rightarrow> time \<Rightarrow> message \<Rightarrow> 'pv consensus \<Rightarrow> (answer go + unit) \<times> 'pv consensus" where
  "gate i now req w =
     (case arbiter w of
        None \<Rightarrow> (Inr (), w)
      | Some a \<Rightarrow>
          (case notPrimaryResponse req of
             Panics \<Rightarrow> (Inl Panics, w)
           | Returns (refusal, height, isSign) \<Rightarrow>
               if isSign then
                 (case Acquire a i height now of
                    (False, a') \<Rightarrow> (Inl (Returns (refusal, None)), w\<lparr>arbiter := Some a'\<rparr>)
                  | (True, a') \<Rightarrow>
                      (Inr (), w\<lparr>arbiter := Some a', gauges := RecordSign i (gauges w)\<rparr>))
               else (Inr (), w)))"

definition gatedHandler :: "string \<Rightarrow> 'pv handler \<Rightarrow> 'pv handler" where
  "gatedHandler i nxt now req chainID w =
     (case gate i now req w of
        (Inl res, w') \<Rightarrow> (res, w')
      | (Inr _, w') \<Rightarrow> nxt now req chainID w')"

section \<open>One connection\<close>

text \<open>
  A connection delivers frames until a read fails; a frame carries the time, the decoded message
  and whether writing the answer succeeds.  \<open>serveConn\<close> returns the answers written.
\<close>

datatype frame = Frame time message bool

fun serveConn :: "'pv handler \<Rightarrow> string \<Rightarrow> frame list \<Rightarrow> 'pv consensus \<Rightarrow> message list go \<times> 'pv consensus" where
  "serveConn handler chainID [] w = (Returns [], w)"
| "serveConn handler chainID (Frame now req wrote # fs) w =
     (case handler now req chainID w of
        (Panics, w') \<Rightarrow> (Panics, w')
      | (Returns (res, _), w') \<Rightarrow>
          if \<not> wrote then (Returns [], w')
          else
            (case serveConn handler chainID fs w' of
               (Panics, w'') \<Rightarrow> (Panics, w'')
             | (Returns rs, w'') \<Rightarrow> (Returns (res # rs), w'')))"

text \<open>
  The reconnect loop.  The environment's part is a list of rounds: how the dial ended, and whether
  the context was cancelled during the wait that follows; past the end of the list the context is
  done at the top of the loop.  The loop returns the waits it armed, in nanoseconds.
\<close>

datatype attempt = DialFails | Connects "frame list"

definition minBackoff :: int where
  "minBackoff = 1000000000"

definition maxBackoff :: int where
  "maxBackoff = 5000000000"

definition reconnectDelay :: int where
  "reconnectDelay = 300000000"

fun dial_loop ::
    "'pv handler \<Rightarrow> string \<Rightarrow> (bool \<Rightarrow> 'pv consensus \<Rightarrow> 'pv consensus) \<Rightarrow> int \<Rightarrow> (attempt \<times> bool) list
      \<Rightarrow> 'pv consensus \<Rightarrow> int list go \<times> 'pv consensus" where
  "dial_loop handler chainID onState backoff [] w = (Returns [], w)"
| "dial_loop handler chainID onState backoff ((DialFails, cancelled) # rs) w =
     (let w1 = onState False w in
      if cancelled then (Returns [backoff], w1)
      else
        let doubled = backoff * 2;
            next_backoff = (if doubled > maxBackoff then maxBackoff else doubled)
        in (case dial_loop handler chainID onState next_backoff rs w1 of
              (Panics, w2) \<Rightarrow> (Panics, w2)
            | (Returns ws, w2) \<Rightarrow> (Returns (backoff # ws), w2)))"
| "dial_loop handler chainID onState backoff ((Connects fs, cancelled) # rs) w =
     (case serveConn handler chainID fs (onState True w) of
        (Panics, w1) \<Rightarrow> (Panics, w1)
      | (Returns _, w1) \<Rightarrow>
          let w2 = onState False w1 in
          if cancelled then (Returns [reconnectDelay], w2)
          else
            (case dial_loop handler chainID onState minBackoff rs w2 of
               (Panics, w3) \<Rightarrow> (Panics, w3)
             | (Returns ws, w3) \<Rightarrow> (Returns (reconnectDelay # ws), w3)))"

definition runDialClient ::
    "'pv handler \<Rightarrow> string \<Rightarrow> (bool \<Rightarrow> 'pv consensus \<Rightarrow> 'pv consensus) option \<Rightarrow> (attempt \<times> bool) list
      \<Rightarrow> 'pv consensus \<Rightarrow> int list go \<times> 'pv consensus" where
  "runDialClient handler chainID onState rounds w =
     (let onState' = (case onState of None \<Rightarrow> \<lambda>_ w. w | Some f \<Rightarrow> f)
      in dial_loop handler chainID onState' minBackoff rounds w)"

text \<open>The callback of \<^verbatim>\<open>RunDialClient\<close>.\<close>

definition target_state :: "string \<Rightarrow> bool \<Rightarrow> 'pv consensus \<Rightarrow> 'pv consensus" where
  "target_state target connected w =
     (let w1 = w\<lparr>gauges := SetTargetConnected target connected (gauges w)\<rparr> in
      if connected then w1
      else (case arbiter w1 of
              None \<Rightarrow> w1
            | Some a \<Rightarrow> w1\<lparr>arbiter := Some (snd (Release a target))\<rparr>))"

definition RunDialClient ::
    "'pv handler \<Rightarrow> string \<Rightarrow> string \<Rightarrow> (attempt \<times> bool) list \<Rightarrow> 'pv consensus \<Rightarrow> int list go \<times> 'pv consensus" where
  "RunDialClient handler targetAddr chainID rounds w =
     (let handler' = (if arbiter w \<noteq> None then gatedHandler targetAddr handler else handler);
          w1 = w\<lparr>gauges := SetTargetConnected targetAddr False (gauges w)\<rparr>
      in runDialClient handler' chainID (Some (target_state targetAddr)) rounds w1)"

section \<open>The lock around the key\<close>

text \<open>
  \<^verbatim>\<open>LockedPrivValidator\<close>: each method takes the mutex, runs the wrapped method and releases the
  mutex on return (\<^verbatim>\<open>defer l.mu.Unlock()\<close>).  The three methods have the same body up to the
  method they wrap, so a call of any of them is a sequence of smaller steps on the wrapped state (a
  wrapped method that panics has a shorter sequence, and the deferred unlock still runs); calls of
  several connections run concurrently and may be scheduled between any two steps.
\<close>

record 's locked =
  mu :: bool
  inner :: 's
  calls :: "nat \<Rightarrow> ('s \<Rightarrow> 's) list option"
  finished :: "nat list"

inductive locked_step :: "(nat \<Rightarrow> ('s \<Rightarrow> 's) list) \<Rightarrow> 's locked \<Rightarrow> 's locked \<Rightarrow> bool"
  for body :: "nat \<Rightarrow> ('s \<Rightarrow> 's) list" where
  Lock: "\<lbrakk>calls l c = None; c \<notin> set (finished l); \<not> mu l\<rbrakk> \<Longrightarrow>
    locked_step body l (l\<lparr>mu := True, calls := (calls l)(c \<mapsto> body c)\<rparr>)"
| Body: "calls l c = Some (f # fs) \<Longrightarrow>
    locked_step body l (l\<lparr>inner := f (inner l), calls := (calls l)(c \<mapsto> fs)\<rparr>)"
| Unlock: "calls l c = Some [] \<Longrightarrow>
    locked_step body l (l\<lparr>mu := False, calls := (calls l)(c := None), finished := finished l @ [c]\<rparr>)"

definition NewLockedPrivValidator :: "'s \<Rightarrow> 's locked" where
  "NewLockedPrivValidator pv = \<lparr>mu = False, inner = pv, calls = (\<lambda>_. None), finished = []\<rparr>"

section \<open>Lemmas\<close>

lemma refuse_response [simp]:
  "refuse (PubKeyResponse k x) e = Returns (PubKeyResponse k x, Some e)"
  "refuse (SignedVoteResponse v x) e = Returns (SignedVoteResponse v x, Some e)"
  "refuse (SignedProposalResponse p x) e = Returns (SignedProposalResponse p x, Some e)"
  by (simp_all add: refuse_def)

text \<open>The height a sign request is for; \<open>None\<close> for the requests that are not gated.\<close>

fun sign_height :: "message \<Rightarrow> int option" where
  "sign_height (SignVoteRequest (Some v) cid) = Some (vHeight v)"
| "sign_height (SignProposalRequest (Some p) cid) = Some (pHeight p)"
| "sign_height _ = None"

definition nil_payload :: "message \<Rightarrow> bool" where
  "nil_payload m \<longleftrightarrow> (\<exists>cid. m = SignVoteRequest None cid \<or> m = SignProposalRequest None cid)"

lemma notPrimaryResponse_cases:
  "notPrimaryResponse m =
     (if nil_payload m then Panics
      else case sign_height m of
             None \<Rightarrow> Returns (NoSum, 0, False)
           | Some h \<Rightarrow> Returns (case m of SignVoteRequest _ _ \<Rightarrow>
                 SignedVoteResponse zero_vote (Some (remoteErr ''not the primary signer''))
               | _ \<Rightarrow> SignedProposalResponse zero_proposal (Some (remoteErr ''not the primary signer'')), h, True))"
  by (induction m rule: sign_height.induct) (auto simp: nil_payload_def)

lemma gate_go:
  "gate i t m w = (Inr (), w') \<Longrightarrow> arbiter w = Some a \<Longrightarrow>
     (case sign_height m of
        None \<Rightarrow> w' = w
      | Some h \<Rightarrow> fst (Acquire a i h t) \<and>
          w' = w\<lparr>arbiter := Some (snd (Acquire a i h t)), gauges := RecordSign i (gauges w)\<rparr>)"
  by (auto simp: gate_def notPrimaryResponse_cases split: if_splits option.splits prod.splits bool.splits)

lemma gate_stop:
  "gate i t m w = (Inl r, w') \<Longrightarrow> arbiter w = Some a \<Longrightarrow> r \<noteq> Panics \<Longrightarrow>
     (\<exists>h. sign_height m = Some h \<and> \<not> fst (Acquire a i h t) \<and> w' = w\<lparr>arbiter := Some (snd (Acquire a i h t))\<rparr>)"
  by (auto simp: gate_def notPrimaryResponse_cases split: if_splits option.splits prod.splits bool.splits)

lemma gate_no_arbiter: "arbiter w = None \<Longrightarrow> gate i t m w = (Inr (), w)"
  by (simp add: gate_def)

lemma plain_handler_frame [simp]:
  "arbiter (snd (plain_handler C adr t m cid w)) = arbiter w"
  "gauges (snd (plain_handler C adr t m cid w)) = gauges w"
  by (simp_all add: plain_handler_def split: prod.splits)

lemma target_state_frame [simp]: "pval (target_state i c w) = pval w"
  by (simp add: target_state_def Let_def split: option.splits)

lemma target_state_arbiter:
  "arbiter (target_state i c w) =
     (if c then arbiter w else map_option (\<lambda>a. snd (Release a i)) (arbiter w))"
  by (auto simp: target_state_def Let_def split: option.splits)

section \<open>What the handler lets through\<close>

definition valid_chain :: "string \<Rightarrow> bool" where
  "valid_chain cid \<longleftrightarrow> 0 < length cid \<and> length cid \<le> 64 \<and> CHR 0x00 \<notin> set cid"

definition valid_vote :: "'pv cmt \<Rightarrow> bytes \<Rightarrow> Vote \<Rightarrow> bool" where
  "valid_vote C addr v \<longleftrightarrow>
     IsVoteTypeValid C (vType v) \<and> 0 < vHeight v \<and> 0 \<le> vRound v \<and> 0 \<le> ValidatorIndex v
   \<and> addr \<in> {[], ValidatorAddress v}
   \<and> (\<exists>bid. BlockIDFromProto C (vBlockID v) = Inr bid \<and> (IsZero C bid \<or> IsComplete C bid)
        \<and> length (Extension v) \<le> MaxVoteExtensionSize C
        \<and> (vType v = PrecommitType C \<and> \<not> IsZero C bid \<or> Extension v = [] \<and> ExtensionSignature v = []))"

definition valid_proposal :: "'pv cmt \<Rightarrow> Proposal \<Rightarrow> bool" where
  "valid_proposal C p \<longleftrightarrow>
     pType p = ProposalType C \<and> 0 \<le> pHeight p \<and> 0 \<le> pRound p \<and> -1 \<le> PolRound p
   \<and> (\<exists>bid. BlockIDFromProto C (pBlockID p) = Inr bid \<and> IsComplete C bid)"

fun valid_request :: "'pv cmt \<Rightarrow> bytes \<Rightarrow> message \<Rightarrow> bool" where
  "valid_request C addr (PubKeyRequest cid) = valid_chain cid"
| "valid_request C addr (SignVoteRequest vote cid) =
     (valid_chain cid \<and> (case vote of None \<Rightarrow> False | Some v \<Rightarrow> valid_vote C addr v))"
| "valid_request C addr (SignProposalRequest prop cid) =
     (valid_chain cid \<and> (case prop of None \<Rightarrow> False | Some p \<Rightarrow> valid_proposal C p))"
| "valid_request C addr _ = True"

text \<open>The error an answer reports to the node.\<close>

fun reported :: "message \<Rightarrow> RemoteSignerError option" where
  "reported (PubKeyResponse k e) = e"
| "reported (SignedVoteResponse v e) = e"
| "reported (SignedProposalResponse p e) = e"
| "reported _ = None"

lemma chain_valid: "validateRequestChainID cid = None \<longleftrightarrow> valid_chain cid"
  by (auto simp: validateRequestChainID_def valid_chain_def maxChainIDLen_def)

lemma vote_valid: "ValidateSignVoteRequest C (Some v) addr = None \<longleftrightarrow> valid_vote C addr v"
  by (cases "BlockIDFromProto C (vBlockID v)")
     (auto simp: ValidateSignVoteRequest_def valid_vote_def not_le not_less)

lemma proposal_valid: "ValidateSignProposalRequest C (Some p) = None \<longleftrightarrow> valid_proposal C p"
  by (cases "BlockIDFromProto C (pBlockID p)")
     (auto simp: ValidateSignProposalRequest_def valid_proposal_def not_le not_less)

lemma refusal_iff: "request_refusal C addr m = None \<longleftrightarrow> valid_request C addr m"
proof (cases m)
  case (SignVoteRequest vote cid)
  then show ?thesis
    by (cases vote) (auto simp: request_refusal_def chain_valid [symmetric] vote_valid [symmetric] split: option.splits)
next
  case (SignProposalRequest pr cid)
  then show ?thesis
    by (cases pr) (auto simp: request_refusal_def chain_valid [symmetric] proposal_valid [symmetric] split: option.splits)
qed (auto simp: request_refusal_def chain_valid [symmetric] split: option.splits)

lemma refusal_reports:
  "request_refusal C addr m = Some r \<Longrightarrow> \<exists>res e. r = Returns (res, Some e) \<and> reported res \<noteq> None"
  by (auto simp: request_refusal_def split: message.splits option.splits if_splits)

text \<open>Claim C24: the private validator is asked for exactly the well-formed requests.  A vote has a
  valid type, a positive height, the signer's own address, a nil or complete block id and an
  extension only on a non-nil precommit; a proposal a complete block id.  Every other request is
  answered with an error and leaves the signing state as it was.\<close>

theorem privval_accepts_exactly:
  "if valid_request C addr m
   then ValidationRequestHandler C addr pv m cid = DefaultHandler C pv m cid
   else \<exists>res e. ValidationRequestHandler C addr pv m cid = (Returns (res, Some e), pv) \<and> reported res \<noteq> None"
proof (cases "request_refusal C addr m")
  case None
  then show ?thesis using refusal_iff [of C addr m] by (simp add: ValidationRequestHandler_def)
next
  case (Some r)
  then show ?thesis using refusal_iff [of C addr m] refusal_reports [OF Some]
    by (auto simp: ValidationRequestHandler_def)
qed

text \<open>Behind the gate a sign request without its vote or proposal is not refused: the
  gate reads the height through the nil pointer and panics before the handler's nil check can
  answer.\<close>

theorem nil_request_panics_gate:
  "gatedHandler i nxt t (SignVoteRequest None cid) chainID (w\<lparr>arbiter := Some a\<rparr>) = (Panics, w\<lparr>arbiter := Some a\<rparr>) \<and>
   gatedHandler i nxt t (SignProposalRequest None cid) chainID (w\<lparr>arbiter := Some a\<rparr>) = (Panics, w\<lparr>arbiter := Some a\<rparr>) \<and>
   (\<exists>res e. plain_handler C adr t (SignVoteRequest None cid) chainID w = (Returns (res, Some e), w))"
  by (auto simp: gatedHandler_def gate_def plain_handler_def ValidationRequestHandler_def request_refusal_def
           split: option.splits)

section \<open>A concrete CometBFT\<close>

text \<open>
  The values of the CometBFT release the module pins for the enumerations and the size limit, block
  ids as it classifies them, and a private validator that counts the requests it gets.
\<close>

definition demo_cmt :: "nat cmt" where
  "demo_cmt =
     \<lparr>IsVoteTypeValid = (\<lambda>t. t = 1 \<or> t = 2),
      BlockIDFromProto = Inr,
      IsZero = (\<lambda>b. b = zero_block),
      IsComplete = (\<lambda>b. length (bHash b) = 32 \<and> 0 < bTotal b \<and> length (bPartsHash b) = 32),
      MaxVoteExtensionSize = 1048576,
      PrecommitType = 2,
      ProposalType = 32,
      DefaultHandler = (\<lambda>pv m cid. (Returns (PingResponse, None), Suc pv)),
      pvAddress = (\<lambda>_. Inr (replicate 20 7)),
      PubKeyFromProto = (\<lambda>k. case k of EmptyKey \<Rightarrow> Inl ''no key'' | KeyOf _ b \<Rightarrow> Inr b)\<rparr>"

definition demo_addr :: bytes where
  "demo_addr = replicate 20 7"

definition demo_vote :: "int \<Rightarrow> Vote" where
  "demo_vote h = zero_vote\<lparr>vType := 1, vHeight := h, ValidatorAddress := demo_addr\<rparr>"

definition demo_consensus :: "nat consensus" where
  "demo_consensus = \<lparr>arbiter = Some demo_arbiter, gauges = init_metrics, pval = 0\<rparr>"

section \<open>Serialised calls\<close>

definition run_call :: "('s \<Rightarrow> 's) list \<Rightarrow> 's \<Rightarrow> 's" where
  "run_call fs s = foldl (\<lambda>x f. f x) s fs"

definition run_calls :: "(nat \<Rightarrow> ('s \<Rightarrow> 's) list) \<Rightarrow> nat list \<Rightarrow> 's \<Rightarrow> 's" where
  "run_calls body cs s = foldl (\<lambda>x c. run_call (body c) x) s cs"

definition locked_inv :: "(nat \<Rightarrow> ('s \<Rightarrow> 's) list) \<Rightarrow> 's \<Rightarrow> 's locked \<Rightarrow> bool" where
  "locked_inv body s0 l \<longleftrightarrow> distinct (finished l) \<and>
     (if mu l
      then \<exists>c before after. calls l = [c \<mapsto> after] \<and> c \<notin> set (finished l) \<and> body c = before @ after
             \<and> inner l = run_call before (run_calls body (finished l) s0)
      else calls l = Map.empty \<and> inner l = run_calls body (finished l) s0)"

lemma locked_inv_intro:
  assumes "distinct (finished l)" "mu l" "calls l = [c \<mapsto> after]" "c \<notin> set (finished l)" "body c = before @ after"
    "inner l = run_call before (run_calls body (finished l) s0)"
  shows "locked_inv body s0 l"
  unfolding locked_inv_def if_P [OF assms(2)] using assms by blast

lemma locked_inv_held:
  assumes "locked_inv body s0 l" and "calls l c = Some fs"
  obtains before where "mu l" "calls l = [c \<mapsto> fs]" "c \<notin> set (finished l)" "distinct (finished l)"
    "body c = before @ fs" "inner l = run_call before (run_calls body (finished l) s0)"
proof (cases "mu l")
  case True
  with assms(1) obtain d before after where d: "calls l = [d \<mapsto> after]" "d \<notin> set (finished l)"
      "body d = before @ after" "inner l = run_call before (run_calls body (finished l) s0)"
    unfolding locked_inv_def by auto
  with assms(2) have "d = c" "after = fs" by (simp_all split: if_splits)
  with d that [of before] True assms(1) show ?thesis by (simp add: locked_inv_def)
next
  case False
  with assms show ?thesis by (simp add: locked_inv_def)
qed

lemma locked_inv_step: "locked_step body l l' \<Longrightarrow> locked_inv body s0 l \<Longrightarrow> locked_inv body s0 l'"
proof (induction rule: locked_step.induct)
  case (Lock l c)
  then have "calls l = Map.empty" "inner l = run_calls body (finished l) s0" "distinct (finished l)"
    by (simp_all add: locked_inv_def)
  with Lock.hyps show ?case
    by (intro locked_inv_intro [where c = c and before = "[]" and after = "body c"]) (simp_all add: run_call_def)
next
  case (Body l c f fs)
  from Body.prems Body.hyps obtain before where l: "mu l" "calls l = [c \<mapsto> f # fs]" "c \<notin> set (finished l)"
      "distinct (finished l)" "body c = before @ f # fs" "inner l = run_call before (run_calls body (finished l) s0)"
    by (rule locked_inv_held)
  then have "f (inner l) = run_call (before @ [f]) (run_calls body (finished l) s0)"
    by (simp add: run_call_def)
  with l show ?case
    by (intro locked_inv_intro [where c = c and before = "before @ [f]" and after = fs]) simp_all
next
  case (Unlock l c)
  from Unlock.prems Unlock.hyps obtain before where "calls l = [c \<mapsto> []]" "c \<notin> set (finished l)"
      "distinct (finished l)" "body c = before @ []" "inner l = run_call before (run_calls body (finished l) s0)"
    by (rule locked_inv_held)
  then show ?case by (simp add: locked_inv_def run_calls_def)
qed

lemma locked_inv_reach:
  "(locked_step body)\<^sup>*\<^sup>* (NewLockedPrivValidator s0) l \<Longrightarrow> locked_inv body s0 l"
proof (induction rule: rtranclp_induct)
  case base
  show ?case by (simp add: locked_inv_def NewLockedPrivValidator_def run_calls_def)
qed (rule locked_inv_step)

text \<open>Claim C25: the lock serialises the connections.  However the steps of concurrent calls are
  scheduled, at most one call is inside the private validator, and whenever the lock is free the
  signing state is the one of running the finished calls one after the other.\<close>

theorem lock_serializes:
  assumes "(locked_step body)\<^sup>*\<^sup>* (NewLockedPrivValidator s0) l"
  shows "(\<forall>c d. calls l c \<noteq> None \<longrightarrow> calls l d \<noteq> None \<longrightarrow> c = d)
    \<and> (\<not> mu l \<longrightarrow> inner l = run_calls body (finished l) s0)"
  using locked_inv_reach [OF assms] by (auto simp: locked_inv_def split: if_splits)

definition demo_body :: "nat \<Rightarrow> (nat \<Rightarrow> nat) list" where
  "demo_body c = (if c = 0 then [\<lambda>x. x + 1, \<lambda>x. 2 * x] else [\<lambda>x. x + 5])"

definition demo_locked :: "nat locked" where
  "demo_locked = (NewLockedPrivValidator 3)\<lparr>inner := 13, finished := [0, 1]\<rparr>"

lemma demo_locked_reach: "(locked_step demo_body)\<^sup>*\<^sup>* (NewLockedPrivValidator 3) demo_locked"
proof -
  let ?l = "NewLockedPrivValidator 3 :: nat locked" and ?S = "locked_step demo_body"
  have s1: "?S ?l (?l\<lparr>mu := True, calls := [0 \<mapsto> demo_body 0]\<rparr>)"
    using locked_step.Lock [of ?l 0 demo_body] by (simp add: NewLockedPrivValidator_def)
  have s2: "?S (?l\<lparr>mu := True, calls := [0 \<mapsto> demo_body 0]\<rparr>) (?l\<lparr>mu := True, inner := 4, calls := [0 \<mapsto> [\<lambda>x. 2 * x]]\<rparr>)"
    using locked_step.Body [of "?l\<lparr>mu := True, calls := [0 \<mapsto> demo_body 0]\<rparr>" 0 "\<lambda>x. x + 1" "[\<lambda>x. 2 * x]" demo_body]
    by (simp add: NewLockedPrivValidator_def demo_body_def)
  have s3: "?S (?l\<lparr>mu := True, inner := 4, calls := [0 \<mapsto> [\<lambda>x. 2 * x]]\<rparr>) (?l\<lparr>mu := True, inner := 8, calls := [0 \<mapsto> []]\<rparr>)"
    using locked_step.Body [of "?l\<lparr>mu := True, inner := 4, calls := [0 \<mapsto> [\<lambda>x. 2 * x]]\<rparr>" 0 "\<lambda>x. 2 * x" "[]" demo_body]
    by (simp add: NewLockedPrivValidator_def)
  have s4: "?S (?l\<lparr>mu := True, inner := 8, calls := [0 \<mapsto> []]\<rparr>) (?l\<lparr>inner := 8, finished := [0]\<rparr>)"
    using locked_step.Unlock [of "?l\<lparr>mu := True, inner := 8, calls := [0 \<mapsto> []]\<rparr>" 0 demo_body]
    by (simp add: NewLockedPrivValidator_def)
  have s5: "?S (?l\<lparr>inner := 8, finished := [0]\<rparr>) (?l\<lparr>mu := True, inner := 8, calls := [1 \<mapsto> [\<lambda>x. x + 5]], finished := [0]\<rparr>)"
    using locked_step.Lock [of "?l\<lparr>inner := 8, finished := [0]\<rparr>" 1 demo_body]
    by (simp add: NewLockedPrivValidator_def demo_body_def)
  have s6: "?S (?l\<lparr>mu := True, inner := 8, calls := [1 \<mapsto> [\<lambda>x. x + 5]], finished := [0]\<rparr>)
      (?l\<lparr>mu := True, inner := 13, calls := [1 \<mapsto> []], finished := [0]\<rparr>)"
    using locked_step.Body [of "?l\<lparr>mu := True, inner := 8, calls := [1 \<mapsto> [\<lambda>x. x + 5]], finished := [0]\<rparr>" 1 "\<lambda>x. x + 5" "[]" demo_body]
    by (simp add: NewLockedPrivValidator_def)
  have s7: "?S (?l\<lparr>mu := True, inner := 13, calls := [1 \<mapsto> []], finished := [0]\<rparr>) demo_locked"
    using locked_step.Unlock [of "?l\<lparr>mu := True, inner := 13, calls := [1 \<mapsto> []], finished := [0]\<rparr>" 1 demo_body]
    by (simp add: NewLockedPrivValidator_def demo_locked_def)
  from s1 s2 s3 s4 s5 s6 s7 show ?thesis by (meson converse_rtranclp_into_rtranclp rtranclp.rtrancl_refl)
qed

theorem lock_serializes_witness: "inner demo_locked = run_calls demo_body [0, 1] 3"
  using lock_serializes [OF demo_locked_reach] by (simp add: demo_locked_def NewLockedPrivValidator_def)

section \<open>Reconnecting\<close>

fun backoff_after :: "nat \<Rightarrow> int" where
  "backoff_after 0 = minBackoff"
| "backoff_after (Suc n) = min (2 * backoff_after n) maxBackoff"

lemma backoff_after_pow: "backoff_after n = min (2 ^ n * minBackoff) maxBackoff"
  by (induction n) (auto simp: minBackoff_def maxBackoff_def)

lemma dial_loop_fails:
  "dial_loop h cid st (backoff_after k) (replicate n (DialFails, False) @ rs) w =
     (case dial_loop h cid st (backoff_after (k + n)) rs ((st False ^^ n) w) of
        (Panics, w') \<Rightarrow> (Panics, w')
      | (Returns ws, w') \<Rightarrow> (Returns (map (\<lambda>j. backoff_after (k + j)) [0..<n] @ ws), w'))"
proof (induction n arbitrary: k w)
  case (Suc n)
  have step: "(if backoff_after k * 2 > maxBackoff then maxBackoff else backoff_after k * 2) = backoff_after (Suc k)"
    by auto
  have list: "map (\<lambda>j. backoff_after (k + j)) [0..<Suc n] =
      backoff_after k # map (\<lambda>j. backoff_after (Suc k + j)) [0..<n]"
    by (simp add: upt_conv_Cons map_Suc_upt [symmetric] del: upt_Suc)
  show ?case
    using Suc.IH [of "Suc k" "st False w"] step
    by (auto simp: Let_def list funpow_swap1 simp del: backoff_after.simps upt_Suc split: prod.splits go.splits)
qed (auto split: prod.splits go.splits)

lemma dial_loop_waits:
  assumes "dial_loop h cid st b rs w = (Returns ws, w')" and "minBackoff \<le> b" "b \<le> maxBackoff"
  shows "\<forall>x\<in>set ws. reconnectDelay \<le> x \<and> x \<le> maxBackoff"
  using assms
  by (induction h cid st b rs w arbitrary: ws w' rule: dial_loop.induct)
     (auto simp: Let_def minBackoff_def maxBackoff_def reconnectDelay_def
           split: if_splits prod.splits go.splits)

lemma dial_loop_cancel:
  "dial_loop h cid st b (rs @ (x, True) # rest) w = dial_loop h cid st b (rs @ [(x, True)]) w"
proof (induction rs arbitrary: b w)
  case Nil
  then show ?case by (cases x) (auto simp: Let_def split: prod.splits go.splits)
next
  case (Cons r rs)
  obtain y c where "r = (y, c)" by force
  with Cons show ?case by (cases y) (auto simp: Let_def split: prod.splits go.splits)
qed

text \<open>Claim C27: a cancelled context ends the client.  Whatever happened before, no dial, no
  request and no wait follows the round in which the cancellation is seen; and after \<open>n\<close> failed
  dials in a row the next wait is the doubled one, capped at five seconds.\<close>

theorem dial_client_stops:
  "runDialClient h cid st (rs @ (x, True) # rest) w = runDialClient h cid st (rs @ [(x, True)]) w \<and>
   runDialClient h cid None (replicate n (DialFails, False) @ [(DialFails, True)]) w =
     (Returns (map (\<lambda>j. min (2 ^ j * minBackoff) maxBackoff) [0..<Suc n]), w)"
proof -
  have "((\<lambda>w. w) ^^ n) w = w" by (induction n) auto
  moreover have "min minBackoff maxBackoff = minBackoff" by (simp add: minBackoff_def maxBackoff_def)
  ultimately show ?thesis
    using dial_loop_fails [of h cid "\<lambda>_ w. w" 0 n "[(DialFails, True)]" w]
      dial_loop_cancel [of h cid "case st of None \<Rightarrow> \<lambda>_ w. w | Some f \<Rightarrow> f" minBackoff rs x rest w]
    by (simp add: runDialClient_def Let_def backoff_after_pow)
qed

text \<open>The client never waits longer than five seconds nor shorter than 300 milliseconds
  before it dials again, however the connections before ended.\<close>

lemma reconnect_waits_bounded:
  assumes "runDialClient h cid st rs w = (Returns ws, w')"
  shows "list_all (\<lambda>x. 300000000 \<le> x \<and> x \<le> 5000000000) ws"
  using dial_loop_waits [OF assms [unfolded runDialClient_def Let_def]]
  by (simp add: list_all_iff minBackoff_def maxBackoff_def reconnectDelay_def)

end
