(* ===== verification/Privval_Net.thy ===== *)
theory Privval_Net
  imports Privval
begin

text \<open>
  Several consensus nodes connected at the same time: one goroutine per target
  (\<^verbatim>\<open>RunDialClient\<close> of \<^verbatim>\<open>src/consensus/server.go\<close>), sharing the arbiter, the gauges and the
  private validator.  A request is two steps, because the gate (which holds the arbiter's mutex)
  and the handler (which holds the key's mutex) are separate critical sections: another
  connection may act between them.  \<open>net_run\<close> executes a list of events; it is \<open>None\<close> when an
  event is not possible there or ends the process by a panic.
\<close>

section \<open>Connections\<close>

datatype conn_state = Down | Up | Pending time message

record 'pv net =
  shared :: "'pv consensus"
  conns :: "string \<Rightarrow> conn_state"
  handed :: "(string \<times> message) list"

datatype net_event =
    NDialFails string
  | NConnect string
  | NReceive string time message
  | NHandle string
  | NClose string

fun net_step :: "'pv cmt \<Rightarrow> bytes \<Rightarrow> string \<Rightarrow> net_event \<Rightarrow> 'pv net \<Rightarrow> 'pv net option" where
  "net_step C adr cid (NDialFails i) s =
     (if conns s i = Down then Some (s\<lparr>shared := target_state i False (shared s)\<rparr>) else None)"
| "net_step C adr cid (NConnect i) s =
     (if conns s i = Down
      then Some (s\<lparr>shared := target_state i True (shared s), conns := (conns s)(i := Up)\<rparr>) else None)"
| "net_step C adr cid (NReceive i t m) s =
     (if conns s i = Up then
        (case gate i t m (shared s) of
           (Inl Panics, w) \<Rightarrow> None
         | (Inl (Returns res), w) \<Rightarrow> Some (s\<lparr>shared := w\<rparr>)
         | (Inr _, w) \<Rightarrow> Some (s\<lparr>shared := w, conns := (conns s)(i := Pending t m)\<rparr>))
      else None)"
| "net_step C adr cid (NHandle i) s =
     (case conns s i of
        Pending t m \<Rightarrow>
          (case plain_handler C adr t m cid (shared s) of
             (Panics, w) \<Rightarrow> None
           | (Returns res, w) \<Rightarrow>
               Some (s\<lparr>shared := w, conns := (conns s)(i := Up),
                       handed := handed s @ (if request_refusal C adr m = None then [(i, m)] else [])\<rparr>))
      | _ \<Rightarrow> None)"
| "net_step C adr cid (NClose i) s =
     (if conns s i = Up
      then Some (s\<lparr>shared := target_state i False (shared s), conns := (conns s)(i := Down)\<rparr>) else None)"

fun net_run :: "'pv cmt \<Rightarrow> bytes \<Rightarrow> string \<Rightarrow> net_event list \<Rightarrow> 'pv net \<Rightarrow> 'pv net option" where
  "net_run C adr cid [] s = Some s"
| "net_run C adr cid (e # es) s =
     (case net_step C adr cid e s of None \<Rightarrow> None | Some s' \<Rightarrow> net_run C adr cid es s')"

definition net_start :: "'pv consensus \<Rightarrow> 'pv net" where
  "net_start w = \<lparr>shared = w, conns = (\<lambda>_. Down), handed = []\<rparr>"

text \<open>What the events are for the arbiter.\<close>

fun arb_of :: "net_event \<Rightarrow> arb_event list" where
  "arb_of (NDialFails i) = [Rel i]"
| "arb_of (NClose i) = [Rel i]"
| "arb_of (NReceive i t m) = (case sign_height m of None \<Rightarrow> [] | Some h \<Rightarrow> [Req i h t])"
| "arb_of _ = []"

abbreviation arb_trace :: "net_event list \<Rightarrow> arb_event list" where
  "arb_trace es \<equiv> concat (map arb_of es)"

section \<open>Grants and requests\<close>

lemma lease_grants_append:
  "arb_grants (es @ fs) a = arb_grants es a @ arb_grants fs (arb_final es a)"
proof (induction es arbitrary: a)
  case (Cons e es)
  then show ?case by (cases e) (auto split: prod.splits bool.splits)
qed simp

lemma lease_final_append: "arb_final (es @ fs) a = arb_final fs (arb_final es a)"
  by (induction es arbitrary: a) auto

text \<open>
  After the arbiter events \<open>tr\<close> from arbiter \<open>a\<close>: the arbiter is where these events lead, every
  request in the hands of a handler was granted, every request handed on was also valid.
\<close>

definition granted :: "PrimaryArbiter \<Rightarrow> arb_event list \<Rightarrow> string \<Rightarrow> message \<Rightarrow> bool" where
  "granted a tr i m \<longleftrightarrow>
     (case sign_height m of None \<Rightarrow> True | Some h \<Rightarrow> \<exists>t. (i, h, t) \<in> set (arb_grants tr a))"

definition net_inv :: "'pv cmt \<Rightarrow> bytes \<Rightarrow> PrimaryArbiter \<Rightarrow> arb_event list \<Rightarrow> 'pv net \<Rightarrow> bool" where
  "net_inv C adr a tr s \<longleftrightarrow>
     arbiter (shared s) = Some (arb_final tr a)
   \<and> (\<forall>i t m. conns s i = Pending t m \<longrightarrow> granted a tr i m)
   \<and> (\<forall>(i, m)\<in>set (handed s). granted a tr i m \<and> valid_request C adr m)"

lemma granted_mono: "granted a tr i m \<Longrightarrow> granted a (tr @ more') i m"
  by (auto simp: granted_def lease_grants_append split: option.splits)

lemma net_inv_shared:
  assumes "net_inv C adr a tr s" and "arbiter w = Some (arb_final (tr @ tr') a)"
  shows "net_inv C adr a (tr @ tr') (s\<lparr>shared := w\<rparr>)"
  using assms granted_mono [of a tr _ _ tr'] unfolding net_inv_def by auto

lemma net_inv_conn:
  assumes "net_inv C adr a tr s" and "\<And>t m. c = Pending t m \<Longrightarrow> granted a tr i m"
  shows "net_inv C adr a tr (s\<lparr>conns := (conns s)(i := c)\<rparr>)"
  using assms unfolding net_inv_def by simp

lemma arb_grants_one: "fst (Acquire a i h t) \<Longrightarrow> arb_grants [Req i h t] a = [(i, h, t)]"
  by (cases "Acquire a i h t") simp

lemma net_inv_stop:
  assumes inv: "net_inv C adr a tr s" and g: "gate i t m (shared s) = (Inl (Returns res), w)"
  shows "net_inv C adr a (tr @ arb_of (NReceive i t m)) (s\<lparr>shared := w\<rparr>)"
proof -
  let ?a = "arb_final tr a"
  have "arbiter (shared s) = Some ?a" using inv by (simp add: net_inv_def)
  from gate_stop [OF g this] obtain h where "sign_height m = Some h"
      and w: "w = shared s\<lparr>arbiter := Some (snd (Acquire ?a i h t))\<rparr>"
    by blast
  then show ?thesis by (intro net_inv_shared [OF inv]) (simp add: lease_final_append)
qed

lemma net_inv_go:
  assumes inv: "net_inv C adr a tr s" and g: "gate i t m (shared s) = (Inr (), w)"
  shows "net_inv C adr a (tr @ arb_of (NReceive i t m)) (s\<lparr>shared := w, conns := (conns s)(i := Pending t m)\<rparr>)"
proof -
  let ?a = "arb_final tr a" and ?tr = "tr @ arb_of (NReceive i t m)"
  have arb: "arbiter (shared s) = Some ?a" using inv by (simp add: net_inv_def)
  have "arbiter w = Some (arb_final ?tr a) \<and> granted a ?tr i m"
  proof (cases "sign_height m")
    case None
    with gate_go [OF g arb] arb show ?thesis by (simp add: granted_def)
  next
    case (Some h)
    with gate_go [OF g arb] have "fst (Acquire ?a i h t)" "arbiter w = Some (snd (Acquire ?a i h t))" by simp_all
    with Some show ?thesis
      by (auto simp: granted_def lease_final_append lease_grants_append arb_grants_one simp del: lease_grants.simps)
  qed
  then show ?thesis
    using net_inv_conn [OF net_inv_shared [OF inv, of w "arb_of (NReceive i t m)"], of "Pending t m" i] by simp
qed

lemma net_inv_receive:
  assumes inv: "net_inv C adr a tr s" and step: "net_step C adr cid (NReceive i t m) s = Some s'"
  shows "net_inv C adr a (tr @ arb_of (NReceive i t m)) s'"
proof (cases "gate i t m (shared s)")
  case (Pair r w)
  then show ?thesis
    using step net_inv_stop [OF inv, of i t m _ w] net_inv_go [OF inv, of i t m w]
    by (auto simp del: arb_of.simps split: if_splits sum.splits go.splits)
qed

lemma net_inv_release:
  "net_inv C adr a tr s \<Longrightarrow> net_inv C adr a (tr @ [Rel i]) (s\<lparr>shared := target_state i False (shared s)\<rparr>)"
  by (intro net_inv_shared) (auto simp: target_state_arbiter lease_final_append net_inv_def)

lemma net_inv_step:
  assumes inv: "net_inv C adr a tr s" and step: "net_step C adr cid e s = Some s'"
  shows "net_inv C adr a (tr @ arb_of e) s'"
proof (cases e)
  case (NReceive i t m)
  with assms show ?thesis using net_inv_receive by blast
next
  case (NHandle i)
  from step obtain t m where p: "conns s i = Pending t m" unfolding NHandle by (auto split: conn_state.splits)
  obtain r w where h: "plain_handler C adr t m cid (shared s) = (r, w)" by force
  with step NHandle p have s': "s' = s\<lparr>shared := w, conns := (conns s)(i := Up),
      handed := handed s @ (if request_refusal C adr m = None then [(i, m)] else [])\<rparr>"
    by (auto split: go.splits)
  have "arbiter w = arbiter (shared s)" using plain_handler_frame(1) [of C adr t m cid "shared s"] h by simp
  with inv p show ?thesis
    unfolding s' net_inv_def NHandle using refusal_iff [of C adr m] by (auto split: if_splits)
next
  case (NDialFails i)
  then have s': "s' = s\<lparr>shared := target_state i False (shared s)\<rparr>" using step by (auto split: if_splits)
  from net_inv_release [OF inv] show ?thesis unfolding s' NDialFails by simp
next
  case (NConnect i)
  then have s': "s' = s\<lparr>shared := target_state i True (shared s), conns := (conns s)(i := Up)\<rparr>"
    using step by (auto split: if_splits)
  have "net_inv C adr a (tr @ []) (s\<lparr>shared := target_state i True (shared s)\<rparr>)"
    using inv by (intro net_inv_shared) (auto simp: target_state_arbiter net_inv_def)
  from net_inv_conn [OF this, of Up i] show ?thesis unfolding s' NConnect by simp
next
  case (NClose i)
  then have s': "s' = s\<lparr>shared := target_state i False (shared s), conns := (conns s)(i := Down)\<rparr>"
    using step by (auto split: if_splits)
  from net_inv_conn [OF net_inv_release [OF inv], of Down i] show ?thesis unfolding s' NClose by simp
qed

lemma net_inv_run:
  "net_run C adr cid es s = Some s' \<Longrightarrow> net_inv C adr a tr s \<Longrightarrow> net_inv C adr a (tr @ arb_trace es) s'"
proof (induction es arbitrary: s tr)
  case (Cons e es)
  then obtain s1 where "net_step C adr cid e s = Some s1" "net_run C adr cid es s1 = Some s'"
    by (auto split: option.splits)
  with Cons net_inv_step show ?case by fastforce
qed simp

lemma net_inv_start:
  assumes "arbiter w = Some a" "\<And>i. conns s i \<in> {Down, Up}" "handed s = []" "shared s = w"
  shows "net_inv C adr a [] s"
  unfolding net_inv_def using assms by (metis conn_state.distinct(3,5) empty_iff insertE lease_final.simps(1) list.set(1))

section \<open>Properties\<close>

text \<open>Claim C7: active-passive consensus signing.  With several nodes connected and their requests
  interleaved in any way, the private validator only ever gets valid requests, and as long as the
  elected node keeps its lease (it asks within the timeout, its connection stays up, no preferred
  node has caught up) the only votes and proposals it gets are the elected node's.\<close>

theorem standby_never_signs:
  assumes "net_run C adr cid es s = Some s'"
    and "arbiter (shared s) = Some a" "primary a \<noteq> ''''" "\<And>i. conns s i \<in> {Down, Up}" "handed s = []"
    and "kept (timeout a) (primary a) (lastReq a) (arb_trace es)" "list_all (held_off a) (arb_trace es)"
  shows "\<forall>(i, m)\<in>set (handed s'). valid_request C adr m \<and> (sign_height m \<noteq> None \<longrightarrow> i = primary a)"
proof -
  have inv: "net_inv C adr a (arb_trace es) s'"
    using net_inv_run [OF assms(1) net_inv_start] assms(2,4,5) by (metis append_Nil)
  have "\<forall>g\<in>set (arb_grants (arb_trace es) a). fst g = primary a"
    using arb.holder_keeps [OF refl assms(3) kept_undisturbed [OF assms(3,6,7)]] by blast
  then have "granted a (arb_trace es) i m \<Longrightarrow> sign_height m \<noteq> None \<Longrightarrow> i = primary a" for i m
    by (force simp: granted_def)
  with inv show ?thesis unfolding net_inv_def by fast
qed

definition demo_net :: "nat net" where
  "demo_net = (net_start demo_consensus)\<lparr>conns := (\<lambda>_. Up)\<rparr>"

definition demo_events :: "net_event list" where
  "demo_events =
     [NReceive ''n1'' 105 (SignVoteRequest (Some (demo_vote 6)) ''layer''),
      NReceive ''n2'' 108 (SignVoteRequest (Some (demo_vote 7)) ''layer''),
      NReceive ''n3'' 109 (SignVoteRequest (Some (demo_vote 9)) ''layer''),
      NHandle ''n2'']"

lemma demo_arbiter_eq:
  "demo_arbiter = \<lparr>timeout = 10, rank = [(''n2'', 1), (''n1'', 0)], primary = ''n2'', lastReq = 100, maxHeight = 7\<rparr>"
  by (simp add: demo_arbiter_def NewPreferringPrimaryArbiter_def)

lemma demo_valid:
  "valid_request demo_cmt demo_addr (SignVoteRequest (Some (demo_vote h\<lparr>vType := t\<rparr>)) ''layer'') \<longleftrightarrow>
     0 < h \<and> (t = 1 \<or> t = 2)"
  "valid_request demo_cmt demo_addr (SignVoteRequest (Some (demo_vote h)) ''layer'') \<longleftrightarrow> 0 < h"
  by (auto simp: valid_chain_def valid_vote_def demo_cmt_def demo_vote_def zero_vote_def zero_block_def demo_addr_def)

lemma demo_vote_height [simp]: "vHeight (demo_vote h) = h"
  by (simp add: demo_vote_def)

lemma demo_net_simps [simp]:
  "shared demo_net = demo_consensus" "conns demo_net i = Up" "handed demo_net = []"
  "arbiter demo_consensus = Some demo_arbiter" "pval demo_consensus = 0" "primary demo_arbiter = ''n2''"
  by (simp_all add: demo_net_def net_start_def demo_consensus_def demo_arbiter_def)

lemma demo_handler: "\<exists>r pv'. DefaultHandler demo_cmt pv m cid = (Returns r, pv')"
  by (simp add: demo_cmt_def)

lemma demo_net_run:
  "\<exists>s'. net_run demo_cmt demo_addr ''layer'' demo_events demo_net = Some s' \<and>
        handed s' = [(''n2'', SignVoteRequest (Some (demo_vote 7)) ''layer'')]"
proof -
  have "request_refusal demo_cmt demo_addr (SignVoteRequest (Some (demo_vote 7)) ''layer'') = None"
    using demo_valid(2) [of 7] refusal_iff by fastforce
  moreover obtain r pv' where "DefaultHandler demo_cmt 0 (SignVoteRequest (Some (demo_vote 7)) ''layer'') ''layer'' = (Returns r, pv')"
    using demo_handler by blast
  ultimately show ?thesis
    by (simp add: demo_events_def gate_def Acquire_def outranks_def demo_arbiter_eq time_sub_def grant_def
        plain_handler_def ValidationRequestHandler_def)
qed

theorem standby_never_signs_witness:
  "\<exists>s'. net_run demo_cmt demo_addr ''layer'' demo_events demo_net = Some s' \<and> handed s' \<noteq> [] \<and>
        list_all (\<lambda>(i, m). i = ''n2'') (handed s')"
proof -
  obtain s' where s': "net_run demo_cmt demo_addr ''layer'' demo_events demo_net = Some s'"
      "handed s' = [(''n2'', SignVoteRequest (Some (demo_vote 7)) ''layer'')]"
    using demo_net_run by blast
  have "\<forall>(i, m)\<in>set (handed s'). valid_request demo_cmt demo_addr m \<and> (sign_height m \<noteq> None \<longrightarrow> i = primary demo_arbiter)"
    by (rule standby_never_signs [OF s'(1)])
       (simp_all add: demo_events_def demo_arbiter_eq held_off_def outranks_def time_sub_def)
  with s' show ?thesis by simp
qed

text \<open>Claim C26: losing its connection costs the elected node the role at once.  After the close of
  its connection the next valid vote of any other connected node takes the role and is handed to the
  private validator, whatever the time and whatever the height: the arbiter does not hold it off.
  Whether it is signed is then up to the private validator, whose state becomes the one its handler
  leaves; it may still refuse a vote below the height it has signed.\<close>

theorem failover_after_disconnect:
  assumes "arbiter (shared s) = Some a" "conns s (primary a) = Up" "conns s j = Up" "j \<noteq> primary a"
    and "valid_request C adr (SignVoteRequest (Some v) vcid)"
    and "\<And>pv. \<exists>r pv'. DefaultHandler C pv (SignVoteRequest (Some v) vcid) cid = (Returns r, pv')"
  shows "\<exists>s'. net_run C adr cid [NClose (primary a), NReceive j t (SignVoteRequest (Some v) vcid), NHandle j] s = Some s'
    \<and> (\<exists>a'. arbiter (shared s') = Some a' \<and> primary a' = j)
    \<and> handed s' = handed s @ [(j, SignVoteRequest (Some v) vcid)]
    \<and> pval (shared s') = snd (DefaultHandler C (pval (shared s)) (SignVoteRequest (Some v) vcid) cid)"
proof -
  let ?m = "SignVoteRequest (Some v) vcid" and ?w = "target_state (primary a) False (shared s)"
  let ?a = "a\<lparr>primary := '''', lastReq := 0\<rparr>"
  let ?w' = "?w\<lparr>arbiter := Some (grant (?a\<lparr>primary := j, lastReq := t\<rparr>) (vHeight v)), gauges := RecordSign j (gauges ?w)\<rparr>"
  have "arbiter ?w = Some ?a" using assms(1) by (simp add: target_state_arbiter Release_def)
  then have gate: "gate j t ?m ?w = (Inr (), ?w')"
    by (simp add: gate_def Acquire_def)
  obtain r pv' where hd: "DefaultHandler C (pval (shared s)) ?m cid = (Returns r, pv')" using assms(6) by blast
  then have "plain_handler C adr t ?m cid ?w' = (Returns r, ?w'\<lparr>pval := pv'\<rparr>)"
    using assms(5) refusal_iff [of C adr ?m] by (simp add: plain_handler_def ValidationRequestHandler_def)
  moreover have "request_refusal C adr ?m = None" using assms(5) refusal_iff [of C adr ?m] by blast
  ultimately show ?thesis using assms(2-4) gate hd by simp
qed

theorem failover_after_disconnect_witness:
  "\<exists>s'. net_run demo_cmt demo_addr ''layer''
      [NClose ''n2'', NReceive ''n3'' 101 (SignVoteRequest (Some (demo_vote 8)) ''layer''), NHandle ''n3''] demo_net = Some s'
    \<and> handed s' = [(''n3'', SignVoteRequest (Some (demo_vote 8)) ''layer'')]
    \<and> pval (shared s') = snd (DefaultHandler demo_cmt (pval (shared demo_net)) (SignVoteRequest (Some (demo_vote 8)) ''layer'') ''layer'')"
  using failover_after_disconnect [of demo_net demo_arbiter "''n3''" demo_cmt demo_addr "demo_vote 8" "''layer''" "''layer''" 101]
    demo_valid(2) [of 8] demo_handler by fastforce

text \<open>The gate moves the arbiter before the request is validated.  A vote of the elected
  node that the handler refuses, of an invalid type say, signs nothing but raises the height
  mark, so that a preferred node that comes back with honest requests below that height is refused
  as not caught up.\<close>

theorem refused_request_blocks_failback:
  assumes "arbiter (shared s) = Some a" "primary a \<noteq> ''''" "conns s (primary a) = Up" "conns s j = Up" "j \<noteq> primary a"
    and "\<not> valid_request C adr (SignVoteRequest (Some v) vcid)" "maxHeight a \<le> vHeight v"
    and "sign_height m = Some h" "h < vHeight v" "time_sub t' t \<le> timeout a"
  shows "\<exists>s'. net_run C adr cid
        [NReceive (primary a) t (SignVoteRequest (Some v) vcid), NHandle (primary a), NReceive j t' m] s = Some s'
    \<and> pval (shared s') = pval (shared s) \<and> handed s' = handed s \<and> conns s' j = Up
    \<and> (\<exists>a'. arbiter (shared s') = Some a' \<and> primary a' = primary a \<and> maxHeight a' = vHeight v)"
proof -
  let ?m = "SignVoteRequest (Some v) vcid" and ?p = "primary a" and ?a = "grant (a\<lparr>lastReq := t\<rparr>) (vHeight v)"
  let ?w = "(shared s)\<lparr>arbiter := Some ?a, gauges := RecordSign ?p (gauges (shared s))\<rparr>"
  have gate: "gate ?p t ?m (shared s) = (Inr (), ?w)" using assms(1) by (simp add: gate_def Acquire_def)
  obtain res e where ref: "request_refusal C adr ?m = Some (Returns (res, Some e))"
    using assms(6) refusal_iff [of C adr ?m] refusal_reports [of C adr ?m] by (metis option.exhaust)
  then have h: "plain_handler C adr t ?m cid ?w = (Returns (res, Some e), ?w)"
    by (simp add: plain_handler_def ValidationRequestHandler_def)
  have acq: "Acquire ?a j h t' = (False, ?a)"
    using assms(2,5,7,9,10) by (simp add: Acquire_def)
  have "\<not> nil_payload m" using assms(8) by (auto simp: nil_payload_def)
  then obtain res' where "gate j t' m ?w = (Inl (Returns res'), ?w)"
    using assms(8) acq by (simp add: gate_def notPrimaryResponse_cases)
  then have "net_run C adr cid [NReceive ?p t ?m, NHandle ?p, NReceive j t' m] s =
      Some (s\<lparr>shared := ?w, conns := (conns s)(?p := Up)\<rparr>)"
    using assms(3-5) gate h ref by simp
  then show ?thesis using assms(4,7) by simp
qed

theorem refused_request_blocks_failback_witness:
  "\<exists>s'. net_run demo_cmt demo_addr ''layer''
      [NReceive ''n2'' 105 (SignVoteRequest (Some (demo_vote 900\<lparr>vType := 77\<rparr>)) ''layer''), NHandle ''n2'',
       NReceive ''n1'' 106 (SignVoteRequest (Some (demo_vote 8)) ''layer'')] demo_net = Some s'
    \<and> pval (shared s') = 0 \<and> (\<exists>a'. arbiter (shared s') = Some a' \<and> primary a' = ''n2'' \<and> maxHeight a' = 900)"
proof -
  let ?v = "demo_vote 900\<lparr>vType := 77\<rparr>"
  have bad: "\<not> valid_request demo_cmt demo_addr (SignVoteRequest (Some ?v) ''layer'')"
    unfolding demo_valid by simp
  have h: "vHeight ?v = 900" by simp
  have "\<exists>s'. net_run demo_cmt demo_addr ''layer''
      [NReceive (primary demo_arbiter) 105 (SignVoteRequest (Some ?v) ''layer''), NHandle (primary demo_arbiter),
       NReceive ''n1'' 106 (SignVoteRequest (Some (demo_vote 8)) ''layer'')] demo_net = Some s'
    \<and> pval (shared s') = pval (shared demo_net) \<and> handed s' = handed demo_net \<and> conns s' ''n1'' = Up
    \<and> (\<exists>a'. arbiter (shared s') = Some a' \<and> primary a' = primary demo_arbiter \<and> maxHeight a' = vHeight ?v)"
    by (rule refused_request_blocks_failback [where h = 8, OF _ _ _ _ _ bad])
       (simp_all add: demo_arbiter_eq time_sub_def)
  then show ?thesis unfolding demo_net_simps h by blast
qed

text \<open>A request of \<open>i\<close> with no other connection in between.\<close>

definition net_request ::
    "'pv cmt \<Rightarrow> bytes \<Rightarrow> string \<Rightarrow> string \<Rightarrow> time \<Rightarrow> message \<Rightarrow> 'pv net \<Rightarrow> 'pv net option" where
  "net_request C adr cid i t m s =
     (case net_step C adr cid (NReceive i t m) s of
        None \<Rightarrow> None
      | Some s1 \<Rightarrow> if conns s1 i = Up then Some s1 else net_step C adr cid (NHandle i) s1)"

text \<open>The two steps of a request, run without another connection in between, are the
  gated handler the code installs: same effect on arbiter, gauges and signing state, and a panic
  exactly when the handler panics.\<close>

theorem net_refines_handler:
  "map_option shared (net_request C adr cid i t m (s\<lparr>conns := (conns s)(i := Up)\<rparr>)) =
     (case gatedHandler i (plain_handler C adr) t m cid (shared s) of
        (Panics, w) \<Rightarrow> None
      | (Returns r, w) \<Rightarrow> Some w)"
  by (cases "gate i t m (shared s)")
     (auto simp: gatedHandler_def net_request_def split: sum.splits go.splits prod.splits)

end
