(* ===== verification/Attestation.thy ===== *)
theory Attestation
  imports Bridge_Checkpoint
begin

text \<open>
  The oracle attestation encoder (\<^verbatim>\<open>src/server/attestation.go\<close>) and the fixed registration
  messages (\<^verbatim>\<open>src/server/initial.go\<close>), with the lemmas that each encoding determines its inputs
  and that the two kinds of preimage never have the same length.
\<close>

definition oracleAttestationDomainSeparator :: bytes where
  "oracleAttestationDomainSeparator = bytes_of ''tellorCurrentAttestation''"

record attestation =
  a_queryId :: bytes
  a_value :: bytes
  a_timestamp :: u64
  a_aggregatePower :: u64
  a_previousTimestamp :: u64
  a_nextTimestamp :: u64
  a_valsetCheckpoint :: bytes
  a_attestationTimestamp :: u64
  a_lastConsensusTimestamp :: u64

text \<open>The ten arguments of \<^verbatim>\<open>arguments.Pack\<close>.\<close>

definition attestation_args :: "attestation \<Rightarrow> abi_value list" where
  "attestation_args a =
     [ABytes32 (copy_into 32 oracleAttestationDomainSeparator),
      ABytes32 (copy_into 32 (a_queryId a)),
      ABytes (a_value a),
      AUint (unat (a_timestamp a)),
      AUint (unat (a_aggregatePower a)),
      AUint (unat (a_previousTimestamp a)),
      AUint (unat (a_nextTimestamp a)),
      ABytes32 (copy_into 32 (a_valsetCheckpoint a)),
      AUint (unat (a_attestationTimestamp a)),
      AUint (unat (a_lastConsensusTimestamp a))]"

definition encodeOracleAttestation :: "'ty eth_lib \<Rightarrow> attestation \<Rightarrow> encode_error + bytes" where
  "encodeOracleAttestation L a =
     (case newType L ''bytes32'' of
        Inl e \<Rightarrow> Inl (AbiTypeErr ''bytes32'' e)
      | Inr bytes32Type \<Rightarrow>
          (case newType L ''uint256'' of
             Inl e \<Rightarrow> Inl (AbiTypeErr ''uint256'' e)
           | Inr uint256Type \<Rightarrow>
               (case newType L ''bytes'' of
                  Inl e \<Rightarrow> Inl (AbiTypeErr ''bytes'' e)
                | Inr bytesType \<Rightarrow>
                    (case pack L
                            [bytes32Type, bytes32Type, bytesType, uint256Type, uint256Type, uint256Type,
                             uint256Type, bytes32Type, uint256Type, uint256Type]
                            (attestation_args a) of
                       Inl e \<Rightarrow> Inl (PackErr e)
                     | Inr encodedData \<Rightarrow> Inr (keccak256 L encodedData)))))"

definition initialRegistrationMessages :: "string \<Rightarrow> string \<times> string" where
  "initialRegistrationMessages operatorAddress =
     (''TellorLayer: Initial bridge signature A for operator '' @ operatorAddress,
      ''TellorLayer: Initial bridge signature B for operator '' @ operatorAddress)"

definition initialSigningDigest :: "string \<Rightarrow> bytes" where
  "initialSigningDigest message = sha256 (sha256 (bytes_of message))"

section \<open>The encoding\<close>

lemma encodeOracleAttestation_ok:
  assumes L: "eth_lib_spec L" and v: "length (a_value a) < 256 ^ 32"
  shows "encodeOracleAttestation L a = Inr (keccak256 L (abi_encode (attestation_args a)))"
proof -
  obtain tb where b: "newType L ''bytes32'' = Inr tb"
    by (rule eth_newType [OF L, of "''bytes32''"]) (simp_all add: abi_types_def)
  obtain tu where u: "newType L ''uint256'' = Inr tu"
    by (rule eth_newType [OF L, of "''uint256''"]) (simp_all add: abi_types_def)
  obtain ty where y: "newType L ''bytes'' = Inr ty"
    by (rule eth_newType [OF L, of "''bytes''"]) (simp_all add: abi_types_def)
  have "pack L [tb, tb, ty, tu, tu, tu, tu, tb, tu, tu] (attestation_args a) = Inr (abi_encode (attestation_args a))"
    by (rule eth_pack [OF L]) (use v in \<open>simp_all add: attestation_args_def b u y u64_fits_word [simplified]\<close>)
  then show ?thesis by (simp add: encodeOracleAttestation_def b u y)
qed

text \<open>Ten head words, then the length and the padded bytes of the value.\<close>

lemma attestation_preimage:
  "abi_encode (attestation_args a) =
     copy_into 32 oracleAttestationDomainSeparator @ copy_into 32 (a_queryId a) @ be 32 320 @
     be 32 (unat (a_timestamp a)) @ be 32 (unat (a_aggregatePower a)) @
     be 32 (unat (a_previousTimestamp a)) @ be 32 (unat (a_nextTimestamp a)) @
     copy_into 32 (a_valsetCheckpoint a) @ be 32 (unat (a_attestationTimestamp a)) @
     be 32 (unat (a_lastConsensusTimestamp a)) @ be 32 (length (a_value a)) @ pad32 (a_value a)"
  by (simp add: attestation_args_def abi_encode_def)

lemma pad32_inject: "length a = length b \<Longrightarrow> pad32 a = pad32 b \<longleftrightarrow> a = b"
  by (simp add: pad32_def)

lemma attestation_preimage_length: "352 \<le> length (abi_encode (attestation_args a))"
  by (simp add: attestation_preimage len_simps)

text \<open>
  Two attestations with the same encoding agree on every field; the query id up to the zero
  bytes it is padded with.
\<close>

definition same_attestation :: "attestation \<Rightarrow> attestation \<Rightarrow> bool" where
  "same_attestation a b \<longleftrightarrow>
     copy_into 32 (a_queryId a) = copy_into 32 (a_queryId b) \<and> a_value a = a_value b
   \<and> a_timestamp a = a_timestamp b \<and> a_aggregatePower a = a_aggregatePower b
   \<and> a_previousTimestamp a = a_previousTimestamp b \<and> a_nextTimestamp a = a_nextTimestamp b
   \<and> copy_into 32 (a_valsetCheckpoint a) = copy_into 32 (a_valsetCheckpoint b)
   \<and> a_attestationTimestamp a = a_attestationTimestamp b
   \<and> a_lastConsensusTimestamp a = a_lastConsensusTimestamp b"

lemma attestation_preimage_inject:
  assumes "length (a_value a) < 256 ^ 32" "length (a_value b) < 256 ^ 32"
  shows "abi_encode (attestation_args a) = abi_encode (attestation_args b) \<longleftrightarrow> same_attestation a b"
proof -
  have "be 32 (length (a_value a)) = be 32 (length (a_value b)) \<and> pad32 (a_value a) = pad32 (a_value b)
    \<longleftrightarrow> a_value a = a_value b"
    using assms be32_inject pad32_inject by metis
  then show ?thesis
    by (simp add: attestation_preimage same_attestation_def u64_be32_inject del: be.simps) blast
qed

text \<open>A checkpoint and an attestation never hash the same bytes.\<close>

lemma checkpoint_not_attestation:
  assumes "length d = 32" "length h = 32"
  shows "checkpoint_preimage d thr ts h \<noteq> abi_encode (attestation_args a)"
  using assms attestation_preimage_length [of a] length_checkpoint_preimage [of d h thr ts] by auto

text \<open>The two registration messages differ, and each determines the operator address.\<close>

lemma initialRegistrationMessages_distinct:
  "fst (initialRegistrationMessages op) \<noteq> snd (initialRegistrationMessages op')"
  by (simp add: initialRegistrationMessages_def)

lemma initialRegistrationMessages_inject:
  "initialRegistrationMessages op = initialRegistrationMessages op' \<longleftrightarrow> op = op'"
  by (simp add: initialRegistrationMessages_def)

lemma initialRegistrationMessages_length:
  "length (fst (initialRegistrationMessages op)) = 53 + length op"
  "length (snd (initialRegistrationMessages op)) = 53 + length op"
  by (simp_all add: initialRegistrationMessages_def)

end
