(* ===== verification/Bridge_Server.thy ===== *)
theory Bridge_Server
  imports Rpc Attestation
begin

text \<open>
  The signing server (\<^verbatim>\<open>src/server/server.go\<close>): construction and the nine RPC handlers.

  What the server calls outside the repository is the record \<open>env\<close>: go-ethereum, the Cosmos
  address and transaction codecs, and the signing backend behind the \<^verbatim>\<open>signer.Signer\<close>
  interface.  The backend is any function of the number of calls before and the digest, so it
  may fail, panic or return anything, and differently on every call.

  The \<open>world\<close> is what outlives a process: the file system and the log of the digests that were
  handed to the backend.  A handler takes the server and the world and returns them updated.
\<close>

section \<open>State\<close>

record 'ty env =
  eth :: "'ty eth_lib"
  decompressPubkey :: "bytes \<Rightarrow> string + bytes"
  pubkeyToAddress :: "bytes \<Rightarrow> bytes"
  cosmosAddress :: "bytes \<Rightarrow> bytes"
  bech32Encode :: "string \<Rightarrow> bytes \<Rightarrow> string + string"
  bech32Decode :: "string \<Rightarrow> string + (string \<times> bytes)"
  signDocUnmarshal :: "bytes \<Rightarrow> string + bytes"
  txBodyUnmarshal :: "bytes \<Rightarrow> string + string list"
  backendPublicKey :: "nat \<Rightarrow> string + bytes"
  backendSignRaw :: "nat \<Rightarrow> bytes \<Rightarrow> (string + bytes) go"

record world =
  w_os :: os
  sign_log :: "bytes list"
  pub_calls :: nat

record Server =
  allowedMsgTypes :: "string set"
  chainID :: string
  selfEVMAddr :: bytes
  selfCosmosAddr :: bytes
  checkpointGuard :: checkpointReplayGuard
  enabledRPCs :: "string \<rightharpoonup> bool"

record Config =
  AllowedMsgTypes :: "string list"
  ConfigChainID :: string
  CheckpointGuardStatePath :: string
  EnabledRPCs :: "string \<rightharpoonup> bool"

type_synonym state = "Server \<times> world"

datatype new_error =
    NewPubKey string
  | NewDecompress string
  | NewGuard guard_error

section \<open>Calls of the backend\<close>

definition get_public_key :: "'ty env \<Rightarrow> world \<Rightarrow> (string + bytes) \<times> world" where
  "get_public_key E w = (backendPublicKey E (pub_calls w), w\<lparr>pub_calls := Suc (pub_calls w)\<rparr>)"

definition sign_raw :: "'ty env \<Rightarrow> bytes \<Rightarrow> world \<Rightarrow> (string + bytes) go \<times> world" where
  "sign_raw E digest w =
     (backendSignRaw E (length (sign_log w)) digest, w\<lparr>sign_log := sign_log w @ [digest]\<rparr>)"

section \<open>Construction\<close>

definition New :: "'ty env \<Rightarrow> Config \<Rightarrow> world \<Rightarrow> (new_error + Server) \<times> world" where
  "New E cfg w =
     (case get_public_key E w of
        (Inl e, w1) \<Rightarrow> (Inl (NewPubKey e), w1)
      | (Inr pubKey, w1) \<Rightarrow>
          (case decompressPubkey E pubKey of
             Inl e \<Rightarrow> (Inl (NewDecompress e), w1)
           | Inr ecdsaPub \<Rightarrow>
               (case newCheckpointReplayGuard (CheckpointGuardStatePath cfg) (w_os w1) of
                  (Inl e, o2) \<Rightarrow> (Inl (NewGuard e), w1\<lparr>w_os := o2\<rparr>)
                | (Inr guard, o2) \<Rightarrow>
                    (Inr \<lparr>allowedMsgTypes = set (AllowedMsgTypes cfg),
                          chainID = ConfigChainID cfg,
                          selfEVMAddr = pubkeyToAddress E ecdsaPub,
                          selfCosmosAddr = cosmosAddress E pubKey,
                          checkpointGuard = guard,
                          enabledRPCs = EnabledRPCs cfg\<rparr>,
                     w1\<lparr>w_os := o2\<rparr>))))"

section \<open>Simple handlers\<close>

text \<open>\<^verbatim>\<open>signer.Bech32Address\<close> (\<^verbatim>\<open>src/signer/address.go\<close>).\<close>

definition Bech32Address :: "'ty env \<Rightarrow> string \<Rightarrow> world \<Rightarrow> (address_error + string) \<times> world" where
  "Bech32Address E prefix w =
     (if prefix = '''' then (Inl PrefixEmpty, w)
      else case get_public_key E w of
             (Inl e, w1) \<Rightarrow> (Inl (PubKeyErr e), w1)
           | (Inr pubKey, w1) \<Rightarrow>
               if length pubKey \<noteq> 33 then (Inl (PubKeyLength (length pubKey)), w1)
               else (case bech32Encode E prefix (cosmosAddress E pubKey) of
                       Inl e \<Rightarrow> (Inl (Bech32Err e), w1)
                     | Inr addr \<Rightarrow> (Inr addr, w1)))"

definition Sign :: "state \<Rightarrow> response result \<times> state" where
  "Sign st = (Returns (Inl (Status Unimplemented BlindSigningDisabled)), st)"

definition SignRaw :: "state \<Rightarrow> response result \<times> state" where
  "SignRaw st = (Returns (Inl (Status Unimplemented BlindSigningDisabled)), st)"

definition GetPublicKey :: "'ty env \<Rightarrow> state \<Rightarrow> response result \<times> state" where
  "GetPublicKey E st =
     (case st of (srv, w) \<Rightarrow>
      case get_public_key E w of
        (Inl e, w1) \<Rightarrow> (Returns (Inl (Status Internal (PublicKeyFailed e))), (srv, w1))
      | (Inr pubKey, w1) \<Rightarrow>
          if length pubKey \<noteq> 33 then (Returns (Inl (Status Internal (PublicKeyLength (length pubKey)))), (srv, w1))
          else (Returns (Inr (GetPublicKeyResponse pubKey)), (srv, w1)))"

definition GetAddress :: "'ty env \<Rightarrow> string \<Rightarrow> state \<Rightarrow> response result \<times> state" where
  "GetAddress E prefix st =
     (case st of (srv, w) \<Rightarrow>
      case Bech32Address E prefix w of
        (Inl e, w1) \<Rightarrow> (Returns (Inl (Status InvalidArgument (DeriveAddress e))), (srv, w1))
      | (Inr addr, w1) \<Rightarrow> (Returns (Inr (GetAddressResponse addr)), (srv, w1)))"

definition GetChainID :: "state \<Rightarrow> response result \<times> state" where
  "GetChainID st =
     (if chainID (fst st) = '''' then (Returns (Inl (Status FailedPrecondition ChainIDNotConfigured)), st)
      else (Returns (Inr (GetChainIDResponse (chainID (fst st)))), st))"

section \<open>SignInitial\<close>

text \<open>
  A signature whose length is checked; \<open>which\<close> is the letter in the error message, if any.
\<close>

definition checked_sign :: "'ty env \<Rightarrow> string \<Rightarrow> bytes \<Rightarrow> world \<Rightarrow> bytes result \<times> world" where
  "checked_sign E which digest w =
     (case sign_raw E digest w of
        (Panics, w1) \<Rightarrow> (Panics, w1)
      | (Returns (Inl e), w1) \<Rightarrow> (Returns (Inl (Status Internal (SigningFailed which e))), w1)
      | (Returns (Inr sig), w1) \<Rightarrow>
          if length sig \<noteq> 64 then (Returns (Inl (Status Internal (SignatureLength which (length sig)))), w1)
          else (Returns (Inr sig), w1))"

definition SignInitial :: "'ty env \<Rightarrow> string \<Rightarrow> state \<Rightarrow> response result \<times> state" where
  "SignInitial E operatorAddress st =
     (case st of (srv, w) \<Rightarrow>
      if operatorAddress = '''' then (Returns (Inl (Status InvalidArgument OperatorAddressEmpty)), st)
      else case bech32Decode E operatorAddress of
        Inl e \<Rightarrow> (Returns (Inl (Status InvalidArgument (OperatorAddressInvalid e))), st)
      | Inr (_, addrBytes) \<Rightarrow>
          if addrBytes \<noteq> selfCosmosAddr srv then (Returns (Inl (Status PermissionDenied OperatorAddressForeign)), st)
          else
            (case initialRegistrationMessages operatorAddress of (msgA, msgB) \<Rightarrow>
             case checked_sign E ''A'' (initialSigningDigest msgA) w of
               (Panics, w1) \<Rightarrow> (Panics, (srv, w1))
             | (Returns (Inl e), w1) \<Rightarrow> (Returns (Inl e), (srv, w1))
             | (Returns (Inr sigA), w1) \<Rightarrow>
                 (case checked_sign E ''B'' (initialSigningDigest msgB) w1 of
                    (Panics, w2) \<Rightarrow> (Panics, (srv, w2))
                  | (Returns (Inl e), w2) \<Rightarrow> (Returns (Inl e), (srv, w2))
                  | (Returns (Inr sigB), w2) \<Rightarrow> (Returns (Inr (SignInitialResponse sigA sigB)), (srv, w2)))))"

section \<open>SignTx\<close>

text \<open>The allowlist loop: the first message type that is not allowed.\<close>

fun first_forbidden :: "string set \<Rightarrow> string list \<Rightarrow> string option" where
  "first_forbidden allowed [] = None"
| "first_forbidden allowed (t # ts) = (if t \<notin> allowed then Some t else first_forbidden allowed ts)"

definition check_tx :: "'ty env \<Rightarrow> string set \<Rightarrow> bytes \<Rightarrow> status + unit" where
  "check_tx E allowed signDoc =
     (if signDoc = [] then Inl (Status InvalidArgument SignDocEmpty)
      else case signDocUnmarshal E signDoc of
        Inl e \<Rightarrow> Inl (Status InvalidArgument (SignDocDecode e))
      | Inr bodyBytes \<Rightarrow>
          (case txBodyUnmarshal E bodyBytes of
             Inl e \<Rightarrow> Inl (Status InvalidArgument (TxBodyDecode e))
           | Inr typeUrls \<Rightarrow>
               if typeUrls = [] then Inl (Status PermissionDenied NoMessages)
               else (case first_forbidden allowed typeUrls of
                       Some t \<Rightarrow> Inl (Status PermissionDenied (MessageNotAllowed t))
                     | None \<Rightarrow> Inr ())))"

definition SignTx :: "'ty env \<Rightarrow> bytes \<Rightarrow> state \<Rightarrow> response result \<times> state" where
  "SignTx E signDoc st =
     (case st of (srv, w) \<Rightarrow>
      case check_tx E (allowedMsgTypes srv) signDoc of
        Inl e \<Rightarrow> (Returns (Inl e), st)
      | Inr _ \<Rightarrow>
          (case sign_raw E (sha256 signDoc) w of
             (Panics, w1) \<Rightarrow> (Panics, (srv, w1))
           | (Returns (Inl e), w1) \<Rightarrow> (Returns (Inl (Status Internal (SigningFailed '''' e))), (srv, w1))
           | (Returns (Inr sig), w1) \<Rightarrow> (Returns (Inr (SignTxResponse sig)), (srv, w1))))"

section \<open>SignBridgeCheckpoint\<close>

text \<open>Step (1): the loop that copies the validator set, with its two checks per entry.\<close>

fun copy_validators :: "nat \<Rightarrow> bridgeValidator list \<Rightarrow> status + bridgeValidator list" where
  "copy_validators i [] = Inr []"
| "copy_validators i (v # vs) =
     (if length (EthereumAddress v) \<noteq> 20 then
        Inl (Status InvalidArgument (ValidatorAddressLength i (length (EthereumAddress v))))
      else if Power v = 0 then Inl (Status InvalidArgument (ValidatorPowerZero i))
      else case copy_validators (Suc i) vs of
             Inl e \<Rightarrow> Inl e
           | Inr ws \<Rightarrow> Inr (\<lparr>EthereumAddress = copy_into 20 (EthereumAddress v), Power = Power v\<rparr> # ws))"

definition checkpoint_format :: "SignBridgeCheckpointRequest \<Rightarrow> status + bridgeValidator list" where
  "checkpoint_format req =
     (if length (DomainSeparator req) \<noteq> 32 then
        Inl (Status InvalidArgument (FieldLength ''domain_separator'' (length (DomainSeparator req))))
      else if length (ValidatorSetHash req) \<noteq> 32 then
        Inl (Status InvalidArgument (FieldLength ''validator_set_hash'' (length (ValidatorSetHash req))))
      else if length (ExpectedCheckpoint req) \<noteq> 32 then
        Inl (Status InvalidArgument (FieldLength ''expected_checkpoint'' (length (ExpectedCheckpoint req))))
      else if ValidatorSet req = [] then Inl (Status InvalidArgument ValidatorSetEmpty)
      else if ChainId req = '''' then Inl (Status InvalidArgument ChainIdEmpty)
      else copy_validators 0 (ValidatorSet req))"

text \<open>Step (3): the total and the threshold in wrapping \<^verbatim>\<open>uint64\<close> arithmetic.\<close>

definition total_power :: "bridgeValidator list \<Rightarrow> u64" where
  "total_power vs = foldl (\<lambda>t v. t + Power v) 0 vs"

definition power_threshold :: "bridgeValidator list \<Rightarrow> u64" where
  "power_threshold vs = total_power vs * 2 div 3"

text \<open>Step (5).\<close>

definition is_member :: "'ty env \<Rightarrow> bytes \<Rightarrow> bridgeValidator list \<Rightarrow> bool" where
  "is_member E self vs = list_ex (\<lambda>v. bytesToAddress (eth E) (EthereumAddress v) = self) vs"

text \<open>Steps (1) to (6): everything that is checked before the guard.\<close>

definition verify_checkpoint :: "'ty env \<Rightarrow> bytes \<Rightarrow> SignBridgeCheckpointRequest \<Rightarrow> status + bytes" where
  "verify_checkpoint E self req =
     (case checkpoint_format req of
        Inl e \<Rightarrow> Inl e
      | Inr copied \<Rightarrow>
          let vs = sortBridgeValidators copied in
          (case encodeAndHashValidatorSet (eth E) vs of
             Inl e \<Rightarrow> Inl (Status Internal (EncodeFailed e))
           | Inr (_, valsetHash) \<Rightarrow>
               if valsetHash \<noteq> ValidatorSetHash req then Inl (Status InvalidArgument ValidatorSetHashMismatch)
               else if power_threshold vs \<noteq> PowerThreshold req then
                 Inl (Status InvalidArgument (ThresholdMismatch (power_threshold vs) (PowerThreshold req)))
               else
                 (case computeDomainSeparator (eth E) (ChainId req) of
                    Inl e \<Rightarrow> Inl (Status Internal (EncodeFailed e))
                  | Inr domainSep \<Rightarrow>
                      if domainSep \<noteq> DomainSeparator req then
                        Inl (Status InvalidArgument (DomainSeparatorMismatch (ChainId req)))
                      else if \<not> is_member E self vs then Inl (Status PermissionDenied NotMember)
                      else
                        (case encodeValsetCheckpoint (eth E) domainSep (PowerThreshold req)
                                (ValidatorTimestamp req) valsetHash of
                           Inl e \<Rightarrow> Inl (Status Internal (EncodeFailed e))
                         | Inr checkpoint \<Rightarrow>
                             if checkpoint \<noteq> ExpectedCheckpoint req then
                               Inl (Status InvalidArgument CheckpointMismatch)
                             else Inr checkpoint))))"

text \<open>Step (7): the guard, called on the server's own guard and the file system.\<close>

definition guard_advance :: "u64 \<Rightarrow> state \<Rightarrow> (guard_error + unit) \<times> state" where
  "guard_advance ts st =
     (case st of (srv, w) \<Rightarrow>
      case CheckAndAdvance (checkpointGuard srv) ts (w_os w) of
        (r, g', o') \<Rightarrow> (r, (srv\<lparr>checkpointGuard := g'\<rparr>, w\<lparr>w_os := o'\<rparr>)))"

definition guard_record :: "u64 \<Rightarrow> bytes \<Rightarrow> bytes \<Rightarrow> state \<Rightarrow> state" where
  "guard_record ts checkpoint sig st =
     (case st of (srv, w) \<Rightarrow>
      case RecordSignature (checkpointGuard srv) ts checkpoint sig (w_os w) of
        (_, g', o') \<Rightarrow> (srv\<lparr>checkpointGuard := g'\<rparr>, w\<lparr>w_os := o'\<rparr>))"

definition guard_answer :: "u64 \<Rightarrow> bytes \<Rightarrow> guard_error \<Rightarrow> Server \<Rightarrow> response result" where
  "guard_answer ts checkpoint e srv =
     (case e of
        ErrReplayGuardRejected _ _ \<Rightarrow>
          (case CachedSignature (checkpointGuard srv) ts checkpoint of
             Some sig \<Rightarrow> Returns (Inr (SignBridgeCheckpointResponse sig checkpoint))
           | None \<Rightarrow> Returns (Inl (Status FailedPrecondition (ReplayGuard e))))
      | _ \<Rightarrow> Returns (Inl (Status FailedPrecondition (ReplayGuard e))))"

definition SignBridgeCheckpoint :: "'ty env \<Rightarrow> SignBridgeCheckpointRequest \<Rightarrow> state \<Rightarrow> response result \<times> state" where
  "SignBridgeCheckpoint E req st =
     (case verify_checkpoint E (selfEVMAddr (fst st)) req of
        Inl e \<Rightarrow> (Returns (Inl e), st)
      | Inr checkpoint \<Rightarrow>
          (case guard_advance (ValidatorTimestamp req) st of
             (Inl e, st1) \<Rightarrow> (guard_answer (ValidatorTimestamp req) checkpoint e (fst st1), st1)
           | (Inr _, (srv, w)) \<Rightarrow>
               (case checked_sign E '''' (sha256 checkpoint) w of
                  (Panics, w1) \<Rightarrow> (Panics, (srv, w1))
                | (Returns (Inl e), w1) \<Rightarrow> (Returns (Inl e), (srv, w1))
                | (Returns (Inr sig), w1) \<Rightarrow>
                    (Returns (Inr (SignBridgeCheckpointResponse sig checkpoint)),
                     guard_record (ValidatorTimestamp req) checkpoint sig (srv, w1)))))"

section \<open>SignOracleAttestation\<close>

definition request_attestation :: "SignOracleAttestationRequest \<Rightarrow> attestation" where
  "request_attestation req =
     \<lparr>a_queryId = QueryId req, a_value = Value req, a_timestamp = Timestamp req,
      a_aggregatePower = AggregatePower req, a_previousTimestamp = PreviousTimestamp req,
      a_nextTimestamp = NextTimestamp req, a_valsetCheckpoint = ValsetCheckpoint req,
      a_attestationTimestamp = AttestationTimestamp req,
      a_lastConsensusTimestamp = LastConsensusTimestamp req\<rparr>"

definition verify_attestation :: "'ty env \<Rightarrow> SignOracleAttestationRequest \<Rightarrow> status + bytes" where
  "verify_attestation E req =
     (if QueryId req = [] \<or> length (QueryId req) > 32 then
        Inl (Status InvalidArgument (FieldLength ''query_id'' (length (QueryId req))))
      else if length (ValsetCheckpoint req) \<noteq> 32 then
        Inl (Status InvalidArgument (FieldLength ''valset_checkpoint'' (length (ValsetCheckpoint req))))
      else if length (ExpectedSnapshot req) \<noteq> 32 then
        Inl (Status InvalidArgument (FieldLength ''expected_snapshot'' (length (ExpectedSnapshot req))))
      else case encodeOracleAttestation (eth E) (request_attestation req) of
             Inl e \<Rightarrow> Inl (Status Internal (EncodeFailed e))
           | Inr snapshot \<Rightarrow>
               if snapshot \<noteq> ExpectedSnapshot req then Inl (Status InvalidArgument SnapshotMismatch)
               else Inr snapshot)"

definition SignOracleAttestation :: "'ty env \<Rightarrow> SignOracleAttestationRequest \<Rightarrow> state \<Rightarrow> response result \<times> state" where
  "SignOracleAttestation E req st =
     (case st of (srv, w) \<Rightarrow>
      case verify_attestation E req of
        Inl e \<Rightarrow> (Returns (Inl e), st)
      | Inr snapshot \<Rightarrow>
          (case checked_sign E '''' (sha256 snapshot) w of
             (Panics, w1) \<Rightarrow> (Panics, (srv, w1))
           | (Returns (Inl e), w1) \<Rightarrow> (Returns (Inl e), (srv, w1))
           | (Returns (Inr sig), w1) \<Rightarrow>
               (Returns (Inr (SignOracleAttestationResponse sig snapshot)), (srv, w1))))"

section \<open>The service\<close>

fun bridge_handler :: "'ty env \<Rightarrow> state handler" where
  "bridge_handler E (SignRequest _ _) st = Sign st"
| "bridge_handler E GetPublicKeyRequest st = GetPublicKey E st"
| "bridge_handler E (SignRawRequest _ _) st = SignRaw st"
| "bridge_handler E (GetAddressRequest prefix) st = GetAddress E prefix st"
| "bridge_handler E (SignTxRequest signDoc _) st = SignTx E signDoc st"
| "bridge_handler E GetChainIDRequest st = GetChainID st"
| "bridge_handler E (CheckpointRequest req) st = SignBridgeCheckpoint E req st"
| "bridge_handler E (AttestationRequest req) st = SignOracleAttestation E req st"
| "bridge_handler E (SignInitialRequest operatorAddress _) st = SignInitial E operatorAddress st"

definition serve :: "'ty env \<Rightarrow> call_ctx \<Rightarrow> request \<Rightarrow> state \<Rightarrow> response result \<times> state" where
  "serve E ctx req st = unary_call (server_interceptor (enabledRPCs (fst st))) ctx (bridge_handler E) req st"

section \<open>What verification accepts\<close>

definition good_validator :: "bridgeValidator \<Rightarrow> bool" where
  "good_validator v \<longleftrightarrow> addr20 v \<and> Power v \<noteq> 0"

lemma copy_validators_good: "list_all good_validator vs \<Longrightarrow> copy_validators i vs = Inr vs"
  by (induction vs arbitrary: i) (simp_all add: good_validator_def addr20_def)

lemma copy_validators_bad: "\<not> list_all good_validator vs \<Longrightarrow> \<not> ok (copy_validators i vs)"
  by (induction vs arbitrary: i) (auto simp: good_validator_def addr20_def split: sum.splits, metis ok.simps(2))

lemma copy_validators_Inr:
  "copy_validators i vs = Inr ws \<longleftrightarrow> ws = vs \<and> list_all good_validator vs"
  using copy_validators_good [of vs i] copy_validators_bad [of vs i] by (cases "copy_validators i vs") auto

lemma total_power_unat: "unat (total_power vs) = (\<Sum>v\<leftarrow>vs. unat (Power v)) mod 2 ^ 64"
proof -
  have "unat (foldl (\<lambda>t v. t + Power v) t vs) = (unat t + (\<Sum>v\<leftarrow>vs. unat (Power v))) mod 2 ^ 64" for t
  proof (induction vs arbitrary: t)
    case Nil
    then show ?case using u64_less [of t] by simp
  next
    case (Cons v vs)
    have "unat (t + Power v) = (unat t + unat (Power v)) mod 2 ^ 64" by (simp add: unat_word_ariths)
    then show ?case by (simp add: Cons.IH [of "t + Power v"] mod_add_left_eq add.assoc del: unat_word_ariths)
  qed
  from this [of 0] show ?thesis by (simp add: total_power_def)
qed

lemma power_threshold_unat:
  "unat (power_threshold vs) = ((2 * (\<Sum>v\<leftarrow>vs. unat (Power v))) mod 2 ^ 64) div 3"
proof -
  have "unat (total_power vs * 2) = (2 * (\<Sum>v\<leftarrow>vs. unat (Power v))) mod 2 ^ 64"
    by (simp add: unat_word_ariths total_power_unat mod_mult_right_eq mult.commute)
  then show ?thesis by (simp add: power_threshold_def unat_div)
qed

lemma power_threshold_perm: "mset vs = mset ws \<Longrightarrow> power_threshold vs = power_threshold ws"
proof -
  assume "mset vs = mset ws"
  then have "(\<Sum>v\<leftarrow>vs. unat (Power v)) = (\<Sum>v\<leftarrow>ws. unat (Power v))"
    by (metis mset_map sum_mset_sum_list)
  then show ?thesis by (simp add: word_unat_eq_iff power_threshold_unat)
qed

text \<open>What a checkpoint request must be for the signer to accept it, stated without the code.\<close>

definition good_checkpoint :: "'ty env \<Rightarrow> bytes \<Rightarrow> SignBridgeCheckpointRequest \<Rightarrow> bytes \<Rightarrow> bool" where
  "good_checkpoint E self req c \<longleftrightarrow>
     list_all good_validator (ValidatorSet req)
   \<and> (\<exists>v\<in>set (ValidatorSet req). EthereumAddress v = self)
   \<and> ChainId req \<noteq> ''''
   \<and> computeDomainSeparator (eth E) (ChainId req) = Inr (DomainSeparator req)
   \<and> ValidatorSetHash req = keccak256 (eth E) (valset_preimage (sortBridgeValidators (ValidatorSet req)))
   \<and> unat (PowerThreshold req) = ((2 * (\<Sum>v\<leftarrow>ValidatorSet req. unat (Power v))) mod 2 ^ 64) div 3
   \<and> c = keccak256 (eth E)
         (checkpoint_preimage (DomainSeparator req) (PowerThreshold req) (ValidatorTimestamp req) (ValidatorSetHash req))
   \<and> ExpectedCheckpoint req = c"

lemma checkpoint_format_Inr:
  "checkpoint_format req = Inr ws \<longleftrightarrow>
     ws = ValidatorSet req \<and> list_all good_validator (ValidatorSet req) \<and> ValidatorSet req \<noteq> []
   \<and> ChainId req \<noteq> '''' \<and> length (DomainSeparator req) = 32 \<and> length (ValidatorSetHash req) = 32
   \<and> length (ExpectedCheckpoint req) = 32"
  by (auto simp: checkpoint_format_def copy_validators_Inr)

lemma verify_checkpoint_Inr:
  "verify_checkpoint E self req = Inr c \<longleftrightarrow>
     (let vs = sortBridgeValidators (ValidatorSet req) in
      ok (checkpoint_format req) \<and> power_threshold vs = PowerThreshold req
    \<and> (\<exists>enc. encodeAndHashValidatorSet (eth E) vs = Inr (enc, ValidatorSetHash req))
    \<and> computeDomainSeparator (eth E) (ChainId req) = Inr (DomainSeparator req)
    \<and> is_member E self vs
    \<and> encodeValsetCheckpoint (eth E) (DomainSeparator req) (PowerThreshold req)
        (ValidatorTimestamp req) (ValidatorSetHash req) = Inr c
    \<and> c = ExpectedCheckpoint req)"
proof (cases "checkpoint_format req")
  case (Inr ws)
  then have "ws = ValidatorSet req" by (simp add: checkpoint_format_Inr)
  with Inr show ?thesis
    by (auto simp: verify_checkpoint_def Let_def split: sum.splits)
qed (simp add: verify_checkpoint_def Let_def)

lemma verify_checkpoint_iff:
  assumes L: "eth_lib_spec (eth E)" and n: "length (ValidatorSet req) < 2 ^ 64"
  shows "verify_checkpoint E self req = Inr c \<longleftrightarrow> good_checkpoint E self req c"
proof (cases "list_all good_validator (ValidatorSet req)
    \<and> computeDomainSeparator (eth E) (ChainId req) = Inr (DomainSeparator req)")
  case True
  let ?vs = "sortBridgeValidators (ValidatorSet req)"
  have d: "length (DomainSeparator req) = 32"
    using True computeDomainSeparator_length [OF L] by blast
  have enc: "encodeAndHashValidatorSet (eth E) ?vs = Inr (valset_preimage ?vs, keccak256 (eth E) (valset_preimage ?vs))"
    by (rule encodeAndHashValidatorSet_ok [OF L]) (use True n in \<open>auto simp: list_all_iff good_validator_def\<close>)
  have mem: "is_member E self ?vs \<longleftrightarrow> (\<exists>v\<in>set (ValidatorSet req). EthereumAddress v = self)"
    using True eth_address [OF L] by (auto simp: is_member_def list_ex_iff addr20_def list_all_iff good_validator_def)
  have thr: "power_threshold ?vs = PowerThreshold req \<longleftrightarrow>
      unat (PowerThreshold req) = ((2 * (\<Sum>v\<leftarrow>ValidatorSet req. unat (Power v))) mod 2 ^ 64) div 3"
    unfolding power_threshold_unat [symmetric] word_unat_eq_iff
    using power_threshold_perm [of ?vs "ValidatorSet req"]
    by (auto simp: sortBridgeValidators_def valset.slice_stable_perm)
  have fmt: "ok (checkpoint_format req) \<longleftrightarrow> ValidatorSet req \<noteq> [] \<and> ChainId req \<noteq> ''''
      \<and> length (ValidatorSetHash req) = 32 \<and> length (ExpectedCheckpoint req) = 32"
    unfolding ok_iff checkpoint_format_Inr using True d by simp
  note ckpt = encodeValsetCheckpoint_ok [OF L d, of "ValidatorSetHash req" "PowerThreshold req" "ValidatorTimestamp req"]
  show ?thesis
    unfolding verify_checkpoint_Inr Let_def good_checkpoint_def enc mem thr fmt
    using True ckpt eth_keccak_length [OF L] by auto
next
  case False
  then show ?thesis
    by (auto simp: verify_checkpoint_Inr good_checkpoint_def Let_def ok_iff checkpoint_format_Inr)
qed

section \<open>A concrete environment\<close>

definition demo_env :: "string env" where
  "demo_env =
     \<lparr>eth = solidity_lib,
      decompressPubkey = (\<lambda>k. if length k = 33 then Inr k else Inl ''invalid public key''),
      pubkeyToAddress = (\<lambda>k. take 20 (drop 13 k)),
      cosmosAddress = (\<lambda>k. take 20 k),
      bech32Encode = (\<lambda>p b. Inr (p @ ''1'' @ string_of b)),
      bech32Decode = (\<lambda>s. if 20 \<le> length s then Inr ([], bytes_of (drop (length s - 20) s)) else Inl ''short''),
      signDocUnmarshal = (\<lambda>d. Inr d),
      txBodyUnmarshal = (\<lambda>b. Inr [string_of b]),
      backendPublicKey = (\<lambda>n. Inr (replicate 33 1)),
      backendSignRaw = (\<lambda>n d. Returns (Inr (d @ d)))\<rparr>"

definition demo_self :: bytes where
  "demo_self = replicate 20 1"

text \<open>A well-formed request for a validator set, a threshold and a timestamp on mainnet.\<close>

definition demo_request :: "bridgeValidator list \<Rightarrow> u64 \<Rightarrow> u64 \<Rightarrow> SignBridgeCheckpointRequest" where
  "demo_request vs thr ts =
     (let d = bytes_of ''checkpoint'' @ replicate 22 0;
          h = keccak256 solidity_lib (valset_preimage (sortBridgeValidators vs))
      in \<lparr>DomainSeparator = d, PowerThreshold = thr, ValidatorTimestamp = ts, ValidatorSetHash = h,
          ValidatorSet = vs, BlockHeight = 0, CheckpointIndex = 0, ChainId = ''tellor-1'',
          ExpectedCheckpoint = keccak256 solidity_lib (checkpoint_preimage d thr ts h),
          CheckpointRequestId = ''''\<rparr>)"

definition demo_valset :: "bridgeValidator list" where
  "demo_valset = [\<lparr>EthereumAddress = replicate 20 2, Power = 5\<rparr>, \<lparr>EthereumAddress = demo_self, Power = 3\<rparr>]"

lemma demo_eth [simp]: "eth demo_env = solidity_lib"
  by (simp add: demo_env_def)

lemma demo_domain: "computeDomainSeparator solidity_lib ''tellor-1'' = Inr (bytes_of ''checkpoint'' @ replicate 22 0)"
  by (simp add: computeDomainSeparator_def MainnetChainID_def copy_into_def)

lemma demo_request_good:
  assumes "list_all good_validator vs" and "\<exists>v\<in>set vs. EthereumAddress v = demo_self"
    and "unat thr = ((2 * (\<Sum>v\<leftarrow>vs. unat (Power v))) mod 2 ^ 64) div 3"
  shows "good_checkpoint demo_env demo_self (demo_request vs thr ts) (ExpectedCheckpoint (demo_request vs thr ts))"
  using assms demo_domain by (simp add: good_checkpoint_def demo_request_def Let_def)

lemma demo_valset_good:
  "good_checkpoint demo_env demo_self (demo_request demo_valset 5 ts) (ExpectedCheckpoint (demo_request demo_valset 5 ts))"
  by (rule demo_request_good) (simp_all add: demo_valset_def good_validator_def addr20_def demo_self_def)

lemma demo_verify:
  "verify_checkpoint demo_env demo_self (demo_request demo_valset 5 ts) = Inr (ExpectedCheckpoint (demo_request demo_valset 5 ts))"
proof (rule verify_checkpoint_iff [THEN iffD2])
  show "length (ValidatorSet (demo_request demo_valset 5 ts)) < 2 ^ 64"
    by (simp add: demo_request_def demo_valset_def Let_def)
qed (simp_all add: solidity_lib_spec demo_valset_good)

text \<open>The same request with the validator set in another order.\<close>

definition demo_permuted :: SignBridgeCheckpointRequest where
  "demo_permuted = (demo_request demo_valset 5 9)\<lparr>ValidatorSet := rev demo_valset\<rparr>"

lemma demo_permuted_verify:
  "verify_checkpoint demo_env demo_self demo_permuted = Inr (ExpectedCheckpoint (demo_request demo_valset 5 9))"
proof (rule verify_checkpoint_iff [THEN iffD2])
  have "sortBridgeValidators (rev demo_valset) = sortBridgeValidators demo_valset"
    by (simp add: sortBridgeValidators_canonical)
  then show "good_checkpoint demo_env demo_self demo_permuted (ExpectedCheckpoint (demo_request demo_valset 5 9))"
    using demo_valset_good [of 9]
    by (simp add: good_checkpoint_def demo_permuted_def demo_request_def Let_def demo_valset_def)
qed (simp_all add: solidity_lib_spec demo_permuted_def demo_valset_def)

section \<open>Properties of the checkpoint path\<close>

text \<open>Claim C6: given a go-ethereum that encodes as the contract ABI says, the six verification
  steps accept exactly the requests whose every field is the one recomputed from the
  validator set, the chain id and the timestamp, and whose set contains the signer.\<close>

theorem checkpoint_accepts_exactly:
  assumes "eth_lib_spec (eth E)" and "length (ValidatorSet req) < 2 ^ 64"
  shows "verify_checkpoint E self req = Inr c \<longleftrightarrow> good_checkpoint E self req c"
  by (rule verify_checkpoint_iff [OF assms])

theorem checkpoint_accepts_exactly_witness:
  "verify_checkpoint demo_env demo_self (demo_request demo_valset 5 9)
     = Inr (ExpectedCheckpoint (demo_request demo_valset 5 9))"
proof (rule checkpoint_accepts_exactly [THEN iffD2])
  show "length (ValidatorSet (demo_request demo_valset 5 9)) < 2 ^ 64"
    by (simp add: demo_request_def demo_valset_def Let_def)
qed (simp_all add: solidity_lib_spec demo_valset_good)

text \<open>Claim C16: a checkpoint binds what it was made from.  Two accepted requests with the same
  checkpoint have the same domain separator, power threshold and timestamp, and their
  validator sets are the same up to order, unless Keccak collides on one of the two pairs of
  encodings that were hashed.\<close>

theorem checkpoint_binds_request:
  assumes L: "eth_lib_spec (eth E)" and n: "length (ValidatorSet r1) < 2 ^ 64" "length (ValidatorSet r2) < 2 ^ 64"
    and v: "verify_checkpoint E self r1 = Inr c" "verify_checkpoint E self' r2 = Inr c"
    and inj: "inj_on (keccak256 (eth E))
      {checkpoint_preimage (DomainSeparator r1) (PowerThreshold r1) (ValidatorTimestamp r1) (ValidatorSetHash r1),
       checkpoint_preimage (DomainSeparator r2) (PowerThreshold r2) (ValidatorTimestamp r2) (ValidatorSetHash r2)}"
      "inj_on (keccak256 (eth E))
        {valset_preimage (sortBridgeValidators (ValidatorSet r1)), valset_preimage (sortBridgeValidators (ValidatorSet r2))}"
  shows "DomainSeparator r1 = DomainSeparator r2 \<and> PowerThreshold r1 = PowerThreshold r2
    \<and> ValidatorTimestamp r1 = ValidatorTimestamp r2 \<and> mset (ValidatorSet r1) = mset (ValidatorSet r2)"
proof -
  note good = verify_checkpoint_iff [OF L n(1), THEN iffD1, OF v(1), unfolded good_checkpoint_def]
    verify_checkpoint_iff [OF L n(2), THEN iffD1, OF v(2), unfolded good_checkpoint_def]
  have d: "length (DomainSeparator r1) = 32" "length (DomainSeparator r2) = 32"
    using good computeDomainSeparator_length [OF L] by blast+
  have "checkpoint_preimage (DomainSeparator r1) (PowerThreshold r1) (ValidatorTimestamp r1) (ValidatorSetHash r1)
      = checkpoint_preimage (DomainSeparator r2) (PowerThreshold r2) (ValidatorTimestamp r2) (ValidatorSetHash r2)"
    by (rule inj_onD [OF inj(1)]) (use good in auto)
  then have eq: "DomainSeparator r1 = DomainSeparator r2" "PowerThreshold r1 = PowerThreshold r2"
      "ValidatorTimestamp r1 = ValidatorTimestamp r2" "ValidatorSetHash r1 = ValidatorSetHash r2"
    by (simp_all add: checkpoint_preimage_inject [OF d])
  have "valset_preimage (sortBridgeValidators (ValidatorSet r1)) = valset_preimage (sortBridgeValidators (ValidatorSet r2))"
    by (rule inj_onD [OF inj(2)]) (use good eq(4) in auto)
  then have "sortBridgeValidators (ValidatorSet r1) = sortBridgeValidators (ValidatorSet r2)"
    by (rule valset_preimage_inject [rotated -1]) (use good n in \<open>auto simp: list_all_iff good_validator_def\<close>)
  with eq show ?thesis by (simp add: sortBridgeValidators_canonical)
qed

theorem checkpoint_binds_request_witness:
  "verify_checkpoint demo_env demo_self (demo_request demo_valset 5 9) = Inr (ExpectedCheckpoint (demo_request demo_valset 5 9))
   \<and> verify_checkpoint demo_env demo_self demo_permuted = Inr (ExpectedCheckpoint (demo_request demo_valset 5 9))
   \<and> mset (ValidatorSet (demo_request demo_valset 5 9)) = mset (ValidatorSet demo_permuted)"
  using checkpoint_binds_request [of demo_env "demo_request demo_valset 5 9" demo_permuted
      demo_self "ExpectedCheckpoint (demo_request demo_valset 5 9)" demo_self]
  by (simp add: solidity_lib_spec demo_verify demo_permuted_verify)
     (simp add: demo_request_def demo_permuted_def demo_valset_def Let_def)

text \<open>The caller's order of the validator set does not matter: permuted requests get
  the same verdict and the same checkpoint.\<close>

theorem checkpoint_order_irrelevant:
  assumes "eth_lib_spec (eth E)" and "length (ValidatorSet req) < 2 ^ 64" and "mset vs = mset (ValidatorSet req)"
  shows "verify_checkpoint E self (req\<lparr>ValidatorSet := vs\<rparr>) = Inr c \<longleftrightarrow> verify_checkpoint E self req = Inr c"
proof -
  have "set vs = set (ValidatorSet req)" "length vs = length (ValidatorSet req)"
    using assms(3) by (metis set_mset_mset, metis size_mset)
  moreover have "(\<Sum>v\<leftarrow>vs. unat (Power v)) = (\<Sum>v\<leftarrow>ValidatorSet req. unat (Power v))"
    using assms(3) by (metis mset_map sum_mset_sum_list)
  ultimately show ?thesis
    using assms sortBridgeValidators_canonical [of vs "ValidatorSet req"]
    by (simp add: verify_checkpoint_iff good_checkpoint_def list_all_iff)
qed

theorem checkpoint_order_irrelevant_witness:
  "verify_checkpoint demo_env demo_self ((demo_request demo_valset 5 9)\<lparr>ValidatorSet := rev demo_valset\<rparr>)
     = Inr (ExpectedCheckpoint (demo_request demo_valset 5 9))"
proof (rule checkpoint_order_irrelevant [THEN iffD2])
  show "length (ValidatorSet (demo_request demo_valset 5 9)) < 2 ^ 64"
    by (simp add: demo_request_def demo_valset_def Let_def)
  show "mset (rev demo_valset) = mset (ValidatorSet (demo_request demo_valset 5 9))"
    by (simp add: demo_request_def Let_def)
qed (simp_all add: solidity_lib_spec demo_verify)

text \<open>Claim C28: for a total power below \<open>2 ^ 63\<close> the threshold that is accepted and signed is the
  floor of two thirds of the total power.\<close>

theorem threshold_is_two_thirds:
  assumes "eth_lib_spec (eth E)" and "length (ValidatorSet req) < 2 ^ 64"
    and "verify_checkpoint E self req = Inr c" and "(\<Sum>v\<leftarrow>ValidatorSet req. unat (Power v)) < 2 ^ 63"
  shows "3 * unat (PowerThreshold req) \<le> 2 * (\<Sum>v\<leftarrow>ValidatorSet req. unat (Power v))
    \<and> 2 * (\<Sum>v\<leftarrow>ValidatorSet req. unat (Power v)) < 3 * (unat (PowerThreshold req) + 1)"
proof -
  let ?S = "\<Sum>v\<leftarrow>ValidatorSet req. unat (Power v)"
  have "unat (PowerThreshold req) = ((2 * ?S) mod 2 ^ 64) div 3"
    using verify_checkpoint_iff [OF assms(1,2)] assms(3) by (simp add: good_checkpoint_def)
  also have "(2 * ?S) mod 2 ^ 64 = 2 * ?S" using assms(4) by simp
  finally have "unat (PowerThreshold req) = 2 * ?S div 3" .
  moreover have "3 * (x div 3) \<le> x \<and> x < 3 * (x div 3 + 1)" for x :: nat by presburger
  ultimately show ?thesis by metis
qed

theorem threshold_is_two_thirds_witness:
  "3 * unat (PowerThreshold (demo_request demo_valset 5 9))
     \<le> 2 * (\<Sum>v\<leftarrow>ValidatorSet (demo_request demo_valset 5 9). unat (Power v))"
proof -
  have "ValidatorSet (demo_request demo_valset 5 9) = demo_valset" by (simp add: demo_request_def Let_def)
  then show ?thesis
    using threshold_is_two_thirds [of demo_env "demo_request demo_valset 5 9", OF _ _ demo_verify]
    by (simp add: solidity_lib_spec demo_valset_def)
qed

text \<open>The threshold wraps around.  A set whose only validator, the signer, has power
  \<open>2 ^ 63\<close> is accepted with a power threshold of zero.\<close>

theorem threshold_wraps_to_zero:
  "ok (verify_checkpoint demo_env demo_self
     (demo_request [\<lparr>EthereumAddress = demo_self, Power = 2 ^ 63\<rparr>] 0 9))"
proof -
  let ?vs = "[\<lparr>EthereumAddress = demo_self, Power = 2 ^ 63\<rparr>]"
  have "good_checkpoint demo_env demo_self (demo_request ?vs 0 9) (ExpectedCheckpoint (demo_request ?vs 0 9))"
    by (rule demo_request_good) (simp_all add: good_validator_def addr20_def demo_self_def)
  moreover have "length (ValidatorSet (demo_request ?vs 0 9)) < 2 ^ 64" by (simp add: demo_request_def Let_def)
  ultimately have "verify_checkpoint demo_env demo_self (demo_request ?vs 0 9)
      = Inr (ExpectedCheckpoint (demo_request ?vs 0 9))"
    using verify_checkpoint_iff [of demo_env] by (simp add: solidity_lib_spec)
  then show ?thesis by simp
qed

section \<open>Properties of the attestation path\<close>

text \<open>Claim C22: an attestation is accepted exactly when its snapshot is the Keccak hash of the
  contract ABI encoding of its ten arguments, and two accepted attestations with the same
  snapshot agree on every argument, unless Keccak collides on the two encodings.\<close>

theorem attestation_binds_request:
  assumes L: "eth_lib_spec (eth E)" and n: "length (Value r1) < 256 ^ 32" "length (Value r2) < 256 ^ 32"
    and v: "verify_attestation E r1 = Inr c" "verify_attestation E r2 = Inr c"
    and inj: "inj_on (keccak256 (eth E))
      {abi_encode (attestation_args (request_attestation r1)), abi_encode (attestation_args (request_attestation r2))}"
  shows "c = keccak256 (eth E) (abi_encode (attestation_args (request_attestation r1)))
    \<and> same_attestation (request_attestation r1) (request_attestation r2)"
proof -
  have n': "length (a_value (request_attestation r1)) < 256 ^ 32" "length (a_value (request_attestation r2)) < 256 ^ 32"
    using n by (simp_all add: request_attestation_def)
  have c: "c = keccak256 (eth E) (abi_encode (attestation_args (request_attestation r1)))"
      "c = keccak256 (eth E) (abi_encode (attestation_args (request_attestation r2)))"
    using v encodeOracleAttestation_ok [OF L n'(1)] encodeOracleAttestation_ok [OF L n'(2)]
    by (auto simp: verify_attestation_def split: if_splits)
  have "abi_encode (attestation_args (request_attestation r1)) = abi_encode (attestation_args (request_attestation r2))"
    by (rule inj_onD [OF inj]) (use c in auto)
  then have "same_attestation (request_attestation r1) (request_attestation r2)"
    by (rule attestation_preimage_inject [OF n', THEN iffD1])
  with c(1) show ?thesis by blast
qed

definition demo_attestation :: SignOracleAttestationRequest where
  "demo_attestation =
     (let r = \<lparr>QueryId = [1], Value = [2, 3], Timestamp = 4, AggregatePower = 5, PreviousTimestamp = 6,
               NextTimestamp = 7, ValsetCheckpoint = replicate 32 8, AttestationTimestamp = 9,
               LastConsensusTimestamp = 10, ExpectedSnapshot = [], AttestationRequestId = ''''\<rparr>
      in r\<lparr>ExpectedSnapshot := keccak256 solidity_lib (abi_encode (attestation_args (request_attestation r)))\<rparr>)"

lemma demo_attestation_fields:
  "QueryId demo_attestation = [1]" "Value demo_attestation = [2, 3]"
  "length (ValsetCheckpoint demo_attestation) = 32" "length (ExpectedSnapshot demo_attestation) = 32"
  by (simp_all add: demo_attestation_def Let_def eth_keccak_length [OF solidity_lib_spec])

lemma demo_attestation_encode:
  "encodeOracleAttestation solidity_lib (request_attestation demo_attestation) = Inr (ExpectedSnapshot demo_attestation)"
  using encodeOracleAttestation_ok [OF solidity_lib_spec, of "request_attestation demo_attestation"]
  by (simp add: demo_attestation_def Let_def request_attestation_def)

lemma demo_attestation_verify:
  "verify_attestation demo_env demo_attestation = Inr (ExpectedSnapshot demo_attestation)"
  by (simp add: verify_attestation_def demo_attestation_fields demo_attestation_encode)

theorem attestation_binds_request_witness:
  "same_attestation (request_attestation demo_attestation)
     (request_attestation (demo_attestation\<lparr>QueryId := [1, 0]\<rparr>))"
proof -
  let ?r = "demo_attestation\<lparr>QueryId := [1, 0]\<rparr>"
  have len: "length (Value demo_attestation) < 256 ^ 32" "length (Value ?r) < 256 ^ 32"
    by (simp_all add: demo_attestation_fields)
  have enc: "attestation_args (request_attestation ?r) = attestation_args (request_attestation demo_attestation)"
    by (simp add: attestation_args_def request_attestation_def demo_attestation_fields copy_into_def eval_nat_numeral)
  then have "encodeOracleAttestation solidity_lib (request_attestation ?r)
      = encodeOracleAttestation solidity_lib (request_attestation demo_attestation)"
    by (simp only: encodeOracleAttestation_def)
  then have "verify_attestation demo_env ?r = Inr (ExpectedSnapshot demo_attestation)"
    by (simp add: verify_attestation_def demo_attestation_fields demo_attestation_encode)
  with attestation_binds_request [of demo_env demo_attestation ?r, OF _ len demo_attestation_verify] enc
  show ?thesis by (simp add: solidity_lib_spec)
qed

text \<open>Claim C23: the two recompute-and-verify operations cannot be played against each other: no
  attestation snapshot is an accepted checkpoint, unless Keccak collides on the two encodings.\<close>

theorem attestation_is_never_checkpoint:
  assumes L: "eth_lib_spec (eth E)" and n: "length (ValidatorSet r1) < 2 ^ 64" "length (Value r2) < 256 ^ 32"
    and v: "verify_checkpoint E self r1 = Inr c" "verify_attestation E r2 = Inr s"
    and inj: "inj_on (keccak256 (eth E))
      {checkpoint_preimage (DomainSeparator r1) (PowerThreshold r1) (ValidatorTimestamp r1) (ValidatorSetHash r1),
       abi_encode (attestation_args (request_attestation r2))}"
  shows "c \<noteq> s"
proof
  assume "c = s"
  note good = verify_checkpoint_iff [OF L n(1), THEN iffD1, OF v(1), unfolded good_checkpoint_def]
  have s: "s = keccak256 (eth E) (abi_encode (attestation_args (request_attestation r2)))"
    using v(2) encodeOracleAttestation_ok [OF L, of "request_attestation r2"] n(2)
    by (auto simp: verify_attestation_def request_attestation_def split: if_splits)
  have "checkpoint_preimage (DomainSeparator r1) (PowerThreshold r1) (ValidatorTimestamp r1) (ValidatorSetHash r1)
      = abi_encode (attestation_args (request_attestation r2))"
    by (rule inj_onD [OF inj]) (use good s \<open>c = s\<close> in auto)
  moreover have "length (DomainSeparator r1) = 32" "length (ValidatorSetHash r1) = 32"
    using good computeDomainSeparator_length [OF L] eth_keccak_length [OF L] by auto
  ultimately show False using checkpoint_not_attestation by blast
qed

text \<open>
  A library whose digest keeps the length of its input, so that it tells the encodings of the
  next witness apart by computation.
\<close>

definition length_lib :: "string eth_lib" where
  "length_lib = solidity_lib\<lparr>keccak256 := (\<lambda>b. be 32 (length b))\<rparr>"

lemma length_lib_spec: "eth_lib_spec length_lib"
  using solidity_lib_spec by (simp add: eth_lib_spec_def length_lib_def)

definition length_env :: "string env" where
  "length_env = demo_env\<lparr>eth := length_lib\<rparr>"

lemma length_valset_preimage: "list_all addr20 vs \<Longrightarrow> length (valset_preimage vs) = 64 + 64 * length vs"
  by (induction vs) (simp_all add: valset_preimage_def abi_encode_array_def len_simps)

definition length_request :: SignBridgeCheckpointRequest where
  "length_request =
     (demo_request demo_valset 5 9)\<lparr>ValidatorSetHash := be 32 192, ExpectedCheckpoint := be 32 128\<rparr>"

lemma length_request_verify: "verify_checkpoint length_env demo_self length_request = Inr (be 32 128)"
proof (rule verify_checkpoint_iff [THEN iffD2])
  have d: "computeDomainSeparator length_lib ''tellor-1'' = Inr (bytes_of ''checkpoint'' @ replicate 22 0)"
    by (simp add: computeDomainSeparator_def MainnetChainID_def copy_into_def)
  have "list_all addr20 (sortBridgeValidators demo_valset)"
    using demo_valset_good by (auto simp: good_checkpoint_def demo_request_def Let_def list_all_iff good_validator_def)
  then have "length (valset_preimage (sortBridgeValidators demo_valset)) = 192"
    by (simp add: length_valset_preimage) (simp add: demo_valset_def)
  moreover have "length (checkpoint_preimage (bytes_of ''checkpoint'' @ replicate 22 0) 5 9 (be 32 192)) = 128"
    by (simp add: len_simps)
  ultimately show "good_checkpoint length_env demo_self length_request (be 32 128)"
    using demo_valset_good [of 9] d
    by (simp add: good_checkpoint_def length_request_def demo_request_def Let_def length_env_def length_lib_def del: be.simps)
qed (simp_all add: length_env_def length_lib_spec length_request_def demo_request_def Let_def demo_valset_def)

definition length_attestation :: SignOracleAttestationRequest where
  "length_attestation = demo_attestation\<lparr>ExpectedSnapshot := be 32 384\<rparr>"

lemma length_attestation_args: "length (abi_encode (attestation_args (request_attestation length_attestation))) = 384"
  by (simp add: attestation_preimage len_simps request_attestation_def length_attestation_def demo_attestation_fields)

lemma length_attestation_verify: "verify_attestation length_env length_attestation = Inr (be 32 384)"
proof -
  have "encodeOracleAttestation length_lib (request_attestation length_attestation) = Inr (be 32 384)"
    using encodeOracleAttestation_ok [OF length_lib_spec, of "request_attestation length_attestation"]
      length_attestation_args
    by (simp add: length_lib_def request_attestation_def length_attestation_def demo_attestation_fields del: be.simps)
  then show ?thesis
    by (simp add: verify_attestation_def length_env_def) (simp add: length_attestation_def demo_attestation_fields)
qed

theorem attestation_is_never_checkpoint_witness:
  "verify_checkpoint length_env demo_self length_request = Inr (be 32 128)
   \<and> verify_attestation length_env length_attestation = Inr (be 32 384) \<and> be 32 128 \<noteq> be 32 384"
proof -
  let ?p = "checkpoint_preimage (DomainSeparator length_request) (PowerThreshold length_request)
    (ValidatorTimestamp length_request) (ValidatorSetHash length_request)"
  have "length ?p = 128"
    by (rule length_checkpoint_preimage) (simp_all add: length_request_def demo_request_def Let_def)
  moreover have "be 32 128 \<noteq> be 32 384" by (simp add: be32_inject del: be.simps)
  ultimately have "inj_on (keccak256 (eth length_env))
      {?p, abi_encode (attestation_args (request_attestation length_attestation))}"
    using length_attestation_args by (simp add: inj_on_def length_env_def length_lib_def del: be.simps)
  moreover have "length (ValidatorSet length_request) < 2 ^ 64" "length (Value length_attestation) < 256 ^ 32"
    by (simp_all add: length_request_def demo_request_def demo_valset_def Let_def length_attestation_def
        demo_attestation_fields)
  ultimately show ?thesis
    using attestation_is_never_checkpoint [of length_env, OF _ _ _ length_request_verify length_attestation_verify]
      length_request_verify length_attestation_verify
    by (simp add: length_env_def length_lib_spec del: be.simps)
qed

section \<open>Properties of the checkpoint handler\<close>

lemma verify_checkpoint_length: "verify_checkpoint E self req = Inr c \<Longrightarrow> length c = 32"
  by (auto simp: verify_checkpoint_Inr Let_def ok_iff checkpoint_format_Inr)

lemma sign_raw_simps [simp]:
  "sign_raw E d w = (backendSignRaw E (length (sign_log w)) d, w\<lparr>sign_log := sign_log w @ [d]\<rparr>)"
  by (simp add: sign_raw_def)

lemma checked_sign_world [simp]: "snd (checked_sign E l d w) = w\<lparr>sign_log := sign_log w @ [d]\<rparr>"
  by (auto simp: checked_sign_def split: go.splits sum.splits)

lemma checked_sign_length: "fst (checked_sign E l d w) = Returns (Inr sig) \<Longrightarrow> length sig = 64"
  by (auto simp: checked_sign_def split: go.splits sum.splits if_splits)

text \<open>
  A run of the handler past verification: the guard refuses and nothing else happens, or the
  guard advances, the backend is called once, and a signature is recorded.
\<close>

lemma SignBridgeCheckpoint_refused:
  assumes "verify_checkpoint E (selfEVMAddr srv) req = Inr c"
    and "CheckAndAdvance (checkpointGuard srv) (ValidatorTimestamp req) (w_os w) = (Inl e, g', o')"
  shows "SignBridgeCheckpoint E req (srv, w) =
    (guard_answer (ValidatorTimestamp req) c e srv, (srv, w\<lparr>w_os := o'\<rparr>))"
  using assms CheckAndAdvance_error [OF assms(2)]
  by (simp add: SignBridgeCheckpoint_def guard_advance_def)

lemma SignBridgeCheckpoint_granted:
  assumes "verify_checkpoint E (selfEVMAddr srv) req = Inr c"
    and "CheckAndAdvance (checkpointGuard srv) (ValidatorTimestamp req) (w_os w) = (Inr u, g', o')"
  shows "SignBridgeCheckpoint E req (srv, w) =
    (let srv1 = srv\<lparr>checkpointGuard := g'\<rparr>; w1 = w\<lparr>w_os := o', sign_log := sign_log w @ [sha256 c]\<rparr>
     in case fst (checked_sign E '''' (sha256 c) (w\<lparr>w_os := o'\<rparr>)) of
          Panics \<Rightarrow> (Panics, (srv1, w1))
        | Returns (Inl e) \<Rightarrow> (Returns (Inl e), (srv1, w1))
        | Returns (Inr sig) \<Rightarrow>
            (Returns (Inr (SignBridgeCheckpointResponse sig c)),
             guard_record (ValidatorTimestamp req) c sig (srv1, w1)))"
proof -
  obtain r w2 where r: "checked_sign E '''' (sha256 c) (w\<lparr>w_os := o'\<rparr>) = (r, w2)" by force
  then have "w2 = w\<lparr>w_os := o', sign_log := sign_log w @ [sha256 c]\<rparr>"
    using checked_sign_world [of E "''''" "sha256 c" "w\<lparr>w_os := o'\<rparr>"] by simp
  with r assms show ?thesis
    by (simp add: SignBridgeCheckpoint_def guard_advance_def Let_def split: go.splits sum.splits)
qed

lemma SignBridgeCheckpoint_memo:
  assumes "verify_checkpoint E (selfEVMAddr srv) req = Inr c" and "loaded (checkpointGuard srv)"
    and "highWater (checkpointGuard srv) = ValidatorTimestamp req"
    and "signedCheckpoint (checkpointGuard srv) = Some c" and "signedSignature (checkpointGuard srv) = Some sig"
  shows "SignBridgeCheckpoint E req (srv, w) = (Returns (Inr (SignBridgeCheckpointResponse sig c)), (srv, w))"
  using SignBridgeCheckpoint_refused [OF assms(1) CheckAndAdvance_refuses [OF assms(2)], of w] assms
  by (simp add: guard_answer_def CachedSignature_def)

text \<open>Claim C18: asking again for a checkpoint that was answered gets the same signature, without
  another call of the backend and without any change, so a lost reply can be fetched again.  This holds
  also if writing the memo to the state file failed: it is set in memory first.\<close>

theorem resend_same_signature:
  assumes "loaded (checkpointGuard srv)"
    and "SignBridgeCheckpoint E req (srv, w) = (Returns (Inr r), st')"
  shows "SignBridgeCheckpoint E req st' = (Returns (Inr r), st')"
proof -
  obtain c where c: "verify_checkpoint E (selfEVMAddr srv) req = Inr c"
    using assms(2) by (cases "verify_checkpoint E (selfEVMAddr srv) req") (auto simp: SignBridgeCheckpoint_def)
  obtain a g1 o1 where adv: "CheckAndAdvance (checkpointGuard srv) (ValidatorTimestamp req) (w_os w) = (a, g1, o1)"
    by (cases "CheckAndAdvance (checkpointGuard srv) (ValidatorTimestamp req) (w_os w)")
  show ?thesis
  proof (cases a)
    case (Inl e)
    with adv SignBridgeCheckpoint_refused [OF c] assms(2)
    have ans: "guard_answer (ValidatorTimestamp req) c e srv = Returns (Inr r)" "st' = (srv, w\<lparr>w_os := o1\<rparr>)"
      by simp_all
    moreover have "o1 = w_os w"
      using CheckAndAdvance_error adv Inl ans(1) by (fastforce simp: guard_answer_def)
    ultimately show ?thesis using assms(2) by simp
  next
    case (Inr u)
    note g1 = CheckAndAdvance_granted [OF adv [unfolded Inr]]
    obtain sig where sig: "fst (checked_sign E '''' (sha256 c) (w\<lparr>w_os := o1\<rparr>)) = Returns (Inr sig)"
        "r = SignBridgeCheckpointResponse sig c"
        "st' = guard_record (ValidatorTimestamp req) c sig
          (srv\<lparr>checkpointGuard := g1\<rparr>, w\<lparr>w_os := o1, sign_log := sign_log w @ [sha256 c]\<rparr>)"
      using assms(2) SignBridgeCheckpoint_granted [OF c adv [unfolded Inr]]
      by (auto simp: Let_def split: go.splits sum.splits)
    have ne: "c \<noteq> []" "sig \<noteq> []"
      using verify_checkpoint_length [OF c] checked_sign_length [OF sig(1)] by auto
    obtain r2 g2 o2 where rec: "RecordSignature g1 (ValidatorTimestamp req) c sig o1 = (r2, g2, o2)"
      by (cases "RecordSignature g1 (ValidatorTimestamp req) c sig o1")
    then have g2: "g2 = g1\<lparr>signedCheckpoint := Some c, signedSignature := Some sig\<rparr>"
      using RecordSignature_current [OF ne, of g1] g1 by simp
    let ?srv = "srv\<lparr>checkpointGuard := g2\<rparr>" and ?w = "w\<lparr>sign_log := sign_log w @ [sha256 c], w_os := o2\<rparr>"
    have "SignBridgeCheckpoint E req (?srv, ?w) = (Returns (Inr (SignBridgeCheckpointResponse sig c)), (?srv, ?w))"
      by (rule SignBridgeCheckpoint_memo) (use c assms(1) g1 g2 in simp_all)
    then show ?thesis using sig(2,3) rec by (simp add: guard_record_def)
  qed
qed


definition demo_server :: Server where
  "demo_server =
     \<lparr>allowedMsgTypes = {}, chainID = ''tellor-1'', selfEVMAddr = demo_self, selfCosmosAddr = replicate 20 1,
      checkpointGuard = demo_guard, enabledRPCs = Map.empty\<rparr>"

definition demo_world :: world where
  "demo_world = \<lparr>w_os = demo_os, sign_log = [], pub_calls = 0\<rparr>"

text \<open>On the healthy demo file system the demo request is signed.\<close>

lemma demo_sign:
  "\<exists>o1. CheckAndAdvance demo_guard 9 demo_os = (Inr (), demo_guard\<lparr>highWater := 9\<rparr>, o1) \<and> healthy demo_path o1
    \<and> fst (SignBridgeCheckpoint demo_env (demo_request demo_valset 5 9) (demo_server, demo_world))
      = Returns (Inr (SignBridgeCheckpointResponse
          (let d = sha256 (ExpectedCheckpoint (demo_request demo_valset 5 9)) in d @ d)
          (ExpectedCheckpoint (demo_request demo_valset 5 9))))"
proof -
  have eq: "demo_guard\<lparr>highWater := 9, signedCheckpoint := None, signedSignature := None\<rparr> = demo_guard\<lparr>highWater := 9\<rparr>"
    by (simp add: demo_guard_def)
  have "healthy (statePath demo_guard) demo_os" "highWater demo_guard < 9"
    using demo_healthy by (simp_all add: demo_guard_def)
  from CheckAndAdvance_healthy [OF this] obtain o1
    where o1: "CheckAndAdvance demo_guard 9 demo_os = (Inr (), demo_guard\<lparr>highWater := 9\<rparr>, o1)" "healthy demo_path o1"
    unfolding eq by (auto simp: demo_guard_def)
  have ts: "ValidatorTimestamp (demo_request demo_valset 5 9) = 9" by (simp add: demo_request_def Let_def)
  have "fst (SignBridgeCheckpoint demo_env (demo_request demo_valset 5 9) (demo_server, demo_world))
      = Returns (Inr (SignBridgeCheckpointResponse
          (let d = sha256 (ExpectedCheckpoint (demo_request demo_valset 5 9)) in d @ d)
          (ExpectedCheckpoint (demo_request demo_valset 5 9))))"
    using SignBridgeCheckpoint_granted [of demo_env demo_server "demo_request demo_valset 5 9" _ demo_world] demo_verify [of 9] o1(1)
    by (simp add: demo_server_def demo_world_def ts checked_sign_def Let_def demo_env_def)
  with o1 show ?thesis by blast
qed

theorem resend_same_signature_witness:
  "\<exists>r st'. SignBridgeCheckpoint demo_env (demo_request demo_valset 5 9) (demo_server, demo_world) = (Returns (Inr r), st')
     \<and> SignBridgeCheckpoint demo_env (demo_request demo_valset 5 9) st' = (Returns (Inr r), st')"
proof -
  obtain r st' where "SignBridgeCheckpoint demo_env (demo_request demo_valset 5 9) (demo_server, demo_world)
      = (Returns (Inr r), st')"
    using demo_sign by (metis prod.collapse)
  moreover have "loaded (checkpointGuard demo_server)" by (simp add: demo_server_def demo_guard_def)
  ultimately show ?thesis using resend_same_signature [of demo_server demo_env] by blast
qed

lemma RecordSignature_reloads:
  assumes "healthy (statePath g) s" and "length c = 32" and "length sg = 64" and "statePath g \<noteq> ''''"
    and "RecordSignature g (highWater g) c sg s = (r, g', s')"
  shows "ok (fst (newCheckpointReplayGuard (statePath g) s'))"
proof -
  let ?g = "g\<lparr>signedCheckpoint := Some c, signedSignature := Some sg\<rparr>"
  obtain s1 where w: "writeBytesAtomic (statePath g) (guard_blob ?g) s = (Inr (), s1)" "healthy (statePath g) s1"
      "files s1 = (files s)(statePath g \<mapsto> FileNode perm_0600 (guard_blob ?g))"
    using write_healthy [OF assms(1)] by blast
  have "append_nil c = Some c" "append_nil sg = Some sg" using assms(2,3) by (auto simp: append_nil_def)
  with assms(4,5) w(1) have "s' = s1" by (auto simp: RecordSignature_def Let_def persistLocked_def)
  moreover have "parse_guard (guard_blob ?g) = Inr (highWater g, Some c, Some sg)"
    using parse_guard_blob [of ?g] assms(2,3) by (simp add: memo_wf_def)
  ultimately show ?thesis
    using w(2,3) assms(4) by (simp add: newCheckpointReplayGuard_def os_read_file_def Let_def healthy_def)
qed

text \<open>Claim C19: the answer survives a restart.  On a working file system, after a checkpoint was
  signed, a new process with the same key answers the same request with the same signature and
  does not call the backend again.\<close>

theorem resend_after_restart:
  assumes path: "statePath (checkpointGuard srv) = CheckpointGuardStatePath cfg" "CheckpointGuardStatePath cfg \<noteq> ''''"
    and fresh: "highWater (checkpointGuard srv) < ValidatorTimestamp req"
    and fs: "healthy (CheckpointGuardStatePath cfg) (w_os w)"
    and signed: "SignBridgeCheckpoint E req (srv, w) = (Returns (Inr r), (srv', w'))"
    and new: "New E cfg w' = (Inr srv2, w2)" "selfEVMAddr srv2 = selfEVMAddr srv"
  shows "SignBridgeCheckpoint E req (srv2, w2) = (Returns (Inr r), (srv2, w2))"
proof -
  let ?g = "checkpointGuard srv" and ?ts = "ValidatorTimestamp req"
  let ?g1 = "?g\<lparr>highWater := ?ts, signedCheckpoint := None, signedSignature := None\<rparr>"
  obtain c where c: "verify_checkpoint E (selfEVMAddr srv) req = Inr c"
    using signed by (cases "verify_checkpoint E (selfEVMAddr srv) req") (auto simp: SignBridgeCheckpoint_def)
  obtain o1 where adv: "CheckAndAdvance ?g ?ts (w_os w) = (Inr (), ?g1, o1)" "healthy (statePath ?g1) o1"
    using CheckAndAdvance_healthy [of ?g "w_os w" ?ts] fs fresh path by auto
  obtain sig where sig: "fst (checked_sign E '''' (sha256 c) (w\<lparr>w_os := o1\<rparr>)) = Returns (Inr sig)"
      "r = SignBridgeCheckpointResponse sig c"
      "(srv', w') = guard_record ?ts c sig
        (srv\<lparr>checkpointGuard := ?g1\<rparr>, w\<lparr>w_os := o1, sign_log := sign_log w @ [sha256 c]\<rparr>)"
    using signed SignBridgeCheckpoint_granted [OF c adv(1)] by (auto simp: Let_def split: go.splits sum.splits)
  obtain g2 o2 where rec: "RecordSignature ?g1 (highWater ?g1) c sig o1 = (Inr (), g2, o2)"
    using RecordSignature_healthy [OF adv(2)] by metis
  then have "w_os w' = o2" using sig(3) by (simp add: guard_record_def)
  then obtain g3 o3 where g3: "newCheckpointReplayGuard (statePath ?g1) o2 = (Inr g3, o3)" "checkpointGuard srv2 = g3"
    using new(1) path
    by (auto simp: New_def get_public_key_def split: sum.splits prod.splits)
  have "loaded g3 \<and> highWater g3 = highWater ?g1 \<and> signedCheckpoint g3 = Some c \<and> signedSignature g3 = Some sig"
    by (rule record_then_restart [OF _ _ _ _ rec g3(1)])
       (use path fs verify_checkpoint_length [OF c] checked_sign_length [OF sig(1)] in \<open>auto simp: healthy_def\<close>)
  then show ?thesis
    using SignBridgeCheckpoint_memo [of E srv2 req c sig w2] c new(2) g3(2) sig(2) by simp
qed

definition demo_config :: Config where
  "demo_config = \<lparr>AllowedMsgTypes = [], ConfigChainID = ''tellor-1'', CheckpointGuardStatePath = demo_path, EnabledRPCs = Map.empty\<rparr>"


lemma demo_signed_reloads:
  "\<exists>r srv' w' srv2 w2. SignBridgeCheckpoint demo_env (demo_request demo_valset 5 9) (demo_server, demo_world)
       = (Returns (Inr r), (srv', w'))
   \<and> New demo_env demo_config w' = (Inr srv2, w2) \<and> selfEVMAddr srv2 = demo_self"
proof -
  let ?req = "demo_request demo_valset 5 9" and ?c = "ExpectedCheckpoint (demo_request demo_valset 5 9)"
  let ?sig = "sha256 ?c @ sha256 ?c" and ?g = "demo_guard\<lparr>highWater := 9\<rparr>"
  obtain o1 where o1: "CheckAndAdvance demo_guard 9 demo_os = (Inr (), ?g, o1)" "healthy demo_path o1"
    using demo_sign by blast
  obtain r2 g2 o2 where rec: "RecordSignature ?g 9 ?c ?sig o1 = (r2, g2, o2)" by (cases "RecordSignature ?g 9 ?c ?sig o1")
  have path: "statePath ?g = demo_path" "highWater ?g = 9" by (simp_all add: demo_guard_def)
  have "length ?c = 32" using verify_checkpoint_length [OF demo_verify] .
  then have "ok (fst (newCheckpointReplayGuard demo_path o2))"
    using RecordSignature_reloads [of ?g o1 ?c ?sig r2 g2 o2] o1(2) rec path demo_plain(1) by simp
  then obtain g3 o3 where g3: "newCheckpointReplayGuard demo_path o2 = (Inr g3, o3)"
    by (metis ok_iff prod.collapse)
  have ts: "ValidatorTimestamp ?req = 9" by (simp add: demo_request_def Let_def)
  have "\<exists>w'. SignBridgeCheckpoint demo_env ?req (demo_server, demo_world)
      = (Returns (Inr (SignBridgeCheckpointResponse ?sig ?c)), (demo_server\<lparr>checkpointGuard := g2\<rparr>, w')) \<and> w_os w' = o2"
    using SignBridgeCheckpoint_granted [of demo_env demo_server ?req _ demo_world] demo_verify [of 9] o1(1) rec
    by (simp add: demo_server_def demo_world_def ts checked_sign_def Let_def demo_env_def guard_record_def)
  then show ?thesis
    using g3 by (fastforce simp: New_def get_public_key_def demo_env_def demo_config_def demo_self_def)
qed

theorem resend_after_restart_witness:
  "\<exists>r srv' w' srv2 w2. SignBridgeCheckpoint demo_env (demo_request demo_valset 5 9) (demo_server, demo_world)
       = (Returns (Inr r), (srv', w'))
   \<and> New demo_env demo_config w' = (Inr srv2, w2)
   \<and> SignBridgeCheckpoint demo_env (demo_request demo_valset 5 9) (srv2, w2) = (Returns (Inr r), (srv2, w2))"
proof -
  obtain r srv' w' srv2 w2
    where s: "SignBridgeCheckpoint demo_env (demo_request demo_valset 5 9) (demo_server, demo_world) = (Returns (Inr r), (srv', w'))"
      "New demo_env demo_config w' = (Inr srv2, w2)" "selfEVMAddr srv2 = demo_self"
    using demo_signed_reloads by blast
  have pre: "statePath (checkpointGuard demo_server) = CheckpointGuardStatePath demo_config"
      "CheckpointGuardStatePath demo_config \<noteq> ''''"
      "highWater (checkpointGuard demo_server) < ValidatorTimestamp (demo_request demo_valset 5 9)"
      "healthy (CheckpointGuardStatePath demo_config) (w_os demo_world)" "selfEVMAddr demo_server = demo_self"
    using demo_healthy demo_plain(1)
    by (simp_all add: demo_server_def demo_guard_def demo_config_def demo_request_def demo_world_def Let_def)
  from resend_after_restart [OF pre(1-4) s(1,2)] s pre(5) show ?thesis by auto
qed

text \<open>A failing backend burns the timestamp.  If the guard advanced and the backend then
  fails, panics or returns a signature of the wrong length, every later request for that
  timestamp is refused and nothing is signed for it.\<close>

theorem backend_failure_burns_timestamp:
  assumes "loaded (checkpointGuard srv)"
    and "verify_checkpoint E (selfEVMAddr srv) req = Inr c"
    and "CheckAndAdvance (checkpointGuard srv) (ValidatorTimestamp req) (w_os w) = (Inr u, g1, o1)"
    and "SignBridgeCheckpoint E req (srv, w) = (res, (srv', w'))" and "\<nexists>r. res = Returns (Inr r)"
    and "ValidatorTimestamp req' = ValidatorTimestamp req"
  shows "\<exists>e. SignBridgeCheckpoint E req' (srv', w') = (Returns (Inl e), (srv', w'))"
proof -
  note g1 = CheckAndAdvance_granted [OF assms(3)]
  have st: "srv' = srv\<lparr>checkpointGuard := g1\<rparr>"
    using assms(4,5) SignBridgeCheckpoint_granted [OF assms(2,3)] by (auto simp: Let_def split: go.splits sum.splits)
  show ?thesis
  proof (cases "verify_checkpoint E (selfEVMAddr srv') req'")
    case (Inl e)
    then show ?thesis by (simp add: SignBridgeCheckpoint_def)
  next
    case (Inr c')
    have "CheckAndAdvance (checkpointGuard srv') (ValidatorTimestamp req') (w_os w')
        = (Inl (ErrReplayGuardRejected (ValidatorTimestamp req') (ValidatorTimestamp req)), checkpointGuard srv', w_os w')"
      using CheckAndAdvance_refuses [of "checkpointGuard srv'" "ValidatorTimestamp req'" "w_os w'"] st g1 assms(1,6) by simp
    from SignBridgeCheckpoint_refused [OF Inr this] show ?thesis
      using st g1 by (simp add: guard_answer_def CachedSignature_def)
  qed
qed

definition broken_env :: "string env" where
  "broken_env = demo_env\<lparr>backendSignRaw := (\<lambda>n d. Returns (Inl ''unavailable''))\<rparr>"

lemma verify_checkpoint_cong: "eth E = eth E' \<Longrightarrow> verify_checkpoint E self req = verify_checkpoint E' self req"
proof -
  assume "eth E = eth E'"
  moreover from this have "is_member E = is_member E'" by (simp add: is_member_def fun_eq_iff)
  ultimately show ?thesis by (simp only: verify_checkpoint_def)
qed

theorem backend_failure_burns_timestamp_witness:
  "\<exists>e srv' w'. snd (SignBridgeCheckpoint broken_env (demo_request demo_valset 5 9) (demo_server, demo_world)) = (srv', w')
   \<and> SignBridgeCheckpoint broken_env (demo_request demo_valset 5 9) (srv', w') = (Returns (Inl e), (srv', w'))"
proof -
  let ?req = "demo_request demo_valset 5 9"
  have v: "verify_checkpoint broken_env (selfEVMAddr demo_server) ?req = Inr (ExpectedCheckpoint ?req)"
    using demo_verify [of 9] verify_checkpoint_cong [of broken_env demo_env] by (simp add: broken_env_def demo_server_def)
  obtain o1 where o1: "CheckAndAdvance (checkpointGuard demo_server) (ValidatorTimestamp ?req) (w_os demo_world)
      = (Inr (), demo_guard\<lparr>highWater := 9\<rparr>, o1)"
    using demo_sign by (auto simp: demo_server_def demo_world_def demo_request_def Let_def)
  obtain res srv' w' where run: "SignBridgeCheckpoint broken_env ?req (demo_server, demo_world) = (res, (srv', w'))"
    by (cases "SignBridgeCheckpoint broken_env ?req (demo_server, demo_world)") auto
  then have "\<nexists>r. res = Returns (Inr r)"
    using SignBridgeCheckpoint_granted [OF v o1] by (auto simp: Let_def checked_sign_def broken_env_def)
  moreover have "loaded (checkpointGuard demo_server)" by (simp add: demo_server_def demo_guard_def)
  ultimately show ?thesis
    using backend_failure_burns_timestamp [OF _ v o1 run, of ?req] run by auto
qed

section \<open>Properties of SignTx\<close>

text \<open>
  What the protobuf wire format gives of a decoded transaction: a message with type URL \<open>t\<close>
  takes a tag and a length byte for the URL, for the message and for the body around it.
\<close>

definition tx_wire_spec :: "'ty env \<Rightarrow> bool" where
  "tx_wire_spec E \<longleftrightarrow>
     (\<forall>doc body urls t. signDocUnmarshal E doc = Inr body \<longrightarrow> txBodyUnmarshal E body = Inr urls \<longrightarrow>
        t \<in> set urls \<longrightarrow> t \<noteq> '''' \<longrightarrow> length t + 6 \<le> length doc)"

lemma first_forbidden_None: "first_forbidden A ts = None \<longleftrightarrow> set ts \<subseteq> A"
  by (induction ts) auto

lemma check_tx_Inr:
  "check_tx E A doc = Inr () \<longleftrightarrow>
     doc \<noteq> [] \<and> (\<exists>body urls. signDocUnmarshal E doc = Inr body \<and> txBodyUnmarshal E body = Inr urls
       \<and> urls \<noteq> [] \<and> set urls \<subseteq> A)"
  by (auto simp: check_tx_def first_forbidden_None [symmetric] split: sum.splits option.splits)

text \<open>Claim C20: \<open>SignTx\<close> calls the backend only for a document that decodes to at least one message
  and whose every message type is on the allowlist.  When the allowed type URLs have at least
  27 characters, as those of the documented configuration have, such a document is longer than
  32 bytes, so it is never one of the 32-byte payloads that the other operations hash and sign.\<close>

theorem signtx_cannot_sign_checkpoint:
  assumes "tx_wire_spec E" and "\<forall>t\<in>allowedMsgTypes srv. 27 \<le> length t"
    and "SignTx E doc (srv, w) = (res, (srv', w'))" and "sign_log w' \<noteq> sign_log w"
  shows "sign_log w' = sign_log w @ [sha256 doc] \<and> 32 < length doc
    \<and> (\<exists>body urls. signDocUnmarshal E doc = Inr body \<and> txBodyUnmarshal E body = Inr urls
        \<and> urls \<noteq> [] \<and> set urls \<subseteq> allowedMsgTypes srv)"
proof -
  have chk: "check_tx E (allowedMsgTypes srv) doc = Inr ()"
    using assms(3,4) by (cases "check_tx E (allowedMsgTypes srv) doc") (auto simp: SignTx_def)
  have log: "sign_log w' = sign_log w @ [sha256 doc]"
    using assms(3) chk by (auto simp: SignTx_def split: go.splits sum.splits)
  obtain body urls where u: "signDocUnmarshal E doc = Inr body" "txBodyUnmarshal E body = Inr urls"
      "urls \<noteq> []" "set urls \<subseteq> allowedMsgTypes srv"
    using chk by (auto simp: check_tx_Inr)
  then obtain t where t: "t \<in> set urls" "27 \<le> length t" using assms(2) by (cases urls) auto
  then have "t \<noteq> ''''" by auto
  with u(1,2) t(1) assms(1) have "length t + 6 \<le> length doc" unfolding tx_wire_spec_def by blast
  with t(2) log u show ?thesis by auto
qed

text \<open>A transaction codec whose body is the URL behind a six-byte envelope.\<close>

definition wire_env :: "string env" where
  "wire_env = demo_env\<lparr>signDocUnmarshal := (\<lambda>d. if 6 < length d then Inr (drop 6 d) else Inl ''EOF''),
      txBodyUnmarshal := (\<lambda>b. Inr [string_of b])\<rparr>"

definition submit_value :: string where
  "submit_value = ''/layer.oracle.MsgSubmitValue''"

lemma wire_env_spec: "tx_wire_spec wire_env"
  by (auto simp: tx_wire_spec_def wire_env_def string_of_def split: if_splits)

theorem signtx_cannot_sign_checkpoint_witness:
  "32 < length (replicate 6 0 @ bytes_of submit_value)
   \<and> sign_log (snd (snd (SignTx wire_env (replicate 6 0 @ bytes_of submit_value)
        (demo_server\<lparr>allowedMsgTypes := {submit_value}\<rparr>, demo_world)))) \<noteq> []"
proof -
  let ?doc = "replicate 6 0 @ bytes_of submit_value" and ?srv = "demo_server\<lparr>allowedMsgTypes := {submit_value}\<rparr>"
  have len: "length submit_value = 28" by (simp add: submit_value_def)
  have "check_tx wire_env {submit_value} ?doc = Inr ()"
    using len by (simp add: check_tx_Inr wire_env_def)
  then have run: "SignTx wire_env ?doc (?srv, demo_world)
      = (Returns (Inr (SignTxResponse (sha256 ?doc @ sha256 ?doc))), (?srv, demo_world\<lparr>sign_log := [sha256 ?doc]\<rparr>))"
    by (simp add: SignTx_def wire_env_def demo_env_def demo_world_def)
  have "32 < length ?doc"
    using signtx_cannot_sign_checkpoint [OF wire_env_spec _ run] len by (simp add: demo_world_def)
  with run show ?thesis by simp
qed

section \<open>Properties of the served calls\<close>

lemma serve_cases:
  "serve E ctx req (srv, w) =
     (if enabledRPCs srv (full_method req) = Some False
      then (Returns (Inl (Status Unimplemented (MethodDisabled (full_method req)))), (srv, w))
      else if gate_refuses ctx (full_method req)
      then (Returns (Inl (Status FailedPrecondition NotPrimary)), (srv, w))
      else (recovered (fst (bridge_handler E req (srv, w))), snd (bridge_handler E req (srv, w))))"
  by (simp add: serve_def server_call)

text \<open>Claim C21: vote-extension signing follows the election.  With an arbiter whose primary is the
  dial target \<open>tcp://h:p\<close>, a checkpoint or attestation request from a peer with host \<open>h'\<close> reaches
  its handler if \<open>h' = h\<close>, and otherwise is refused without any effect; every other RPC is served
  for every peer.\<close>

theorem vote_extensions_follow_primary:
  assumes "primary a = ''tcp://'' @ h @ CHR '':'' # p" and "plain_host h" and "plain_host p" and "h \<noteq> ''''"
    and "plain_host h'" and "plain_host q" and "CHR ''/'' \<notin> set q"
    and "enabledRPCs srv (full_method req) \<noteq> Some False"
  shows "serve E \<lparr>peer = Some (h' @ CHR '':'' # q), primaryHost = Some (PrimaryHost a)\<rparr> req (srv, w) =
    (if full_method req \<in> set primaryGatedRPCs \<and> h' \<noteq> h
     then (Returns (Inl (Status FailedPrecondition NotPrimary)), (srv, w))
     else (recovered (fst (bridge_handler E req (srv, w))), snd (bridge_handler E req (srv, w))))"
proof -
  have "PrimaryHost a = h" using HostOf_url [OF assms(2,3)] assms(1) by (simp add: PrimaryHost_def)
  moreover have "HostOf (h' @ CHR '':'' # q) = h'" by (rule HostOf_peer [OF assms(5-7)])
  ultimately show ?thesis using assms(4,8) by (simp add: serve_cases gate_refuses_def)
qed

definition url_arbiter :: PrimaryArbiter where
  "url_arbiter = (NewPrimaryArbiter 10)\<lparr>primary := ''tcp://10.0.0.1:26659''\<rparr>"

theorem vote_extensions_follow_primary_witness:
  "serve demo_env \<lparr>peer = Some ''10.0.0.2:40000'', primaryHost = Some (PrimaryHost url_arbiter)\<rparr>
      (AttestationRequest demo_attestation) (demo_server, demo_world)
    = (Returns (Inl (Status FailedPrecondition NotPrimary)), (demo_server, demo_world))"
  using vote_extensions_follow_primary [of url_arbiter "''10.0.0.1''" "''26659''" "''10.0.0.2''" "''40000''"
      demo_server "AttestationRequest demo_attestation" demo_env demo_world]
  by (simp add: url_arbiter_def NewPrimaryArbiter_def NewPreferringPrimaryArbiter_def plain_host_def demo_server_def
      primaryGatedRPCs_def)

text \<open>With dial targets that are host names, as in the example configuration, the gate
  refuses every peer, the elected node included, because a peer shows its IP address.\<close>

theorem hostname_target_locks_out_primary:
  "fst (serve E \<lparr>peer = Some ''172.18.0.3:40000'',
       primaryHost = Some (PrimaryHost (snd (Acquire (NewPrimaryArbiter 10) ''tcp://layer:26659'' 1 0)))\<rparr>
     (CheckpointRequest r) (demo_server, w))
   = Returns (Inl (Status FailedPrecondition NotPrimary))"
proof -
  have "PrimaryHost (snd (Acquire (NewPrimaryArbiter 10) ''tcp://layer:26659'' 1 0)) = ''layer''"
    using HostOf_url [of "''layer''" "''26659''"]
    by (simp add: PrimaryHost_def Acquire_def NewPrimaryArbiter_def NewPreferringPrimaryArbiter_def plain_host_def)
  moreover have "HostOf ''172.18.0.3:40000'' = ''172.18.0.3''"
    using HostOf_peer [of "''172.18.0.3''" "''40000''"] by (simp add: plain_host_def)
  ultimately show ?thesis
    by (simp add: serve_cases gate_refuses_def demo_server_def primaryGatedRPCs_def)
qed

end
