(* ===== verification/Interleaving.thy ===== *)
theory Interleaving
  imports Bridge_Server
begin

text \<open>
  The server under concurrent requests and restarts.

  gRPC runs every call in its own goroutine.  The checkpoint handler is split at the points
  where it takes the guard's mutex or calls the backend; a thread is a request with the point it
  has reached, and the threads of a process interleave step by step.  The other handlers touch
  no shared state of the server and run in one step.  A process can die at any moment, which
  loses its threads and its memory, and a new one is then built by \<open>New\<close> from the file system.

  The invariants below rest on the contract \<open>monotone_gate\<close> of the replay guard.
\<close>

section \<open>The checkpoint handler in steps\<close>

datatype pc =
    Verify
  | Advance bytes
  | Lookup bytes guard_error
  | SignIt bytes
  | Record bytes bytes
  | Done "response result"

fun ckpt_step :: "'ty env \<Rightarrow> SignBridgeCheckpointRequest \<Rightarrow> pc \<Rightarrow> state \<Rightarrow> pc \<times> state" where
  "ckpt_step E req Verify st =
     (case verify_checkpoint E (selfEVMAddr (fst st)) req of
        Inl e \<Rightarrow> (Done (Returns (Inl e)), st)
      | Inr c \<Rightarrow> (Advance c, st))"
| "ckpt_step E req (Advance c) st =
     (case guard_advance (ValidatorTimestamp req) st of
        (Inl e, st1) \<Rightarrow> (Lookup c e, st1)
      | (Inr _, st1) \<Rightarrow> (SignIt c, st1))"
| "ckpt_step E req (Lookup c e) st = (Done (guard_answer (ValidatorTimestamp req) c e (fst st)), st)"
| "ckpt_step E req (SignIt c) (srv, w) =
     (case checked_sign E '''' (sha256 c) w of
        (Panics, w1) \<Rightarrow> (Done Panics, (srv, w1))
      | (Returns (Inl e), w1) \<Rightarrow> (Done (Returns (Inl e)), (srv, w1))
      | (Returns (Inr sig), w1) \<Rightarrow> (Record c sig, (srv, w1)))"
| "ckpt_step E req (Record c sig) st =
     (Done (Returns (Inr (SignBridgeCheckpointResponse sig c))), guard_record (ValidatorTimestamp req) c sig st)"
| "ckpt_step E req (Done r) st = (Done r, st)"

section \<open>The system\<close>

record sys =
  running :: "Server option"
  wld :: world
  threads :: "(SignBridgeCheckpointRequest \<times> pc) list"

datatype event =
    EvArrive SignBridgeCheckpointRequest
  | EvTau
  | EvSign bytes SignBridgeCheckpointRequest bytes "bytes option"
  | EvMemo SignBridgeCheckpointRequest bytes bytes
  | EvServe bytes request
  | EvCrash
  | EvStart

fun step_event :: "bytes \<Rightarrow> SignBridgeCheckpointRequest \<Rightarrow> pc \<Rightarrow> pc \<Rightarrow> event" where
  "step_event self r (SignIt c) (Record _ sig) = EvSign self r c (Some sig)"
| "step_event self r (SignIt c) _ = EvSign self r c None"
| "step_event self r (Lookup c e) (Done (Returns (Inr (SignBridgeCheckpointResponse sig _)))) = EvMemo r c sig"
| "step_event self r _ _ = EvTau"

fun is_checkpoint :: "request \<Rightarrow> bool" where
  "is_checkpoint (CheckpointRequest _) = True"
| "is_checkpoint _ = False"

inductive sys_step :: "'ty env \<Rightarrow> Config \<Rightarrow> sys \<Rightarrow> event \<Rightarrow> sys \<Rightarrow> bool" for E cfg where
  arrive: "running s = Some srv \<Longrightarrow>
    sys_step E cfg s (EvArrive r) (s\<lparr>threads := threads s @ [(r, Verify)]\<rparr>)"
| run: "running s = Some srv \<Longrightarrow> threads s = as @ (r, pc) # bs \<Longrightarrow> ckpt_step E r pc (srv, wld s) = (pc', (srv', w')) \<Longrightarrow>
    sys_step E cfg s (step_event (selfEVMAddr srv) r pc pc')
      \<lparr>running = Some srv', wld = w', threads = as @ (r, pc') # bs\<rparr>"
| other: "running s = Some srv \<Longrightarrow> \<not> is_checkpoint req \<Longrightarrow> serve E ctx req (srv, wld s) = (res, (srv', w')) \<Longrightarrow>
    sys_step E cfg s (EvServe (selfCosmosAddr srv) req) (s\<lparr>running := Some srv', wld := w'\<rparr>)"
| crash: "sys_step E cfg s EvCrash (s\<lparr>running := None, threads := []\<rparr>)"
| start: "running s = None \<Longrightarrow> New E cfg (wld s) = (r, w') \<Longrightarrow>
    sys_step E cfg s EvStart (s\<lparr>running := (case r of Inl _ \<Rightarrow> None | Inr srv \<Rightarrow> Some srv), wld := w'\<rparr>)"

inductive_cases sys_stepE: "sys_step E cfg s ev s'"

definition initial_sys :: "world \<Rightarrow> sys" where
  "initial_sys w = \<lparr>running = None, wld = w, threads = []\<rparr>"

inductive sys_exec :: "'ty env \<Rightarrow> Config \<Rightarrow> world \<Rightarrow> event list \<Rightarrow> sys \<Rightarrow> bool" for E cfg w where
  exec_init: "sys_exec E cfg w [] (initial_sys w)"
| exec_step: "sys_exec E cfg w evs s \<Longrightarrow> sys_step E cfg s ev s' \<Longrightarrow> sys_exec E cfg w (evs @ [ev]) s'"

section \<open>The steps make up the handler\<close>

text \<open>Run without interruption, the steps of a checkpoint request are the handler: after
  four of them the request is answered with the handler's result in the handler's state.\<close>

theorem steps_refine_handler:
  "((\<lambda>(pc, st). ckpt_step E req pc st) ^^ 4) (Verify, st) =
     (Done (fst (SignBridgeCheckpoint E req st)), snd (SignBridgeCheckpoint E req st))"
proof -
  obtain srv w where st: "st = (srv, w)" by force
  have four: "(f ^^ 4) x = f (f (f (f x)))" for f :: "pc \<times> state \<Rightarrow> pc \<times> state" and x
    by (simp add: eval_nat_numeral)
  show ?thesis
  proof (cases "verify_checkpoint E (selfEVMAddr srv) req")
    case (Inl e)
    then show ?thesis by (simp add: four st SignBridgeCheckpoint_def)
  next
    case (Inr c)
    obtain a srv1 w1 where adv: "guard_advance (ValidatorTimestamp req) (srv, w) = (a, (srv1, w1))"
      by (metis prod.collapse)
    obtain res w2 where sgn: "checked_sign E '''' (sha256 c) w1 = (res, w2)" by force
    show ?thesis
      using Inr adv sgn by (auto simp: four st SignBridgeCheckpoint_def split: sum.splits go.splits)
  qed
qed

section \<open>Frames\<close>

lemma guard_advance_frame:
  "guard_advance ts (srv, w) = (r, (srv', w')) \<Longrightarrow>
     (\<exists>g' o'. CheckAndAdvance (checkpointGuard srv) ts (w_os w) = (r, g', o')
       \<and> srv' = srv\<lparr>checkpointGuard := g'\<rparr> \<and> w' = w\<lparr>w_os := o'\<rparr>)"
  by (auto simp: guard_advance_def split: prod.splits)

lemma guard_record_frame:
  "guard_record ts c sig (srv, w) = (srv', w') \<Longrightarrow>
     (\<exists>r g' o'. RecordSignature (checkpointGuard srv) ts c sig (w_os w) = (r, g', o')
       \<and> srv' = srv\<lparr>checkpointGuard := g'\<rparr> \<and> w' = w\<lparr>w_os := o'\<rparr>)"
  by (auto simp: guard_record_def split: prod.splits)

lemma checked_sign_cases:
  "checked_sign E l d w = (r, w') \<Longrightarrow>
     w' = w\<lparr>sign_log := sign_log w @ [d]\<rparr> \<and> (\<forall>sig. r = Returns (Inr sig) \<longrightarrow> length sig = 64)"
  using checked_sign_world [of E l d w] checked_sign_length [of E l d w] by (metis fst_conv snd_conv)

fun step_digests :: "pc \<Rightarrow> bytes list" where
  "step_digests (SignIt c) = [sha256 c]"
| "step_digests _ = []"

lemma ckpt_step_frame:
  assumes "ckpt_step E r pc (srv, w) = (pc', (srv', w'))"
  shows "\<exists>g. srv' = srv\<lparr>checkpointGuard := g\<rparr>" and "sign_log w' = sign_log w @ step_digests pc"
proof -
  have srv: "\<exists>g. srv = srv\<lparr>checkpointGuard := g\<rparr>" by (rule exI [of _ "checkpointGuard srv"]) simp
  have "(\<exists>g. srv' = srv\<lparr>checkpointGuard := g\<rparr>) \<and> sign_log w' = sign_log w @ step_digests pc"
  proof (cases pc)
    case Verify
    with assms srv show ?thesis by (auto split: sum.splits)
  next
    case (Advance c)
    with assms obtain a where "guard_advance (ValidatorTimestamp r) (srv, w) = (a, (srv', w'))"
      by (auto split: prod.splits sum.splits)
    from guard_advance_frame [OF this] Advance show ?thesis by auto
  next
    case (SignIt c)
    obtain a w1 where "checked_sign E '''' (sha256 c) w = (a, w1)" by force
    with checked_sign_cases [OF this] assms SignIt srv show ?thesis by (auto split: go.splits sum.splits)
  next
    case (Record c sig)
    with assms have "guard_record (ValidatorTimestamp r) c sig (srv, w) = (srv', w')" by simp
    from guard_record_frame [OF this] Record show ?thesis by auto
  qed (use assms srv in auto)
  then show "\<exists>g. srv' = srv\<lparr>checkpointGuard := g\<rparr>" "sign_log w' = sign_log w @ step_digests pc" by blast+
qed

text \<open>What the RPCs other than the checkpoint may hand to the backend.\<close>

fun served_digest :: "'ty env \<Rightarrow> string set \<Rightarrow> bytes \<Rightarrow> request \<Rightarrow> bytes \<Rightarrow> bool" where
  "served_digest E allowed self (SignTxRequest doc _) d \<longleftrightarrow> check_tx E allowed doc = Inr () \<and> d = sha256 doc"
| "served_digest E allowed self (AttestationRequest r) d \<longleftrightarrow>
     (case verify_attestation E r of Inl _ \<Rightarrow> False | Inr snapshot \<Rightarrow> d = sha256 snapshot)"
| "served_digest E allowed self (SignInitialRequest operator _) d \<longleftrightarrow>
     (case bech32Decode E operator of Inl _ \<Rightarrow> False | Inr (_, addr) \<Rightarrow> addr = self)
   \<and> (d = initialSigningDigest (fst (initialRegistrationMessages operator))
      \<or> d = initialSigningDigest (snd (initialRegistrationMessages operator)))"
| "served_digest E allowed self _ d \<longleftrightarrow> False"

definition served_effect :: "'ty env \<Rightarrow> request \<Rightarrow> Server \<times> world \<Rightarrow> Server \<times> world \<Rightarrow> bool" where
  "served_effect E req st st' \<longleftrightarrow>
     fst st' = fst st \<and> w_os (snd st') = w_os (snd st)
   \<and> (\<exists>ds. sign_log (snd st') = sign_log (snd st) @ ds
        \<and> list_all (served_digest E (allowedMsgTypes (fst st)) (selfCosmosAddr (fst st)) req) ds)"

lemma served_effect_refl: "served_effect E req st st"
  by (simp add: served_effect_def)

lemma served_effect_pub: "served_effect E req (srv, w) (srv, snd (get_public_key E w))"
  by (simp add: served_effect_def get_public_key_def)

lemma SignTx_effect: "served_effect E (SignTxRequest doc i) st (snd (SignTx E doc st))"
  by (auto simp: served_effect_def SignTx_def split: prod.splits sum.splits go.splits)

lemma SignOracleAttestation_effect: "served_effect E (AttestationRequest r) st (snd (SignOracleAttestation E r st))"
  by (auto simp: served_effect_def SignOracleAttestation_def dest!: checked_sign_cases
      split: prod.splits sum.splits go.splits)

lemma SignInitial_effect: "served_effect E (SignInitialRequest op i) st (snd (SignInitial E op st))"
proof -
  obtain srv w where st: "st = (srv, w)" by force
  obtain a b where m: "initialRegistrationMessages op = (a, b)" by force
  obtain r1 w1 where s1: "checked_sign E ''A'' (initialSigningDigest a) w = (r1, w1)" by force
  obtain r2 w2 where s2: "checked_sign E ''B'' (initialSigningDigest b) w1 = (r2, w2)" by force
  show ?thesis
    using checked_sign_cases [OF s1] checked_sign_cases [OF s2] s1 s2 m
    by (auto simp: served_effect_def SignInitial_def st split: sum.splits go.splits)
qed

lemma handler_effect:
  assumes "\<not> is_checkpoint req"
  shows "served_effect E req st (snd (bridge_handler E req st))"
proof (cases req)
  case GetPublicKeyRequest
  then show ?thesis using served_effect_pub [of E req "fst st" "snd st"]
    by (auto simp: GetPublicKey_def split: prod.splits sum.splits)
next
  case (GetAddressRequest prefix)
  then show ?thesis
    using served_effect_pub [of E req "fst st" "snd st"] served_effect_refl [of E req st]
    by (auto simp: GetAddress_def Bech32Address_def split: prod.splits sum.splits)
qed (use assms in \<open>simp_all add: served_effect_refl Sign_def SignRaw_def GetChainID_def SignTx_effect
      SignOracleAttestation_effect SignInitial_effect\<close>)

lemma serve_effect:
  assumes "\<not> is_checkpoint req" and "serve E ctx req (srv, w) = (res, (srv', w'))"
  shows "served_effect E req (srv, w) (srv', w')"
  using assms(2) handler_effect [OF assms(1), of E "(srv, w)"] served_effect_refl [of E req "(srv, w)"]
  by (auto simp: serve_cases split: if_splits)

section \<open>Threads only carry verified checkpoints\<close>

fun thread_wf :: "'ty env \<Rightarrow> bytes \<Rightarrow> SignBridgeCheckpointRequest \<times> pc \<Rightarrow> bool" where
  "thread_wf E self (r, Advance c) \<longleftrightarrow> verify_checkpoint E self r = Inr c"
| "thread_wf E self (r, Lookup c e) \<longleftrightarrow> verify_checkpoint E self r = Inr c"
| "thread_wf E self (r, SignIt c) \<longleftrightarrow> verify_checkpoint E self r = Inr c"
| "thread_wf E self (r, Record c sig) \<longleftrightarrow> verify_checkpoint E self r = Inr c \<and> length sig = 64"
| "thread_wf E self _ \<longleftrightarrow> True"

definition threads_inv :: "'ty env \<Rightarrow> Config \<Rightarrow> sys \<Rightarrow> bool" where
  "threads_inv E cfg s \<longleftrightarrow>
     (case running s of
        None \<Rightarrow> threads s = []
      | Some srv \<Rightarrow> list_all (thread_wf E (selfEVMAddr srv)) (threads s)
                  \<and> allowedMsgTypes srv = set (AllowedMsgTypes cfg))"

lemma thread_wf_step:
  assumes "thread_wf E (selfEVMAddr srv) (r, pc)" and "ckpt_step E r pc (srv, w) = (pc', (srv', w'))"
  shows "thread_wf E (selfEVMAddr srv) (r, pc')"
proof (cases pc)
  case (SignIt c)
  obtain a w1 where "checked_sign E '''' (sha256 c) w = (a, w1)" by force
  with checked_sign_cases [OF this] assms SignIt show ?thesis by (auto split: go.splits sum.splits)
qed (use assms in \<open>auto split: sum.splits prod.splits\<close>)

lemma New_threads:
  "New E cfg w = (Inr srv, w') \<Longrightarrow> allowedMsgTypes srv = set (AllowedMsgTypes cfg)"
  by (auto simp: New_def split: sum.splits prod.splits)

lemma threads_inv_step: "sys_step E cfg s ev s' \<Longrightarrow> threads_inv E cfg s \<Longrightarrow> threads_inv E cfg s'"
proof (induction rule: sys_step.induct)
  case (run s srv as r pc bs pc' srv' w')
  then have "thread_wf E (selfEVMAddr srv) (r, pc')"
    using thread_wf_step by (fastforce simp: threads_inv_def)
  moreover obtain g where "srv' = srv\<lparr>checkpointGuard := g\<rparr>" using ckpt_step_frame(1) run.hyps(3) by blast
  ultimately show ?case using run by (simp add: threads_inv_def)
next
  case (other s srv req ctx res srv' w')
  then have "srv' = srv" using serve_effect by (fastforce simp: served_effect_def)
  with other show ?case by (simp add: threads_inv_def)
next
  case (start s r w')
  then show ?case by (auto simp: threads_inv_def dest!: New_threads split: sum.splits)
qed (auto simp: threads_inv_def)

lemma threads_inv_exec: "sys_exec E cfg w evs s \<Longrightarrow> threads_inv E cfg s"
proof (induction rule: sys_exec.induct)
  case exec_init
  then show ?case by (simp add: threads_inv_def initial_sys_def)
next
  case (exec_step evs s ev s')
  then show ?case by (blast intro: threads_inv_step)
qed

section \<open>No timestamp is signed twice\<close>

fun pend :: "SignBridgeCheckpointRequest \<times> pc \<Rightarrow> u64 list" where
  "pend (r, SignIt c) = [ValidatorTimestamp r]"
| "pend _ = []"

fun event_ts :: "event \<Rightarrow> u64 list" where
  "event_ts (EvSign self r c sig) = [ValidatorTimestamp r]"
| "event_ts _ = []"

definition pending :: "sys \<Rightarrow> u64 list" where
  "pending s = concat (map pend (threads s))"

definition signed_ts :: "event list \<Rightarrow> u64 list" where
  "signed_ts evs = concat (map event_ts evs)"

definition gate_inv :: "string \<Rightarrow> u64 \<Rightarrow> event list \<Rightarrow> sys \<Rightarrow> bool" where
  "gate_inv p b evs s \<longleftrightarrow>
     distinct (b # signed_ts evs @ pending s)
   \<and> (\<forall>t\<in>insert b (set (signed_ts evs @ pending s)).
        guard_gate.ready p t (map_option checkpointGuard (running s)) (w_os (wld s)))"

lemma event_ts_step:
  "event_ts (step_event self r pc pc') = pend (r, pc)"
  by (cases "(self, r, pc, pc')" rule: step_event.cases) auto

text \<open>How one step of one thread moves the gate and the set of pending timestamps.\<close>

lemma gate_step:
  assumes wf: "thread_wf E (selfEVMAddr srv) (r, pc)" and stp: "ckpt_step E r pc (srv, w) = (pc', (srv', w'))"
    and rdy: "\<forall>t\<in>insert b T. guard_gate.ready p t (Some (checkpointGuard srv)) (w_os w)"
  shows "(pend (r, pc') = [] \<or> pend (r, pc') = [ValidatorTimestamp r] \<and> ValidatorTimestamp r \<notin> insert b T)
    \<and> (\<forall>t\<in>insert b (T \<union> set (pend (r, pc'))). guard_gate.ready p t (Some (checkpointGuard srv')) (w_os w'))"
proof (cases pc)
  case (Advance c)
  obtain a where adv: "guard_advance (ValidatorTimestamp r) (srv, w) = (a, (srv', w'))"
      "pc' = (case a of Inl e \<Rightarrow> Lookup c e | Inr _ \<Rightarrow> SignIt c)"
    using stp Advance by (auto split: prod.splits sum.splits)
  from guard_advance_frame [OF adv(1)] obtain g' o'
    where g: "CheckAndAdvance (checkpointGuard srv) (ValidatorTimestamp r) (w_os w) = (a, g', o')"
      "srv' = srv\<lparr>checkpointGuard := g'\<rparr>" "w' = w\<lparr>w_os := o'\<rparr>" by blast
  show ?thesis
  proof (cases a)
    case (Inl e)
    have "guard_gate.ready p t (Some g') o'" if "t \<in> insert b T" for t
      using guard_gate.ready_adv(2) [OF rdy [rule_format, OF that] g(1) [unfolded Inl]] .
    with g adv(2) Inl show ?thesis by simp
  next
    case (Inr u)
    have lt: "t < ValidatorTimestamp r" and ts: "guard_gate.ready p (ValidatorTimestamp r) (Some g') o'"
      if "t \<in> insert b T" for t
      using guard_gate.ready_adv(1) [OF rdy [rule_format, OF that] g(1) [unfolded Inr]] by simp_all
    have "guard_gate.ready p t (Some g') o'" if "t \<in> insert b T" for t
      using lt [OF that] ts [OF that] by (auto simp: guard_gate.ready_simps)
    with lt ts g adv(2) Inr show ?thesis by force
  qed
next
  case (Record c sig)
  then have "length c = 32" "length sig = 64" using wf verify_checkpoint_length by auto
  moreover have "guard_record (ValidatorTimestamp r) c sig (srv, w) = (srv', w')" using Record stp by simp
  from guard_record_frame [OF this] obtain a g' o'
    where g: "RecordSignature (checkpointGuard srv) (ValidatorTimestamp r) c sig (w_os w) = (a, g', o')"
      "srv' = srv\<lparr>checkpointGuard := g'\<rparr>" "w' = w\<lparr>w_os := o'\<rparr>" by blast
  moreover note g(1)
  ultimately have "guard_gate.ready p t (Some g') o'" if "t \<in> insert b T" for t
    using guard_gate.ready_note [OF rdy [rule_format, OF that]] by blast
  with g Record stp show ?thesis by auto
next
  case (SignIt c)
  obtain a w1 where "checked_sign E '''' (sha256 c) w = (a, w1)" by force
  with checked_sign_cases [OF this] stp SignIt rdy show ?thesis by (auto split: go.splits sum.splits)
qed (use stp rdy in \<open>auto split: sum.splits\<close>)

lemma distinct_move:
  "distinct (S @ A @ x @ B) \<Longrightarrow> x = [] \<or> y = [] \<Longrightarrow> distinct y \<Longrightarrow> set y \<inter> set (S @ A @ x @ B) = {}
     \<Longrightarrow> distinct ((S @ x) @ A @ y @ B)"
  by auto

lemma gate_inv_run:
  assumes "running s = Some srv" and ths: "threads s = as @ (r, pc) # bs"
    and stp: "ckpt_step E r pc (srv, wld s) = (pc', (srv', w'))"
    and wf: "thread_wf E (selfEVMAddr srv) (r, pc)" and inv: "gate_inv p b evs s"
  shows "gate_inv p b (evs @ [step_event self r pc pc']) \<lparr>running = Some srv', wld = w', threads = as @ (r, pc') # bs\<rparr>"
proof -
  let ?s' = "\<lparr>running = Some srv', wld = w', threads = as @ (r, pc') # bs\<rparr>"
  let ?T = "set (signed_ts evs @ pending s)"
  have pend: "pending s = concat (map pend as) @ pend (r, pc) @ concat (map pend bs)"
      "pending ?s' = concat (map pend as) @ pend (r, pc') @ concat (map pend bs)"
      "signed_ts (evs @ [step_event self r pc pc']) = signed_ts evs @ pend (r, pc)"
    using ths by (simp_all add: pending_def signed_ts_def event_ts_step)
  have new: "(pend (r, pc') = [] \<or> pend (r, pc') = [ValidatorTimestamp r] \<and> ValidatorTimestamp r \<notin> insert b ?T)
    \<and> (\<forall>t\<in>insert b (?T \<union> set (pend (r, pc'))). guard_gate.ready p t (Some (checkpointGuard srv')) (w_os w'))"
    by (rule gate_step [OF wf stp]) (use inv assms(1) in \<open>simp add: gate_inv_def\<close>)
  have xy: "pend (r, pc) = [] \<or> pend (r, pc') = []"
    using stp by (cases pc) (auto split: prod.splits go.splits sum.splits)
  have d: "distinct ((b # signed_ts evs) @ concat (map pend as) @ pend (r, pc) @ concat (map pend bs))"
    using inv by (simp only: gate_inv_def pend append_Cons)
  have "distinct (pend (r, pc'))"
      "set (pend (r, pc')) \<inter> set ((b # signed_ts evs) @ concat (map pend as) @ pend (r, pc) @ concat (map pend bs)) = {}"
    using new unfolding pend by auto
  from distinct_move [OF d xy this]
  have "distinct (b # signed_ts (evs @ [step_event self r pc pc']) @ pending ?s')"
    unfolding pend by simp
  moreover have "set (signed_ts (evs @ [step_event self r pc pc']) @ pending ?s') \<subseteq> ?T \<union> set (pend (r, pc'))"
    unfolding pend by auto
  ultimately show ?thesis using new unfolding gate_inv_def by auto
qed

lemma New_guard:
  assumes "New E cfg w = (r, w')"
  shows "sign_log w' = sign_log w"
    and "(\<exists>srv. r = Inr srv \<and> newCheckpointReplayGuard (CheckpointGuardStatePath cfg) (w_os w) = (Inr (checkpointGuard srv), w_os w'))
       \<or> (\<exists>e. r = Inl e) \<and> (w_os w' = w_os w
         \<or> (\<exists>e. newCheckpointReplayGuard (CheckpointGuardStatePath cfg) (w_os w) = (Inl e, w_os w')))"
  using assms by (auto simp: New_def get_public_key_def split: sum.splits prod.splits)

lemma gate_inv_step:
  assumes "sys_step E cfg s ev s'" and "threads_inv E cfg s" and "gate_inv (CheckpointGuardStatePath cfg) b evs s"
  shows "gate_inv (CheckpointGuardStatePath cfg) b (evs @ [ev]) s'"
  using assms
proof (induction rule: sys_step.induct)
  case (run s srv as r pc bs pc' srv' w')
  then have "thread_wf E (selfEVMAddr srv) (r, pc)" by (simp add: threads_inv_def)
  then show ?case using gate_inv_run run by blast
next
  case (other s srv req ctx res srv' w')
  then have "srv' = srv" "w_os w' = w_os (wld s)" using serve_effect by (fastforce simp: served_effect_def)+
  with other show ?case by (simp add: gate_inv_def pending_def signed_ts_def)
next
  case (crash s)
  have "guard_gate.ready p t None (w_os (wld s))" if "guard_gate.ready p t g (w_os (wld s))" for p t g
    using guard_gate.ready_durable [OF that] by (simp add: guard_gate.ready_simps)
  with crash have "\<forall>t\<in>insert b (set (signed_ts evs)). guard_gate.ready (CheckpointGuardStatePath cfg) t None (w_os (wld s))"
      "distinct (b # signed_ts evs)"
    unfolding gate_inv_def by (metis UnI1 insert_iff set_append, simp)
  then show ?case by (simp add: gate_inv_def pending_def signed_ts_def)
next
  case (start s r w')
  then have "pending s = []" by (simp add: threads_inv_def pending_def)
  moreover have "guard_gate.ready p t (case r of Inl _ \<Rightarrow> None | Inr srv \<Rightarrow> Some (checkpointGuard srv)) (w_os w')"
    if "guard_gate.ready p t None (w_os (wld s))" "p = CheckpointGuardStatePath cfg" for p t
    using New_guard(2) [OF start.hyps(2)] that(1) unfolding that(2)
    by (auto dest: guard_gate.ready_restart)
  ultimately show ?case
    using start unfolding gate_inv_def by (auto simp: pending_def signed_ts_def split: sum.splits)
qed (simp_all add: gate_inv_def pending_def signed_ts_def)

lemma gate_inv_exec:
  assumes "sys_exec E cfg w evs s" and "durable_mark (CheckpointGuardStatePath cfg) b (w_os w)"
  shows "gate_inv (CheckpointGuardStatePath cfg) b evs s"
  using assms(1)
proof (induction rule: sys_exec.induct)
  case exec_init
  from assms(2) show ?case
    by (simp add: gate_inv_def initial_sys_def pending_def signed_ts_def guard_gate.ready_simps)
next
  case (exec_step evs s ev s')
  then show ?case using gate_inv_step threads_inv_exec by blast
qed

section \<open>Every digest is justified\<close>

fun event_justifies :: "'ty env \<Rightarrow> Config \<Rightarrow> event \<Rightarrow> bytes \<Rightarrow> bool" where
  "event_justifies E cfg (EvSign self r c sig) d \<longleftrightarrow> verify_checkpoint E self r = Inr c \<and> d = sha256 c"
| "event_justifies E cfg (EvServe self req) d \<longleftrightarrow> served_digest E (set (AllowedMsgTypes cfg)) self req d"
| "event_justifies E cfg _ d \<longleftrightarrow> False"

lemma log_step:
  assumes "sys_step E cfg s ev s'" and "threads_inv E cfg s"
  shows "\<exists>ds. sign_log (wld s') = sign_log (wld s) @ ds \<and> list_all (event_justifies E cfg ev) ds"
  using assms
proof (induction rule: sys_step.induct)
  case (run s srv as r pc bs pc' srv' w')
  have log: "sign_log w' = sign_log (wld s) @ step_digests pc" using ckpt_step_frame(2) [OF run.hyps(3)] .
  have wf: "thread_wf E (selfEVMAddr srv) (r, pc)" using run by (simp add: threads_inv_def)
  have "list_all (event_justifies E cfg (step_event (selfEVMAddr srv) r pc pc')) (step_digests pc)"
  proof (cases pc)
    case (SignIt c)
    then show ?thesis using wf by (cases pc') simp_all
  qed simp_all
  with log show ?case by auto
next
  case (other s srv req ctx res srv' w')
  then show ?case using serve_effect [OF other.hyps(2,3)] by (auto simp: served_effect_def threads_inv_def)
next
  case (start s r w')
  then show ?case using New_guard(1) [OF start.hyps(2)] by simp
qed simp_all

lemma log_exec:
  assumes "sys_exec E cfg w evs s"
  shows "\<exists>ds. sign_log (wld s) = sign_log w @ ds \<and> list_all (\<lambda>d. list_ex (\<lambda>ev. event_justifies E cfg ev d) evs) ds"
  using assms
proof (induction rule: sys_exec.induct)
  case exec_init
  then show ?case by (simp add: initial_sys_def)
next
  case (exec_step evs s ev s')
  obtain ds where ds: "sign_log (wld s) = sign_log w @ ds" "list_all (\<lambda>d. list_ex (\<lambda>ev. event_justifies E cfg ev d) evs) ds"
    using exec_step.IH by blast
  obtain ds' where ds': "sign_log (wld s') = sign_log (wld s) @ ds'" "list_all (event_justifies E cfg ev) ds'"
    using log_step [OF exec_step.hyps(2) threads_inv_exec [OF exec_step.hyps(1)]] by blast
  from ds ds' have "sign_log (wld s') = sign_log w @ (ds @ ds')" by simp
  moreover have "list_all (\<lambda>d. list_ex (\<lambda>ev. event_justifies E cfg ev d) (evs @ [ev])) (ds @ ds')"
    using ds(2) ds'(2) by (auto simp: list_all_iff list_ex_iff)
  ultimately show ?case by blast
qed

section \<open>Memos are authentic\<close>

text \<open>The memo that a state file or a guard holds: timestamp, checkpoint, signature.\<close>

definition file_memo :: "string \<Rightarrow> 'a os_scheme \<Rightarrow> (u64 \<times> bytes \<times> bytes) set" where
  "file_memo p s =
     (case content_at p s of
        None \<Rightarrow> {}
      | Some d \<Rightarrow> (case parse_guard d of Inr (hw, Some c, Some sg) \<Rightarrow> {(hw, c, sg)} | _ \<Rightarrow> {}))"

definition guard_memo :: "checkpointReplayGuard \<Rightarrow> (u64 \<times> bytes \<times> bytes) set" where
  "guard_memo g =
     (case (signedCheckpoint g, signedSignature g) of (Some c, Some sg) \<Rightarrow> {(highWater g, c, sg)} | _ \<Rightarrow> {})"

lemma persist_memo:
  assumes "persistLocked g s = (r, s')" and "memo_wf g" and "\<not> ends_tmp (statePath g)"
  shows "file_memo (statePath g) s' \<subseteq> file_memo (statePath g) s \<union> guard_memo g"
  using guard_store.put_any [OF assms(3), of "guard_blob g" s r s'] assms(1) parse_guard_blob [OF assms(2)]
  by (auto simp: persistLocked_def file_memo_def guard_memo_def split: option.splits)

lemma advance_memo:
  assumes "in_sync p g s" and "CheckAndAdvance g ts s = (r, g', s')"
  shows "guard_memo g' \<subseteq> guard_memo g" and "file_memo p s' \<subseteq> file_memo p s"
proof -
  let ?g = "g\<lparr>highWater := ts, signedCheckpoint := None, signedSignature := None\<rparr>"
  have "memo_wf ?g" "guard_memo ?g = {}" by (simp_all add: memo_wf_def guard_memo_def)
  moreover have p: "statePath ?g = p" "\<not> ends_tmp p" using assms(1) by (simp_all add: in_sync_def)
  ultimately have "file_memo p s1 \<subseteq> file_memo p s" if "persistLocked ?g s = (r1, s1)" for r1 s1
    using persist_memo [OF that] by simp
  with assms(2) \<open>guard_memo ?g = {}\<close> show "guard_memo g' \<subseteq> guard_memo g" "file_memo p s' \<subseteq> file_memo p s"
    by (auto simp: CheckAndAdvance_def Let_def split: if_splits sum.splits prod.splits)
qed

lemma record_memo:
  assumes "in_sync p g s" and "length c = 32" and "length sg = 64" and "RecordSignature g ts c sg s = (r, g', s')"
  shows "guard_memo g' \<subseteq> guard_memo g \<union> {(ts, c, sg)}" and "file_memo p s' \<subseteq> file_memo p s \<union> {(ts, c, sg)}"
proof -
  let ?g = "g\<lparr>signedCheckpoint := Some c, signedSignature := Some sg\<rparr>"
  have app: "append_nil c = Some c" "append_nil sg = Some sg" using assms(2,3) by (auto simp: append_nil_def)
  have "memo_wf ?g" using assms(2,3) by (simp add: memo_wf_def)
  moreover have "statePath ?g = p" "\<not> ends_tmp p" using assms(1) by (simp_all add: in_sync_def)
  ultimately have "file_memo p s1 \<subseteq> file_memo p s \<union> guard_memo ?g" if "persistLocked ?g s = (r1, s1)" for r1 s1
    using persist_memo [OF that] by simp
  moreover have "guard_memo ?g = {(highWater g, c, sg)}" by (simp add: guard_memo_def)
  ultimately show "guard_memo g' \<subseteq> guard_memo g \<union> {(ts, c, sg)}" "file_memo p s' \<subseteq> file_memo p s \<union> {(ts, c, sg)}"
    using assms(4) app by (auto simp: RecordSignature_def Let_def split: if_splits sum.splits prod.splits)
qed

lemma restart_memo:
  assumes "newCheckpointReplayGuard p s = (Inr g, s')"
  shows "guard_memo g \<subseteq> file_memo p s" and "file_memo p s' = file_memo p s"
proof -
  have "content_at p s' = content_at p s"
    using newGuard_inv(3) [OF assms] by (simp add: content_at_def)
  then show "file_memo p s' = file_memo p s" by (simp add: file_memo_def)
  show "guard_memo g \<subseteq> file_memo p s"
    using assms
    by (auto simp: newCheckpointReplayGuard_def os_read_file_def content_at_def Let_def guard_memo_def file_memo_def
        split: if_splits sum.splits os_error.splits option.splits node.splits prod.splits)
qed

lemma failed_restart_memo: "newCheckpointReplayGuard p s = (Inl e, s') \<Longrightarrow> file_memo p s' = file_memo p s"
proof -
  assume "newCheckpointReplayGuard p s = (Inl e, s')"
  then have "files s' = files s"
    by (auto simp: newCheckpointReplayGuard_def os_read_file_def Let_def
        split: if_splits sum.splits os_error.splits option.splits node.splits prod.splits)
  then have "content_at p s' = content_at p s" by (simp add: content_at_def)
  then show ?thesis by (simp add: file_memo_def)
qed

text \<open>What was signed in an execution, or was in the state file when it began.\<close>

fun event_memo :: "event \<Rightarrow> (u64 \<times> bytes \<times> bytes) set" where
  "event_memo (EvSign self r c (Some sig)) = {(ValidatorTimestamp r, c, sig)}"
| "event_memo _ = {}"

definition history :: "Config \<Rightarrow> world \<Rightarrow> event list \<Rightarrow> (u64 \<times> bytes \<times> bytes) set" where
  "history cfg w evs = file_memo (CheckpointGuardStatePath cfg) (w_os w) \<union> (\<Union>ev\<in>set evs. event_memo ev)"

fun thread_memo :: "SignBridgeCheckpointRequest \<times> pc \<Rightarrow> (u64 \<times> bytes \<times> bytes) set" where
  "thread_memo (r, Record c sig) = {(ValidatorTimestamp r, c, sig)}"
| "thread_memo _ = {}"

definition memo_inv :: "Config \<Rightarrow> (u64 \<times> bytes \<times> bytes) set \<Rightarrow> sys \<Rightarrow> bool" where
  "memo_inv cfg H s \<longleftrightarrow>
     file_memo (CheckpointGuardStatePath cfg) (w_os (wld s)) \<subseteq> H
   \<and> (\<forall>g\<in>set_option (running s). guard_memo (checkpointGuard g) \<subseteq> H)
   \<and> (\<forall>th\<in>set (threads s). thread_memo th \<subseteq> H)"

lemma memo_thread_step:
  assumes "in_sync p (checkpointGuard srv) (w_os w)" and "thread_wf E (selfEVMAddr srv) (r, pc)"
    and "ckpt_step E r pc (srv, w) = (pc', (srv', w'))"
    and "file_memo p (w_os w) \<subseteq> H" "guard_memo (checkpointGuard srv) \<subseteq> H" "thread_memo (r, pc) \<subseteq> H"
  shows "file_memo p (w_os w') \<subseteq> H" and "guard_memo (checkpointGuard srv') \<subseteq> H"
    and "thread_memo (r, pc') \<subseteq> H \<union> event_memo (step_event self r pc pc')"
proof -
  have "file_memo p (w_os w') \<subseteq> H \<and> guard_memo (checkpointGuard srv') \<subseteq> H
    \<and> thread_memo (r, pc') \<subseteq> H \<union> event_memo (step_event self r pc pc')"
  proof (cases pc)
    case (Advance c)
    obtain a where adv: "guard_advance (ValidatorTimestamp r) (srv, w) = (a, (srv', w'))"
        "pc' = (case a of Inl e \<Rightarrow> Lookup c e | Inr _ \<Rightarrow> SignIt c)"
      using assms(3) Advance by (auto split: prod.splits sum.splits)
    from guard_advance_frame [OF adv(1)] obtain g' o'
      where g: "CheckAndAdvance (checkpointGuard srv) (ValidatorTimestamp r) (w_os w) = (a, g', o')"
        "srv' = srv\<lparr>checkpointGuard := g'\<rparr>" "w' = w\<lparr>w_os := o'\<rparr>" by blast
    from advance_memo [OF assms(1) g(1)] g(2,3) assms(4,5) adv(2) show ?thesis
      by (cases a) auto
  next
    case (SignIt c)
    obtain a w1 where "checked_sign E '''' (sha256 c) w = (a, w1)" by force
    with checked_sign_cases [OF this] assms(3-5) SignIt show ?thesis by (auto split: go.splits sum.splits)
  next
    case (Record c sig)
    then have len: "length c = 32" "length sig = 64" using assms(2) verify_checkpoint_length by auto
    have "guard_record (ValidatorTimestamp r) c sig (srv, w) = (srv', w')" using Record assms(3) by simp
    from guard_record_frame [OF this] obtain a g' o'
      where g: "RecordSignature (checkpointGuard srv) (ValidatorTimestamp r) c sig (w_os w) = (a, g', o')"
        "srv' = srv\<lparr>checkpointGuard := g'\<rparr>" "w' = w\<lparr>w_os := o'\<rparr>" by blast
    from record_memo [OF assms(1) len g(1)] g(2,3) assms(3-6) Record show ?thesis by auto
  qed (use assms in \<open>auto split: sum.splits\<close>)
  then show "file_memo p (w_os w') \<subseteq> H" "guard_memo (checkpointGuard srv') \<subseteq> H"
      "thread_memo (r, pc') \<subseteq> H \<union> event_memo (step_event self r pc pc')" by blast+
qed

lemma memo_inv_mono: "memo_inv cfg H s \<Longrightarrow> H \<subseteq> H' \<Longrightarrow> memo_inv cfg H' s"
  unfolding memo_inv_def by blast

lemma memo_inv_step:
  assumes "sys_step E cfg s ev s'" and "threads_inv E cfg s" and "gate_inv (CheckpointGuardStatePath cfg) b evs s"
    and "memo_inv cfg H s"
  shows "memo_inv cfg (H \<union> event_memo ev) s'"
  using assms
proof (induction rule: sys_step.induct)
  case (run s srv as r pc bs pc' srv' w')
  have sync: "in_sync (CheckpointGuardStatePath cfg) (checkpointGuard srv) (w_os (wld s))"
  proof -
    have "guard_gate.ready (CheckpointGuardStatePath cfg) b (Some (checkpointGuard srv)) (w_os (wld s))"
      using run.prems(2) run.hyps(1) unfolding gate_inv_def by (metis insertI1 option.simps(9))
    then show ?thesis by (simp add: guard_gate.ready_simps)
  qed
  have wf: "thread_wf E (selfEVMAddr srv) (r, pc)" using run by (simp add: threads_inv_def)
  have old: "file_memo (CheckpointGuardStatePath cfg) (w_os (wld s)) \<subseteq> H" "guard_memo (checkpointGuard srv) \<subseteq> H"
      "thread_memo (r, pc) \<subseteq> H" "\<forall>th\<in>set as \<union> set bs. thread_memo th \<subseteq> H"
    using run.prems(3) run.hyps(1,2) by (simp_all add: memo_inv_def)
  show ?case
    using memo_thread_step(1,2) [OF sync wf run.hyps(3) old(1-3)]
      memo_thread_step(3) [OF sync wf run.hyps(3) old(1-3), of "selfEVMAddr srv"] old(4)
    by (simp add: memo_inv_def) blast
next
  case (other s srv req ctx res srv' w')
  then show ?case using serve_effect [OF other.hyps(2,3)] by (auto simp: served_effect_def memo_inv_def)
next
  case (start s r w')
  have "file_memo (CheckpointGuardStatePath cfg) (w_os w') = file_memo (CheckpointGuardStatePath cfg) (w_os (wld s))"
    using New_guard(2) [OF start.hyps(2)] by (metis restart_memo(2) failed_restart_memo)
  moreover have "\<forall>srv. r = Inr srv \<longrightarrow> guard_memo (checkpointGuard srv) \<subseteq> file_memo (CheckpointGuardStatePath cfg) (w_os (wld s))"
    using New_guard(2) [OF start.hyps(2)] by (metis restart_memo(1) sum.distinct(1) sum.inject(2))
  ultimately show ?case using start.prems(3) by (auto simp: memo_inv_def split: sum.splits)
qed (auto simp: memo_inv_def)

lemma history_snoc: "history cfg w (evs @ [ev]) = history cfg w evs \<union> event_memo ev"
  by (auto simp: history_def)

lemma memo_inv_exec:
  assumes "sys_exec E cfg w evs s" and "durable_mark (CheckpointGuardStatePath cfg) b (w_os w)"
  shows "memo_inv cfg (history cfg w evs) s"
  using assms(1)
proof (induction rule: sys_exec.induct)
  case exec_init
  then show ?case by (simp add: memo_inv_def initial_sys_def history_def)
next
  case (exec_step evs s ev s')
  show ?case
    using memo_inv_step [OF exec_step.hyps(2) threads_inv_exec [OF exec_step.hyps(1)]
        gate_inv_exec [OF exec_step.hyps(1) assms(2)] exec_step.IH]
    by (simp add: history_snoc)
qed

lemma memo_reply_event:
  "step_event self r' pc pc' = EvMemo r c sig \<Longrightarrow>
     r' = r \<and> (\<exists>e x. pc = Lookup c e \<and> pc' = Done (Returns (Inr (SignBridgeCheckpointResponse sig x))))"
  by (cases "(self, r', pc, pc')" rule: step_event.cases) auto

lemma guard_answer_memo:
  "guard_answer ts c e srv = Returns (Inr (SignBridgeCheckpointResponse sig x)) \<Longrightarrow> (ts, c, sig) \<in> guard_memo (checkpointGuard srv)"
  by (auto simp: guard_answer_def CachedSignature_def guard_memo_def split: guard_error.splits option.splits if_splits)

lemma memo_reply:
  assumes "sys_step E cfg s ev s'" and "ev = EvMemo r c sig" and "memo_inv cfg H s"
  shows "(ValidatorTimestamp r, c, sig) \<in> H"
  using assms
proof (induction rule: sys_step.induct)
  case (run s srv as r' pc bs pc' srv' w')
  then obtain e x where "r' = r" "pc = Lookup c e" "pc' = Done (Returns (Inr (SignBridgeCheckpointResponse sig x)))"
    using memo_reply_event by blast
  with run.hyps(3) have "(ValidatorTimestamp r, c, sig) \<in> guard_memo (checkpointGuard srv)"
    using guard_answer_memo by auto
  with run.hyps(1) run.prems(2) show ?case by (auto simp: memo_inv_def)
qed simp_all

section \<open>Properties\<close>

text \<open>A concrete execution: the process starts, one request arrives, is verified, passes the guard
  and is signed.\<close>

definition demo_trace :: "event list" where
  "demo_trace =
     (let r = demo_request demo_valset 5 9; c = ExpectedCheckpoint r; d = sha256 c
      in [EvStart, EvArrive r, EvTau, EvTau, EvSign demo_self r c (Some (d @ d))])"

lemma demo_New:
  "\<exists>w. New demo_env demo_config demo_world = (Inr demo_server, w) \<and> healthy demo_path (w_os w) \<and> sign_log w = []"
proof -
  have files: "files demo_os demo_path = None" "\<not> faults demo_os n" for n
    using demo_plain by (simp_all add: demo_os_def)
  have "newCheckpointReplayGuard demo_path demo_os = (Inr demo_guard, step demo_os)"
    using demo_plain(1) files by (simp add: newCheckpointReplayGuard_def os_read_file_def Let_def demo_guard_def fails_def)
  moreover have "healthy demo_path (step demo_os)"
    using demo_healthy by (simp add: healthy_def step_def)
  ultimately show ?thesis
    by (simp add: New_def get_public_key_def demo_env_def demo_config_def demo_world_def demo_server_def demo_self_def
        drop_Cons' numeral_eq_Suc)
qed

lemma exec_single:
  assumes "sys_exec E cfg w evs \<lparr>running = Some srv, wld = w1, threads = as @ [(r, pc)]\<rparr>"
    and "ckpt_step E r pc (srv, w1) = (pc', (srv', w'))"
  shows "sys_exec E cfg w (evs @ [step_event (selfEVMAddr srv) r pc pc'])
    \<lparr>running = Some srv', wld = w', threads = as @ [(r, pc')]\<rparr>"
  using exec_step [OF assms(1) run [where as = as and bs = "[]"]] assms(2) by simp

lemma New_backend: "New (E\<lparr>backendSignRaw := f\<rparr>) cfg w = New E cfg w"
  by (auto simp: New_def get_public_key_def split: sum.splits prod.splits)

lemma count_once: "distinct xs \<Longrightarrow> x \<in> set xs \<Longrightarrow> count_list xs x = 1"
  by (induction xs) auto

lemma signing_exec:
  assumes new: "New E cfg w = (Inr srv, w1)" and v: "verify_checkpoint E (selfEVMAddr srv) r = Inr c"
    and fs: "healthy (statePath (checkpointGuard srv)) (w_os w1)"
    and fresh: "highWater (checkpointGuard srv) < ValidatorTimestamp r"
  shows "\<exists>o2. sys_exec E cfg w [EvStart, EvArrive r, EvTau, EvTau]
    \<lparr>running = Some (srv\<lparr>checkpointGuard := (checkpointGuard srv)\<lparr>highWater := ValidatorTimestamp r,
       signedCheckpoint := None, signedSignature := None\<rparr>\<rparr>), wld = w1\<lparr>w_os := o2\<rparr>, threads = [(r, SignIt c)]\<rparr>"
proof -
  let ?g = "(checkpointGuard srv)\<lparr>highWater := ValidatorTimestamp r, signedCheckpoint := None, signedSignature := None\<rparr>"
  have "sys_exec E cfg w ([] @ [EvStart]) \<lparr>running = Some srv, wld = w1, threads = []\<rparr>"
    using exec_step [OF exec_init start [where r = "Inr srv" and w' = w1]] new by (simp add: initial_sys_def)
  from exec_step [OF this arrive]
  have 2: "sys_exec E cfg w [EvStart, EvArrive r] \<lparr>running = Some srv, wld = w1, threads = [(r, Verify)]\<rparr>" by simp
  have "ckpt_step E r Verify (srv, w1) = (Advance c, (srv, w1))" using v by simp
  from exec_single [where as = "[]", simplified, OF 2 this]
  have 3: "sys_exec E cfg w [EvStart, EvArrive r, EvTau] \<lparr>running = Some srv, wld = w1, threads = [(r, Advance c)]\<rparr>" by simp
  obtain o2 where "CheckAndAdvance (checkpointGuard srv) (ValidatorTimestamp r) (w_os w1) = (Inr (), ?g, o2)"
    using CheckAndAdvance_healthy [OF fs fresh] by blast
  then have "ckpt_step E r (Advance c) (srv, w1) = (SignIt c, (srv\<lparr>checkpointGuard := ?g\<rparr>, w1\<lparr>w_os := o2\<rparr>))"
    by (simp add: guard_advance_def)
  from exec_single [where as = "[]", simplified, OF 3 this] show ?thesis by auto
qed

lemma demo_exec_state:
  "\<exists>w. sys_exec demo_env demo_config demo_world demo_trace
      \<lparr>running = Some (demo_server\<lparr>checkpointGuard := demo_guard\<lparr>highWater := 9\<rparr>\<rparr>), wld = w,
       threads = [(demo_request demo_valset 5 9,
         Record (ExpectedCheckpoint (demo_request demo_valset 5 9))
           (let d = sha256 (ExpectedCheckpoint (demo_request demo_valset 5 9)) in d @ d))]\<rparr>"
proof -
  let ?r = "demo_request demo_valset 5 9"
  let ?c = "ExpectedCheckpoint ?r" and ?srv = "demo_server\<lparr>checkpointGuard := demo_guard\<lparr>highWater := 9\<rparr>\<rparr>"
  have ts: "ValidatorTimestamp ?r = 9" by (simp add: demo_request_def Let_def)
  obtain w1 where w1: "New demo_env demo_config demo_world = (Inr demo_server, w1)" "healthy demo_path (w_os w1)" "sign_log w1 = []"
    using demo_New by blast
  have "\<exists>o2. sys_exec demo_env demo_config demo_world [EvStart, EvArrive ?r, EvTau, EvTau]
      \<lparr>running = Some ?srv, wld = w1\<lparr>w_os := o2\<rparr>, threads = [(?r, SignIt ?c)]\<rparr>"
    using signing_exec [OF w1(1), of ?r ?c] w1(2) demo_verify [of 9] ts by (simp add: demo_server_def demo_guard_def)
  then obtain o2 where 4: "sys_exec demo_env demo_config demo_world [EvStart, EvArrive ?r, EvTau, EvTau]
      \<lparr>running = Some ?srv, wld = w1\<lparr>w_os := o2\<rparr>, threads = [(?r, SignIt ?c)]\<rparr>" by blast
  have "ckpt_step demo_env ?r (SignIt ?c) (?srv, w1\<lparr>w_os := o2\<rparr>)
      = (Record ?c (sha256 ?c @ sha256 ?c), (?srv, w1\<lparr>w_os := o2, sign_log := [sha256 ?c]\<rparr>))"
    using w1(3) by (simp add: checked_sign_def demo_env_def)
  from exec_single [where as = "[]", simplified, OF 4 this]
  show ?thesis unfolding demo_trace_def Let_def by (auto simp: demo_server_def)
qed

lemma demo_exec: "\<exists>s. sys_exec demo_env demo_config demo_world demo_trace s"
  using demo_exec_state by blast

lemma durable_zero:
  "CheckpointGuardStatePath cfg \<noteq> '''' \<Longrightarrow> \<not> ends_tmp (CheckpointGuardStatePath cfg) \<Longrightarrow>
     durable_mark (CheckpointGuardStatePath cfg) 0 s"
  by (auto simp: durable_mark_def mark_at_least_def split: option.splits sum.splits)

lemma demo_config_path: "CheckpointGuardStatePath demo_config \<noteq> ''''" "\<not> ends_tmp (CheckpointGuardStatePath demo_config)"
  using demo_plain by (simp_all add: demo_config_def)

text \<open>Claim C1: no validator timestamp is signed twice.  In every execution, with any interleaving of
  concurrent requests, any crashes and restarts, any file-system failures and any behaviour of the
  backend and the libraries, the backend is called at most once for a checkpoint of each timestamp.\<close>

theorem no_timestamp_signed_twice:
  assumes "sys_exec E cfg w evs s"
    and "CheckpointGuardStatePath cfg \<noteq> ''''" and "\<not> ends_tmp (CheckpointGuardStatePath cfg)"
  shows "distinct (signed_ts evs)"
  using gate_inv_exec [OF assms(1) durable_zero [OF assms(2,3)]] by (simp add: gate_inv_def)

theorem no_timestamp_signed_twice_witness:
  "\<exists>s. sys_exec demo_env demo_config demo_world demo_trace s \<and> distinct (signed_ts demo_trace) \<and> signed_ts demo_trace = [9]"
proof -
  obtain s where "sys_exec demo_env demo_config demo_world demo_trace s" using demo_exec by blast
  moreover from this have "distinct (signed_ts demo_trace)"
    by (rule no_timestamp_signed_twice [OF _ demo_config_path])
  moreover have "signed_ts demo_trace = [9]"
    by (simp add: signed_ts_def demo_trace_def Let_def) (simp add: demo_request_def Let_def)
  ultimately show ?thesis by blast
qed

text \<open>Claim C2: nothing is signed blindly.  Every digest that is ever handed to the backend is the
  SHA-256 of a checkpoint that the six verification steps accepted, of an attestation snapshot that
  was recomputed, or of a transaction whose messages are all on the configured allowlist, or it is
  the digest of a registration message for the operator address of the signer's own key.\<close>

theorem every_digest_justified:
  assumes "sys_exec E cfg w evs s"
  shows "\<exists>ds. sign_log (wld s) = sign_log w @ ds
    \<and> list_all (\<lambda>d. list_ex (\<lambda>ev. event_justifies E cfg ev d) evs) ds"
  by (rule log_exec [OF assms])

theorem every_digest_justified_witness:
  "\<exists>s ds. sys_exec demo_env demo_config demo_world demo_trace s \<and> sign_log (wld s) = sign_log demo_world @ ds
     \<and> list_all (\<lambda>d. list_ex (\<lambda>ev. event_justifies demo_env demo_config ev d) demo_trace) ds"
proof -
  obtain s where s: "sys_exec demo_env demo_config demo_world demo_trace s" using demo_exec by blast
  from every_digest_justified [OF s] s show ?thesis by blast
qed

text \<open>The answers of an execution: signatures made and signatures sent again from the memo.\<close>

fun event_answer :: "event \<Rightarrow> (u64 \<times> bytes \<times> bytes) set" where
  "event_answer (EvSign self r c (Some sig)) = {(ValidatorTimestamp r, c, sig)}"
| "event_answer (EvMemo r c sig) = {(ValidatorTimestamp r, c, sig)}"
| "event_answer _ = {}"

definition answers :: "event list \<Rightarrow> (u64 \<times> bytes \<times> bytes) set" where
  "answers evs = (\<Union>ev\<in>set evs. event_answer ev)"

lemma event_answer_cases: "event_answer ev = event_memo ev \<or> (\<exists>r c sig. ev = EvMemo r c sig)"
  by (cases ev rule: event_answer.cases) auto

lemma answers_history:
  assumes "sys_exec E cfg w evs s" and "durable_mark (CheckpointGuardStatePath cfg) b (w_os w)"
  shows "answers evs \<subseteq> history cfg w evs"
  using assms(1)
proof (induction rule: sys_exec.induct)
  case (exec_step evs s ev s')
  have "event_answer ev \<subseteq> history cfg w (evs @ [ev])"
  proof (cases "\<exists>r c sig. ev = EvMemo r c sig")
    case True
    then obtain r c sig where ev: "ev = EvMemo r c sig" by blast
    from memo_reply [OF exec_step.hyps(2) ev memo_inv_exec [OF exec_step.hyps(1) assms(2)]] ev
    show ?thesis by (simp add: history_snoc)
  next
    case False
    then show ?thesis using event_answer_cases [of ev] by (auto simp: history_snoc)
  qed
  with exec_step.IH show ?case by (auto simp: answers_def history_snoc)
qed (simp add: answers_def)

lemma distinct_concat_unique:
  "distinct (concat (map f xs)) \<Longrightarrow> x \<in> set xs \<Longrightarrow> y \<in> set xs \<Longrightarrow> t \<in> set (f x) \<Longrightarrow> t \<in> set (f y) \<Longrightarrow> x = y"
  by (induction xs) auto

lemma event_memo_ts: "(t, c, sig) \<in> event_memo ev \<Longrightarrow> event_memo ev = {(t, c, sig)} \<and> t \<in> set (event_ts ev)"
  by (cases ev rule: event_memo.cases) auto

lemma file_memo_durable:
  assumes "(t, c, sig) \<in> file_memo p s" and "p \<noteq> ''''" and "\<not> ends_tmp p"
  shows "file_memo p s = {(t, c, sig)}" and "durable_mark p t s"
  using assms by (auto simp: file_memo_def durable_mark_def mark_at_least_def split: option.splits sum.splits)

lemma history_unique:
  assumes ex: "sys_exec E cfg w evs s"
    and path: "CheckpointGuardStatePath cfg \<noteq> ''''" "\<not> ends_tmp (CheckpointGuardStatePath cfg)"
    and "(t, c1, s1) \<in> history cfg w evs" and "(t, c2, s2) \<in> history cfg w evs"
  shows "c1 = c2 \<and> s1 = s2"
proof -
  let ?F = "file_memo (CheckpointGuardStatePath cfg) (w_os w)" and ?M = "\<Union>ev\<in>set evs. event_memo ev"
  have mixed: False if "(t, c, sg) \<in> ?F" "(t, c', sg') \<in> ?M" for c sg c' sg'
  proof -
    have "t \<in> set (signed_ts evs)" using that(2) by (auto simp: signed_ts_def dest: event_memo_ts)
    moreover have "t \<notin> set (signed_ts evs)"
      using gate_inv_exec [OF ex file_memo_durable(2) [OF that(1) path]] by (simp add: gate_inv_def)
    ultimately show False by blast
  qed
  have dist: "distinct (concat (map event_ts evs))"
    using gate_inv_exec [OF ex durable_zero [OF path]] by (simp add: gate_inv_def signed_ts_def)
  have both: "c = c' \<and> sg = sg'" if "(t, c, sg) \<in> ?M" "(t, c', sg') \<in> ?M" for c sg c' sg'
  proof -
    from that obtain ev ev'
      where ev: "ev \<in> set evs" "(t, c, sg) \<in> event_memo ev" "ev' \<in> set evs" "(t, c', sg') \<in> event_memo ev'"
      by blast
    then have "ev = ev'" using distinct_concat_unique [OF dist ev(1,3)] event_memo_ts by blast
    with ev(4) event_memo_ts [OF ev(2)] show ?thesis by simp
  qed
  from assms(4,5) consider "(t, c1, s1) \<in> ?F" "(t, c2, s2) \<in> ?F" | "(t, c1, s1) \<in> ?F" "(t, c2, s2) \<in> ?M"
    | "(t, c1, s1) \<in> ?M" "(t, c2, s2) \<in> ?F" | "(t, c1, s1) \<in> ?M" "(t, c2, s2) \<in> ?M"
    unfolding history_def by blast
  then show ?thesis
  proof cases
    case 1
    then show ?thesis using file_memo_durable(1) [OF 1(1) path] by simp
  qed (use mixed both in blast)+
qed

text \<open>Claim C3: one answer per timestamp.  In every execution all successful answers for a validator
  timestamp, whether freshly signed or sent again from the memo, in this process or after a
  restart, carry the same checkpoint and the same signature.\<close>

theorem one_answer_per_timestamp:
  assumes "sys_exec E cfg w evs s"
    and "CheckpointGuardStatePath cfg \<noteq> ''''" and "\<not> ends_tmp (CheckpointGuardStatePath cfg)"
    and "(t, c1, s1) \<in> answers evs" and "(t, c2, s2) \<in> answers evs"
  shows "c1 = c2 \<and> s1 = s2"
proof -
  have "answers evs \<subseteq> history cfg w evs"
    by (rule answers_history [OF assms(1) durable_zero [OF assms(2,3)]])
  then show ?thesis using history_unique [OF assms(1-3)] assms(4,5) by blast
qed

text \<open>The same request again: recorded, then verified, refused by the guard, answered from the memo.\<close>

definition demo_memo_trace :: "event list" where
  "demo_memo_trace =
     (let r = demo_request demo_valset 5 9; c = ExpectedCheckpoint r; d = sha256 c
      in demo_trace @ [EvTau, EvArrive r, EvTau, EvTau, EvMemo r c (d @ d)])"

lemma demo_memo_exec: "\<exists>s. sys_exec demo_env demo_config demo_world demo_memo_trace s"
proof -
  let ?r = "demo_request demo_valset 5 9" and ?E = demo_env
  let ?c = "ExpectedCheckpoint ?r"
  let ?sig = "sha256 ?c @ sha256 ?c" and ?srv = "demo_server\<lparr>checkpointGuard := demo_guard\<lparr>highWater := 9\<rparr>\<rparr>"
  have ts: "ValidatorTimestamp ?r = 9" by (simp add: demo_request_def Let_def)
  obtain w where 1: "sys_exec ?E demo_config demo_world demo_trace
      \<lparr>running = Some ?srv, wld = w, threads = [(?r, Record ?c ?sig)]\<rparr>"
    using demo_exec_state by (auto simp: Let_def)
  obtain rr g o2 where rec: "RecordSignature (demo_guard\<lparr>highWater := 9\<rparr>) 9 ?c ?sig (w_os w) = (rr, g, o2)"
    by (cases "RecordSignature (demo_guard\<lparr>highWater := 9\<rparr>) 9 ?c ?sig (w_os w)")
  have "length ?c = 32" "length ?sig = 64" using verify_checkpoint_length [OF demo_verify, of 9] by simp_all
  then have "?c \<noteq> []" "?sig \<noteq> []" by force+
  then have g: "g = demo_guard\<lparr>highWater := 9, signedCheckpoint := Some ?c, signedSignature := Some ?sig\<rparr>"
    using RecordSignature_current [of ?c ?sig "demo_guard\<lparr>highWater := 9\<rparr>" "w_os w" rr g o2] rec by simp
  let ?s2 = "demo_server\<lparr>checkpointGuard := g\<rparr>" and ?w2 = "w\<lparr>w_os := o2\<rparr>"
  let ?d = "(?r, Done (Returns (Inr (SignBridgeCheckpointResponse ?sig ?c))))"
  have "ckpt_step ?E ?r (Record ?c ?sig) (?srv, w) = (snd ?d, (?s2, ?w2))"
    using rec by (simp add: guard_record_def ts)
  from exec_single [where as = "[]", simplified, OF 1 this]
  have 2: "sys_exec ?E demo_config demo_world (demo_trace @ [EvTau]) \<lparr>running = Some ?s2, wld = ?w2, threads = [?d]\<rparr>"
    by simp
  from exec_step [OF 2 arrive, of _ ?r]
  have 3: "sys_exec ?E demo_config demo_world (demo_trace @ [EvTau, EvArrive ?r])
      \<lparr>running = Some ?s2, wld = ?w2, threads = [?d] @ [(?r, Verify)]\<rparr>" by simp
  have "ckpt_step ?E ?r Verify (?s2, ?w2) = (Advance ?c, (?s2, ?w2))"
    using demo_verify [of 9] by (simp add: demo_server_def)
  from exec_single [OF 3 this]
  have 4: "sys_exec ?E demo_config demo_world (demo_trace @ [EvTau, EvArrive ?r, EvTau])
      \<lparr>running = Some ?s2, wld = ?w2, threads = [?d] @ [(?r, Advance ?c)]\<rparr>" by simp
  have "CheckAndAdvance g 9 o2 = (Inl (ErrReplayGuardRejected 9 9), g, o2)"
    using CheckAndAdvance_refuses [of g 9 o2] g by (simp add: demo_guard_def)
  then have "ckpt_step ?E ?r (Advance ?c) (?s2, ?w2) = (Lookup ?c (ErrReplayGuardRejected 9 9), (?s2, ?w2))"
    by (simp add: guard_advance_def ts)
  from exec_single [OF 4 this]
  have 5: "sys_exec ?E demo_config demo_world (demo_trace @ [EvTau, EvArrive ?r, EvTau, EvTau])
      \<lparr>running = Some ?s2, wld = ?w2, threads = [?d] @ [(?r, Lookup ?c (ErrReplayGuardRejected 9 9))]\<rparr>" by simp
  have "ckpt_step ?E ?r (Lookup ?c (ErrReplayGuardRejected 9 9)) (?s2, ?w2) = (snd ?d, (?s2, ?w2))"
    using g by (simp add: guard_answer_def CachedSignature_def ts demo_guard_def)
  from exec_single [OF 5 this]
  show ?thesis unfolding demo_memo_trace_def Let_def by auto
qed

theorem one_answer_per_timestamp_witness:
  "\<exists>s c s1 s2. sys_exec demo_env demo_config demo_world demo_memo_trace s
     \<and> EvMemo (demo_request demo_valset 5 9) c s1 \<in> set demo_memo_trace
     \<and> EvSign demo_self (demo_request demo_valset 5 9) c (Some s2) \<in> set demo_memo_trace \<and> s1 = s2"
proof -
  let ?r = "demo_request demo_valset 5 9"
  let ?c = "ExpectedCheckpoint ?r"
  let ?sig = "sha256 ?c @ sha256 ?c"
  obtain s where s: "sys_exec demo_env demo_config demo_world demo_memo_trace s" using demo_memo_exec by blast
  have ev: "EvMemo ?r ?c ?sig \<in> set demo_memo_trace" "EvSign demo_self ?r ?c (Some ?sig) \<in> set demo_memo_trace"
    by (simp_all add: demo_memo_trace_def demo_trace_def Let_def)
  then have "(ValidatorTimestamp ?r, ?c, ?sig) \<in> answers demo_memo_trace" "(ValidatorTimestamp ?r, ?c, ?sig) \<in> answers demo_memo_trace"
    unfolding answers_def by force+
  from one_answer_per_timestamp [OF s demo_config_path this] s ev show ?thesis by blast
qed

text \<open>A request that was answered with a signature is answered by an event of the execution.\<close>

fun thread_answer :: "SignBridgeCheckpointRequest \<times> pc \<Rightarrow> (u64 \<times> bytes \<times> bytes) set" where
  "thread_answer (r, Record c sig) = {(ValidatorTimestamp r, c, sig)}"
| "thread_answer (r, Done (Returns (Inr (SignBridgeCheckpointResponse sig c)))) = {(ValidatorTimestamp r, c, sig)}"
| "thread_answer _ = {}"

lemma thread_answer_step:
  assumes "ckpt_step E r pc (srv, w) = (pc', (srv', w'))"
  shows "thread_answer (r, pc') \<subseteq> thread_answer (r, pc) \<union> event_answer (step_event self r pc pc')"
proof (cases pc)
  case (Lookup c e)
  then show ?thesis using assms by (auto simp: guard_answer_def split: guard_error.splits option.splits)
next
  case (SignIt c)
  then show ?thesis using assms by (auto split: prod.splits go.splits sum.splits)
qed (use assms in \<open>auto split: prod.splits sum.splits\<close>)

lemma threads_answered:
  "sys_exec E cfg w evs s \<Longrightarrow> th \<in> set (threads s) \<Longrightarrow> thread_answer th \<subseteq> answers evs"
proof (induction arbitrary: th rule: sys_exec.induct)
  case exec_init
  then show ?case by (simp add: initial_sys_def)
next
  case (exec_step evs s ev s')
  have "thread_answer th \<subseteq> answers evs \<union> event_answer ev"
    using exec_step.hyps(2) exec_step.IH exec_step.prems
  proof (cases rule: sys_step.cases)
    case (run srv as r pc bs pc' srv' w')
    have old: "thread_answer (r, pc) \<subseteq> answers evs" using exec_step.IH [of "(r, pc)"] run(4) by simp
    show ?thesis
    proof (cases "th = (r, pc')")
      case True
      then show ?thesis using thread_answer_step [OF run(5), of "selfEVMAddr srv"] old run(1) by blast
    next
      case False
      then have "th \<in> set (threads s)" using exec_step.prems run(2,4) by auto
      then show ?thesis using exec_step.IH by blast
    qed
  next
    case (arrive srv r)
    then show ?thesis using exec_step.IH exec_step.prems by fastforce
  qed (use exec_step.IH exec_step.prems in fastforce)+
  then show ?case by (simp add: answers_def Un_commute)
qed

text \<open>Claim C15: a failed signature burns its timestamp for good.  If in an execution the backend was called for a checkpoint of
  a timestamp and gave no signature of 64 bytes, be it an error, a panic or a wrong length, then in that whole
  execution, across concurrent requests, later advances of the guard, crashes and restarts, the backend is called for
  this timestamp that one time only and no request for it is ever answered with a signature.\<close>

theorem failed_timestamp_never_answered:
  assumes "sys_exec E cfg w evs s"
    and "CheckpointGuardStatePath cfg \<noteq> ''''" and "\<not> ends_tmp (CheckpointGuardStatePath cfg)"
    and "EvSign self r c None \<in> set evs"
  shows "count_list (signed_ts evs) (ValidatorTimestamp r) = 1
    \<and> (\<forall>c' sg. (ValidatorTimestamp r, c', sg) \<notin> answers evs)
    \<and> (\<forall>r' c' sg. ValidatorTimestamp r' = ValidatorTimestamp r \<longrightarrow>
         (r', Done (Returns (Inr (SignBridgeCheckpointResponse sg c')))) \<notin> set (threads s))"
proof -
  let ?t = "ValidatorTimestamp r"
  have dist: "distinct (signed_ts evs)"
    using gate_inv_exec [OF assms(1) durable_zero [OF assms(2,3)]] by (simp add: gate_inv_def)
  have t: "?t \<in> set (signed_ts evs)" using assms(4) by (force simp: signed_ts_def)
  have none: "(?t, c', sg) \<notin> history cfg w evs" for c' sg
  proof
    assume "(?t, c', sg) \<in> history cfg w evs"
    then consider "(?t, c', sg) \<in> file_memo (CheckpointGuardStatePath cfg) (w_os w)"
      | ev where "ev \<in> set evs" "(?t, c', sg) \<in> event_memo ev" by (auto simp: history_def)
    then show False
    proof cases
      case 1
      then show False using gate_inv_exec [OF assms(1) file_memo_durable(2) [OF 1 assms(2,3)]] t by (simp add: gate_inv_def)
    next
      case 2
      have "ev = EvSign self r c None"
        using distinct_concat_unique [OF dist [unfolded signed_ts_def] 2(1) assms(4)] event_memo_ts [OF 2(2)] by simp
      with 2(2) show False by simp
    qed
  qed
  then have ans: "(?t, c', sg) \<notin> answers evs" for c' sg
    using answers_history [OF assms(1) durable_zero [OF assms(2,3)]] by blast
  moreover have "(r', Done (Returns (Inr (SignBridgeCheckpointResponse sg c')))) \<notin> set (threads s)"
    if "ValidatorTimestamp r' = ?t" for r' c' sg
    using threads_answered [OF assms(1), of "(r', Done (Returns (Inr (SignBridgeCheckpointResponse sg c'))))"] ans that by auto
  ultimately show ?thesis using dist t by (simp add: count_once)
qed

text \<open>The backend fails, the request is sent again and is refused.\<close>

definition broken_trace :: "event list" where
  "broken_trace =
     (let r = demo_request demo_valset 5 9
      in [EvStart, EvArrive r, EvTau, EvTau, EvSign demo_self r (ExpectedCheckpoint r) None, EvArrive r, EvTau, EvTau, EvTau])"

lemma broken_exec: "\<exists>s. sys_exec broken_env demo_config demo_world broken_trace s"
proof -
  let ?r = "demo_request demo_valset 5 9" and ?E = broken_env
  let ?c = "ExpectedCheckpoint ?r" and ?g = "demo_guard\<lparr>highWater := 9\<rparr>"
  let ?srv = "demo_server\<lparr>checkpointGuard := ?g\<rparr>" and ?e = "ErrReplayGuardRejected 9 9"
  have ts: "ValidatorTimestamp ?r = 9" by (simp add: demo_request_def Let_def)
  obtain w1 where "New demo_env demo_config demo_world = (Inr demo_server, w1)" and h: "healthy demo_path (w_os w1)"
    using demo_New by blast
  then have n: "New ?E demo_config demo_world = (Inr demo_server, w1)"
    by (simp add: broken_env_def New_backend)
  have v: "verify_checkpoint ?E (selfEVMAddr srv) ?r = Inr ?c" if "selfEVMAddr srv = demo_self" for srv :: Server
    using demo_verify [of 9] verify_checkpoint_cong [of ?E demo_env] that by (simp add: broken_env_def)
  have "\<exists>o2. sys_exec ?E demo_config demo_world [EvStart, EvArrive ?r, EvTau, EvTau]
      \<lparr>running = Some ?srv, wld = w1\<lparr>w_os := o2\<rparr>, threads = [(?r, SignIt ?c)]\<rparr>"
    using signing_exec [OF n v] h ts by (simp add: demo_server_def demo_guard_def)
  then obtain o2 where 4: "sys_exec ?E demo_config demo_world [EvStart, EvArrive ?r, EvTau, EvTau]
      \<lparr>running = Some ?srv, wld = w1\<lparr>w_os := o2\<rparr>, threads = [(?r, SignIt ?c)]\<rparr>" by blast
  let ?w = "w1\<lparr>w_os := o2, sign_log := sign_log w1 @ [sha256 ?c]\<rparr>"
  let ?d = "(?r, Done (Returns (Inl (Status Internal (SigningFailed '''' ''unavailable'')))))"
  have "ckpt_step ?E ?r (SignIt ?c) (?srv, w1\<lparr>w_os := o2\<rparr>) = (snd ?d, (?srv, ?w))"
    by (simp add: checked_sign_def broken_env_def)
  from exec_single [where as = "[]", simplified, OF 4 this]
  have 5: "sys_exec ?E demo_config demo_world [EvStart, EvArrive ?r, EvTau, EvTau, EvSign demo_self ?r ?c None]
      \<lparr>running = Some ?srv, wld = ?w, threads = [?d]\<rparr>" by (simp add: demo_server_def)
  from exec_step [OF 5 arrive, of _ ?r]
  have 6: "sys_exec ?E demo_config demo_world [EvStart, EvArrive ?r, EvTau, EvTau, EvSign demo_self ?r ?c None, EvArrive ?r]
      \<lparr>running = Some ?srv, wld = ?w, threads = [?d] @ [(?r, Verify)]\<rparr>" by simp
  have "ckpt_step ?E ?r Verify (?srv, ?w) = (Advance ?c, (?srv, ?w))" using v [of ?srv] by (simp add: demo_server_def)
  note 7 = exec_single [OF 6 this]
  have "CheckAndAdvance ?g 9 o2 = (Inl ?e, ?g, o2)"
    using CheckAndAdvance_refuses [of ?g 9 o2] by (simp add: demo_guard_def)
  then have "ckpt_step ?E ?r (Advance ?c) (?srv, ?w) = (Lookup ?c ?e, (?srv, ?w))" by (simp add: guard_advance_def ts)
  note 8 = exec_single [OF 7 this]
  have "ckpt_step ?E ?r (Lookup ?c ?e) (?srv, ?w) = (Done (Returns (Inl (Status FailedPrecondition (ReplayGuard ?e)))), (?srv, ?w))"
    by (simp add: guard_answer_def CachedSignature_def ts demo_guard_def)
  from exec_single [OF 8 this] show ?thesis unfolding broken_trace_def Let_def by auto
qed

theorem failed_timestamp_never_answered_witness:
  "\<exists>s. sys_exec broken_env demo_config demo_world broken_trace s \<and> count_list (signed_ts broken_trace) 9 = 1
     \<and> (\<forall>c sg. (9, c, sg) \<notin> answers broken_trace)"
proof -
  let ?r = "demo_request demo_valset 5 9"
  have "EvSign demo_self ?r (ExpectedCheckpoint ?r) None \<in> set broken_trace" by (simp add: broken_trace_def Let_def)
  moreover have "ValidatorTimestamp ?r = 9" by (simp add: demo_request_def Let_def)
  moreover obtain s where "sys_exec broken_env demo_config demo_world broken_trace s" using broken_exec by blast
  ultimately show ?thesis using failed_timestamp_never_answered [OF _ demo_config_path, of broken_env demo_world broken_trace s demo_self ?r] by auto
qed

end
