(* ===== verification/Ledger.thy ===== *)
theory Ledger
  imports Interleaving
begin

text \<open>
  What the checkpoint signer promises, as an abstract machine, and the proof that the server under
  concurrent requests, crashes and restarts implements it.

  The machine is a ledger: a floor, below which every timestamp is spent, and one entry for each
  timestamp signed since.  It may sign for a timestamp above the floor that has no entry, and it may
  send the signature of an entry again; it can do nothing else.  The locale \<open>ref_map\<close> is a refinement
  mapping between two machines; it is interpreted on the system of \<open>Interleaving\<close>, with the events so
  far kept beside its state, and on the ledger.
\<close>

section \<open>Refinement mappings\<close>

inductive runs :: "('s \<Rightarrow> 'e \<Rightarrow> 's \<Rightarrow> bool) \<Rightarrow> 's \<Rightarrow> 'e list \<Rightarrow> 's \<Rightarrow> bool" for stp where
  runs_Nil: "runs stp s [] s"
| runs_Cons: "stp s e s1 \<Longrightarrow> runs stp s1 es s2 \<Longrightarrow> runs stp s (e # es) s2"

inductive_cases runs_NilE: "runs stp s [] s'"
inductive_cases runs_ConsE: "runs stp s (e # es) s'"

lemma runs_snoc: "runs stp s es s1 \<Longrightarrow> stp s1 e s2 \<Longrightarrow> runs stp s (es @ [e]) s2"
  by (induction rule: runs.induct) (auto intro: runs.intros)

locale ref_map =
  fixes cstep :: "'c \<Rightarrow> 'e \<Rightarrow> 'c \<Rightarrow> bool"
    and astep :: "'a \<Rightarrow> 'o \<Rightarrow> 'a \<Rightarrow> bool"
    and obs :: "'e \<Rightarrow> 'o option"
    and abs :: "'c \<Rightarrow> 'a"
    and inv :: "'c \<Rightarrow> bool"
  assumes inv_step: "inv c \<Longrightarrow> cstep c e c' \<Longrightarrow> inv c'"
    and silent: "inv c \<Longrightarrow> cstep c e c' \<Longrightarrow> obs e = None \<Longrightarrow> abs c' = abs c"
    and visible: "inv c \<Longrightarrow> cstep c e c' \<Longrightarrow> obs e = Some v \<Longrightarrow> astep (abs c) v (abs c')"
begin

lemma trace_inclusion:
  "runs cstep c es c' \<Longrightarrow> inv c \<Longrightarrow> runs astep (abs c) (List.map_filter obs es) (abs c') \<and> inv c'"
proof (induction rule: runs.induct)
  case (runs_Nil s)
  then show ?case by (simp add: List.map_filter_def runs.runs_Nil)
next
  case (runs_Cons s e s1 es s2)
  have "inv s1" using inv_step runs_Cons.prems runs_Cons.hyps(1) .
  with runs_Cons.IH have rest: "runs astep (abs s1) (List.map_filter obs es) (abs s2)" "inv s2" by simp_all
  show ?case
  proof (cases "obs e")
    case None
    with rest silent [OF runs_Cons.prems runs_Cons.hyps(1)] show ?thesis by (simp add: List.map_filter_def)
  next
    case (Some v)
    have "astep (abs s) v (abs s1)" using visible [OF runs_Cons.prems runs_Cons.hyps(1) Some] .
    then have "runs astep (abs s) (v # List.map_filter obs es) (abs s2)" using rest(1) by (rule runs.runs_Cons)
    with rest(2) Some show ?thesis by (simp add: List.map_filter_def)
  qed
qed

end

section \<open>The ledger\<close>

record ledger =
  floor :: u64
  entries :: "u64 \<rightharpoonup> bytes \<times> bytes option"

datatype ledger_event = Signs u64 bytes "bytes option" | Resends u64 bytes bytes

inductive ledger_step :: "ledger \<Rightarrow> ledger_event \<Rightarrow> ledger \<Rightarrow> bool" where
  Signs: "floor L < t \<Longrightarrow> entries L t = None \<Longrightarrow>
    ledger_step L (Signs t c sg) (L\<lparr>entries := (entries L)(t \<mapsto> (c, sg))\<rparr>)"
| Resends: "entries L t = Some (c, Some sg) \<Longrightarrow> ledger_step L (Resends t c sg) L"

inductive_simps ledger_step_Signs: "ledger_step L (Signs t c sg) L'"
inductive_simps ledger_step_Resends: "ledger_step L (Resends t c sg) L'"

text \<open>What an event of the system shows of it, and what it writes into the ledger.\<close>

fun observe :: "event \<Rightarrow> ledger_event option" where
  "observe (EvSign self r c sg) = Some (Signs (ValidatorTimestamp r) c sg)"
| "observe (EvMemo r c sg) = Some (Resends (ValidatorTimestamp r) c sg)"
| "observe _ = None"

fun book :: "ledger \<Rightarrow> event \<Rightarrow> ledger" where
  "book L (EvSign self r c sg) = L\<lparr>entries := (entries L)(ValidatorTimestamp r \<mapsto> (c, sg))\<rparr>"
| "book L _ = L"

text \<open>The ledger that a state file stands for.\<close>

definition ledger_of :: "string \<Rightarrow> 'a os_scheme \<Rightarrow> ledger" where
  "ledger_of p s =
     (case content_at p s of
        None \<Rightarrow> \<lparr>floor = 0, entries = Map.empty\<rparr>
      | Some d \<Rightarrow>
          (case parse_guard d of
             Inl _ \<Rightarrow> \<lparr>floor = 0, entries = Map.empty\<rparr>
           | Inr (hw, Some c, Some sg) \<Rightarrow> \<lparr>floor = hw, entries = [hw \<mapsto> (c, Some sg)]\<rparr>
           | Inr (hw, _, _) \<Rightarrow> \<lparr>floor = hw, entries = Map.empty\<rparr>))"

definition ledger_after :: "Config \<Rightarrow> world \<Rightarrow> event list \<Rightarrow> ledger" where
  "ledger_after cfg w evs = foldl book (ledger_of (CheckpointGuardStatePath cfg) (w_os w)) evs"

section \<open>What the ledger allows\<close>

fun spends :: "ledger_event \<Rightarrow> u64 list" where
  "spends (Signs t c sg) = [t]"
| "spends (Resends t c sg) = []"

lemma ledger_step_keeps:
  assumes "ledger_step L e L'"
  shows "floor L' = floor L" and "entries L \<subseteq>\<^sub>m entries L'" and "dom (entries L') = dom (entries L) \<union> set (spends e)"
    and "set (spends e) \<inter> dom (entries L) = {}" and "t \<in> set (spends e) \<Longrightarrow> floor L < t"
  using assms by (cases; auto simp: map_le_def dom_def)+

lemma ledger_entries_stay: "runs ledger_step L es L' \<Longrightarrow> entries L \<subseteq>\<^sub>m entries L'"
  by (induction rule: runs.induct) (auto dest: ledger_step_keeps(2) intro: map_le_trans)

text \<open>
  A run of the ledger spends each timestamp once, only above the floor and not one that had an entry,
  and whatever it signs or sends for a timestamp is what its final entry says.
\<close>

lemma ledger_run_once:
  "runs ledger_step L es L' \<Longrightarrow>
     distinct (concat (map spends es)) \<and> list_all (\<lambda>t. floor L < t \<and> entries L t = None) (concat (map spends es))"
proof (induction rule: runs.induct)
  case (runs_Cons L e L1 es L2)
  note k = ledger_step_keeps [OF runs_Cons.hyps(1)]
  have "distinct (spends e)" by (cases e) simp_all
  moreover have "list_all (\<lambda>t. floor L < t \<and> entries L t = None \<and> t \<notin> set (spends e)) (concat (map spends es))"
    using runs_Cons.IH k(1,3) by (auto simp: list_all_iff)
  ultimately show ?case using runs_Cons.IH k(4,5) by (auto simp: list_all_iff)
qed simp

lemma ledger_run_answers:
  assumes "runs ledger_step L es L'"
  shows "Signs t c sg \<in> set es \<Longrightarrow> entries L' t = Some (c, sg)"
    and "Resends t c sg' \<in> set es \<Longrightarrow> entries L' t = Some (c, Some sg')"
proof -
  have "(Signs t c sg \<in> set es \<longrightarrow> entries L' t = Some (c, sg)) \<and> (Resends t c sg' \<in> set es \<longrightarrow> entries L' t = Some (c, Some sg'))"
    using assms
  proof (induction rule: runs.induct)
    case (runs_Cons L e L1 es L2)
    have "entries L1 \<subseteq>\<^sub>m entries L2" using ledger_entries_stay [OF runs_Cons.hyps(2)] .
    then have le: "entries L1 t = Some x \<Longrightarrow> entries L2 t = Some x" for x by (force simp: map_le_def)
    with runs_Cons.IH runs_Cons.hyps(1) show ?case by (auto simp: ledger_step_Signs ledger_step_Resends)
  qed simp
  then show "Signs t c sg \<in> set es \<Longrightarrow> entries L' t = Some (c, sg)"
      "Resends t c sg' \<in> set es \<Longrightarrow> entries L' t = Some (c, Some sg')" by blast+
qed

section \<open>The system as a machine with its history\<close>

definition hist_step :: "'ty env \<Rightarrow> Config \<Rightarrow> event list \<times> sys \<Rightarrow> event \<Rightarrow> event list \<times> sys \<Rightarrow> bool" where
  "hist_step E cfg c ev c' \<longleftrightarrow> fst c' = fst c @ [ev] \<and> sys_step E cfg (snd c) ev (snd c')"

definition hist_inv :: "'ty env \<Rightarrow> Config \<Rightarrow> world \<Rightarrow> event list \<times> sys \<Rightarrow> bool" where
  "hist_inv E cfg w c \<longleftrightarrow>
     sys_exec E cfg w (fst c) (snd c) \<and> CheckpointGuardStatePath cfg \<noteq> '''' \<and> \<not> ends_tmp (CheckpointGuardStatePath cfg)"

lemma sys_exec_runs: "sys_exec E cfg w evs s \<Longrightarrow> runs (hist_step E cfg) ([], initial_sys w) evs (evs, s)"
proof (induction rule: sys_exec.induct)
  case exec_init
  then show ?case by (rule runs_Nil)
next
  case (exec_step evs s ev s')
  then show ?case by (auto intro: runs_snoc simp: hist_step_def)
qed

lemma book_floor: "floor (foldl book L evs) = floor L"
proof (induction evs arbitrary: L)
  case (Cons ev evs)
  have "floor (book L ev) = floor L" by (cases ev) simp_all
  with Cons show ?case by simp
qed simp

lemma book_silent: "observe ev = None \<or> (\<exists>r c sg. ev = EvMemo r c sg) \<Longrightarrow> book L ev = L"
  by (cases ev) auto

text \<open>The entries are the timestamps signed and that of the file's memo.\<close>

lemma foldl_book_entries:
  "distinct (signed_ts evs) \<Longrightarrow> set (signed_ts evs) \<inter> dom (entries L) = {} \<Longrightarrow>
     entries L \<subseteq>\<^sub>m entries (foldl book L evs)
   \<and> dom (entries (foldl book L evs)) = dom (entries L) \<union> set (signed_ts evs)
   \<and> (\<forall>self r c sg. EvSign self r c sg \<in> set evs \<longrightarrow> entries (foldl book L evs) (ValidatorTimestamp r) = Some (c, sg))"
proof (induction evs arbitrary: L)
  case Nil
  then show ?case by (simp add: signed_ts_def)
next
  case (Cons ev evs)
  show ?case
  proof (cases "\<exists>self r c sg. ev = EvSign self r c sg")
    case True
    then obtain self r c sg where ev: "ev = EvSign self r c sg" by blast
    let ?t = "ValidatorTimestamp r" and ?L = "book L ev"
    have ts: "signed_ts (ev # evs) = ?t # signed_ts evs" by (simp add: signed_ts_def ev)
    have "distinct (signed_ts evs)" "set (signed_ts evs) \<inter> dom (entries ?L) = {}"
      using Cons.prems unfolding ts by (auto simp: ev)
    note IH = Cons.IH [OF this]
    have le: "entries L \<subseteq>\<^sub>m entries ?L" using Cons.prems(2) unfolding ts by (auto simp: ev map_le_def)
    have "entries ?L ?t = Some (c, sg)" by (simp add: ev)
    moreover have "entries ?L \<subseteq>\<^sub>m entries (foldl book L (ev # evs))" using IH by simp
    ultimately have "entries (foldl book L (ev # evs)) ?t = Some (c, sg)" by (metis domI map_le_def)
    moreover have "entries L \<subseteq>\<^sub>m entries (foldl book L (ev # evs))" using le IH by (simp add: map_le_trans)
    moreover have "dom (entries (foldl book L (ev # evs))) = dom (entries L) \<union> set (signed_ts (ev # evs))"
      using IH unfolding ts by (auto simp: ev)
    ultimately show ?thesis using IH ev by auto
  next
    case False
    then have "signed_ts (ev # evs) = signed_ts evs" "book L ev = L"
      by (cases ev; simp add: signed_ts_def)+
    with Cons False show ?thesis by auto
  qed
qed

lemma ledger_of_durable:
  assumes "p \<noteq> ''''" "\<not> ends_tmp p" "b \<le> floor (ledger_of p s)"
  shows "durable_mark p b s"
  using assms by (auto simp: durable_mark_def mark_at_least_def ledger_of_def split: option.splits sum.splits)

lemma ledger_of_dom: "dom (entries (ledger_of p s)) \<subseteq> {floor (ledger_of p s)}"
  by (auto simp: ledger_of_def split: option.splits sum.splits prod.splits if_splits)

lemma ledger_of_memo: "(t, c, sg) \<in> file_memo p s \<Longrightarrow> entries (ledger_of p s) t = Some (c, Some sg)"
  by (auto simp: file_memo_def ledger_of_def split: option.splits sum.splits)

lemma exec_above_floor:
  assumes "hist_inv E cfg w (evs, s)"
  shows "distinct (signed_ts evs)"
    and "t \<in> set (signed_ts evs) \<Longrightarrow> floor (ledger_of (CheckpointGuardStatePath cfg) (w_os w)) < t"
proof -
  let ?p = "CheckpointGuardStatePath cfg"
  have ex: "sys_exec E cfg w evs s" and p: "?p \<noteq> ''''" "\<not> ends_tmp ?p" using assms by (simp_all add: hist_inv_def)
  have gi: "distinct (b # signed_ts evs)" if "b \<le> floor (ledger_of ?p (w_os w))" for b
    using gate_inv_exec [OF ex ledger_of_durable [OF p that]] by (simp add: gate_inv_def)
  show "distinct (signed_ts evs)" using gi [OF order_refl] by simp
  show "floor (ledger_of ?p (w_os w)) < t" if "t \<in> set (signed_ts evs)"
    using gi [of t] that by (cases "t \<le> floor (ledger_of ?p (w_os w))") auto
qed

lemma ledger_after_entries:
  assumes "hist_inv E cfg w (evs, s)"
  shows "dom (entries (ledger_after cfg w evs)) =
      dom (entries (ledger_of (CheckpointGuardStatePath cfg) (w_os w))) \<union> set (signed_ts evs)"
    and "(t, c, sg) \<in> history cfg w evs \<Longrightarrow> entries (ledger_after cfg w evs) t = Some (c, Some sg)"
proof -
  let ?L = "ledger_of (CheckpointGuardStatePath cfg) (w_os w)"
  have "set (signed_ts evs) \<inter> dom (entries ?L) = {}"
    using exec_above_floor(2) [OF assms] ledger_of_dom by force
  note e = foldl_book_entries [OF exec_above_floor(1) [OF assms] this]
  then show "dom (entries (ledger_after cfg w evs)) = dom (entries ?L) \<union> set (signed_ts evs)"
    by (simp add: ledger_after_def)
  assume "(t, c, sg) \<in> history cfg w evs"
  then consider "(t, c, sg) \<in> file_memo (CheckpointGuardStatePath cfg) (w_os w)"
    | ev where "ev \<in> set evs" "(t, c, sg) \<in> event_memo ev" by (auto simp: history_def)
  then show "entries (ledger_after cfg w evs) t = Some (c, Some sg)"
  proof cases
    case 1
    from ledger_of_memo [OF 1] e show ?thesis unfolding ledger_after_def by (metis domI map_le_def)
  next
    case 2
    then obtain self r where "EvSign self r c (Some sg) \<in> set evs" "t = ValidatorTimestamp r"
      by (cases ev rule: event_memo.cases) auto
    with e show ?thesis by (auto simp: ledger_after_def)
  qed
qed

interpretation ledger_map: ref_map "hist_step E cfg" ledger_step observe "\<lambda>c. ledger_after cfg w (fst c)" "hist_inv E cfg w"
  for E :: "'ty env" and cfg and w
proof unfold_locales
  fix c :: "event list \<times> sys" and ev c'
  assume inv: "hist_inv E cfg w c" and stp: "hist_step E cfg c ev c'"
  then show inv': "hist_inv E cfg w c'"
    by (auto simp: hist_inv_def hist_step_def intro: exec_step)
  have after: "ledger_after cfg w (fst c') = book (ledger_after cfg w (fst c)) ev"
    using stp by (simp add: hist_step_def ledger_after_def)
  then show "ledger_after cfg w (fst c') = ledger_after cfg w (fst c)" if "observe ev = None"
    using book_silent that by simp
  show "ledger_step (ledger_after cfg w (fst c)) v (ledger_after cfg w (fst c'))" if "observe ev = Some v" for v
  proof (cases "\<exists>self r d sg. ev = EvSign self r d sg")
    case True
    then obtain self r d sg where ev: "ev = EvSign self r d sg" by blast
    let ?t = "ValidatorTimestamp r"
    have h: "hist_inv E cfg w (fst c, snd c)" "hist_inv E cfg w (fst c @ [ev], snd c')"
      using inv inv' stp by (simp_all add: hist_step_def hist_inv_def)
    have ts: "signed_ts (fst c @ [ev]) = signed_ts (fst c) @ [?t]" by (simp add: signed_ts_def ev)
    have low: "floor (ledger_of (CheckpointGuardStatePath cfg) (w_os w)) < ?t" and new: "?t \<notin> set (signed_ts (fst c))"
      using exec_above_floor [OF h(2)] unfolding ts by auto
    then have "?t \<notin> dom (entries (ledger_after cfg w (fst c)))"
      using ledger_after_entries(1) [OF h(1)] ledger_of_dom by force
    then have "entries (ledger_after cfg w (fst c)) ?t = None" by (simp only: domIff not_not)
    moreover have "floor (ledger_after cfg w (fst c)) < ?t" using low by (simp add: ledger_after_def book_floor)
    ultimately have "ledger_step (ledger_after cfg w (fst c)) (Signs ?t d sg) (ledger_after cfg w (fst c'))"
      unfolding after ev by (simp add: ledger_step_Signs)
    moreover have "v = Signs ?t d sg" using that ev by simp
    ultimately show ?thesis by simp
  next
    case False
    with that obtain r d sg where ev: "ev = EvMemo r d sg" "v = Resends (ValidatorTimestamp r) d sg" by (cases ev) auto
    have "sys_exec E cfg w (fst c) (snd c)" "CheckpointGuardStatePath cfg \<noteq> ''''" "\<not> ends_tmp (CheckpointGuardStatePath cfg)"
      using inv by (simp_all add: hist_inv_def)
    then have "memo_inv cfg (history cfg w (fst c)) (snd c)"
      using memo_inv_exec durable_zero by blast
    then have "(ValidatorTimestamp r, d, sg) \<in> history cfg w (fst c)"
      using memo_reply stp ev(1) by (auto simp: hist_step_def)
    then have "entries (ledger_after cfg w (fst c)) (ValidatorTimestamp r) = Some (d, Some sg)"
      using ledger_after_entries(2) [of E cfg w "fst c" "snd c"] inv by simp
    with after ev show ?thesis by (simp add: ledger_step_Resends)
  qed
qed

section \<open>Property\<close>

text \<open>Claim C4: the server implements the ledger.  For every execution, with any interleaving, crashes,
  restarts and failures, the signatures it makes and the signatures it sends again are, in their order,
  a run of the ledger that its state file stood for at the beginning.  The ledger does not order the
  timestamps: the guard lets them through in increasing order, but two requests that were let through one
  after the other may be signed in either order.\<close>

theorem server_refines_ledger:
  assumes "sys_exec E cfg w evs s"
    and "CheckpointGuardStatePath cfg \<noteq> ''''" and "\<not> ends_tmp (CheckpointGuardStatePath cfg)"
  shows "runs ledger_step (ledger_of (CheckpointGuardStatePath cfg) (w_os w)) (List.map_filter observe evs)
    (ledger_after cfg w evs)"
proof -
  have "hist_inv E cfg w ([], initial_sys w)" using assms(2,3) by (simp add: hist_inv_def exec_init)
  from ledger_map.trace_inclusion [OF sys_exec_runs [OF assms(1)] this] show ?thesis
    by (simp add: ledger_after_def)
qed

theorem server_refines_ledger_witness:
  "\<exists>c sg L. runs ledger_step \<lparr>floor = 0, entries = Map.empty\<rparr> [Signs 9 c (Some sg), Resends 9 c sg] L"
proof -
  obtain s where s: "sys_exec demo_env demo_config demo_world demo_memo_trace s" using demo_memo_exec by blast
  have "ledger_of (CheckpointGuardStatePath demo_config) (w_os demo_world) = \<lparr>floor = 0, entries = Map.empty\<rparr>"
    using demo_plain by (simp add: ledger_of_def content_at_def demo_config_def demo_world_def demo_os_def)
  moreover have "ValidatorTimestamp (demo_request demo_valset 5 9) = 9" by (simp add: demo_request_def Let_def)
  then have "\<exists>c sg. List.map_filter observe demo_memo_trace = [Signs 9 c (Some sg), Resends 9 c sg]"
    by (simp add: demo_memo_trace_def demo_trace_def Let_def List.map_filter_def)
  ultimately show ?thesis using server_refines_ledger [OF s demo_config_path] by metis
qed

end
