(* ===== verification/Grpc_Service.thy ===== *)
theory Grpc_Service
  imports Bridge_Server
begin

text \<open>
  The generated gRPC code (\<^verbatim>\<open>src/api/gen/signer/v1/signer_grpc.pb.go\<close>): the client stubs, the generated handlers and the
  service description with its method table.  The connection a stub invokes and the decoder a handler is given come from the
  gRPC library and are arguments; the property is about the generated code and the server behind it.
\<close>

section \<open>Messages as they are allocated\<close>

definition zero_checkpoint_request :: SignBridgeCheckpointRequest where
  "zero_checkpoint_request =
     \<lparr>DomainSeparator = [], PowerThreshold = 0, ValidatorTimestamp = 0, ValidatorSetHash = [], ValidatorSet = [], BlockHeight = 0,
      CheckpointIndex = 0, ChainId = '''', ExpectedCheckpoint = [], CheckpointRequestId = ''''\<rparr>"

definition zero_attestation_request :: SignOracleAttestationRequest where
  "zero_attestation_request =
     \<lparr>QueryId = [], Value = [], Timestamp = 0, AggregatePower = 0, PreviousTimestamp = 0, NextTimestamp = 0,
      ValsetCheckpoint = [], AttestationTimestamp = 0, LastConsensusTimestamp = 0, ExpectedSnapshot = [],
      AttestationRequestId = ''''\<rparr>"

section \<open>Client stubs\<close>

text \<open>
  \<^verbatim>\<open>cc.Invoke(ctx, method, in, out)\<close> reports an error or fills \<^verbatim>\<open>out\<close>; the state of the connection is threaded through.
  A stub returns the error, or \<^verbatim>\<open>out\<close>.
\<close>

type_synonym ('e, 's) client_conn = "string \<Rightarrow> request \<Rightarrow> response \<Rightarrow> 's \<Rightarrow> ('e option \<times> response) \<times> 's"

definition out_or_err :: "('e option \<times> response) \<times> 's \<Rightarrow> ('e + response) \<times> 's" where
  "out_or_err = (\<lambda>((err, out), s). (case err of Some e \<Rightarrow> Inl e | None \<Rightarrow> Inr out, s))"

definition client_Sign :: "('e, 's) client_conn \<Rightarrow> bytes \<Rightarrow> string \<Rightarrow> 's \<Rightarrow> ('e + response) \<times> 's" where
  "client_Sign cc hash requestId s = out_or_err (cc ''/signer.v1.BridgeSigner/Sign'' (SignRequest hash requestId) (SignResponse []) s)"

definition client_GetPublicKey :: "('e, 's) client_conn \<Rightarrow> 's \<Rightarrow> ('e + response) \<times> 's" where
  "client_GetPublicKey cc s = out_or_err (cc ''/signer.v1.BridgeSigner/GetPublicKey'' GetPublicKeyRequest (GetPublicKeyResponse []) s)"

definition client_SignRaw :: "('e, 's) client_conn \<Rightarrow> bytes \<Rightarrow> string \<Rightarrow> 's \<Rightarrow> ('e + response) \<times> 's" where
  "client_SignRaw cc hash requestId s = out_or_err (cc ''/signer.v1.BridgeSigner/SignRaw'' (SignRawRequest hash requestId) (SignRawResponse []) s)"

definition client_GetAddress :: "('e, 's) client_conn \<Rightarrow> string \<Rightarrow> 's \<Rightarrow> ('e + response) \<times> 's" where
  "client_GetAddress cc hrp s = out_or_err (cc ''/signer.v1.BridgeSigner/GetAddress'' (GetAddressRequest hrp) (GetAddressResponse '''') s)"

definition client_SignTx :: "('e, 's) client_conn \<Rightarrow> bytes \<Rightarrow> string \<Rightarrow> 's \<Rightarrow> ('e + response) \<times> 's" where
  "client_SignTx cc signDoc requestId s = out_or_err (cc ''/signer.v1.BridgeSigner/SignTx'' (SignTxRequest signDoc requestId) (SignTxResponse []) s)"

definition client_GetChainID :: "('e, 's) client_conn \<Rightarrow> 's \<Rightarrow> ('e + response) \<times> 's" where
  "client_GetChainID cc s = out_or_err (cc ''/signer.v1.BridgeSigner/GetChainID'' GetChainIDRequest (GetChainIDResponse '''') s)"

definition client_SignBridgeCheckpoint :: "('e, 's) client_conn \<Rightarrow> SignBridgeCheckpointRequest \<Rightarrow> 's \<Rightarrow> ('e + response) \<times> 's" where
  "client_SignBridgeCheckpoint cc r s = out_or_err (cc ''/signer.v1.BridgeSigner/SignBridgeCheckpoint'' (CheckpointRequest r) (SignBridgeCheckpointResponse [] []) s)"

definition client_SignOracleAttestation :: "('e, 's) client_conn \<Rightarrow> SignOracleAttestationRequest \<Rightarrow> 's \<Rightarrow> ('e + response) \<times> 's" where
  "client_SignOracleAttestation cc r s = out_or_err (cc ''/signer.v1.BridgeSigner/SignOracleAttestation'' (AttestationRequest r) (SignOracleAttestationResponse [] []) s)"

definition client_SignInitial :: "('e, 's) client_conn \<Rightarrow> string \<Rightarrow> string \<Rightarrow> 's \<Rightarrow> ('e + response) \<times> 's" where
  "client_SignInitial cc operatorAddress requestId s = out_or_err (cc ''/signer.v1.BridgeSigner/SignInitial'' (SignInitialRequest operatorAddress requestId) (SignInitialResponse [] []) s)"

section \<open>The server interface\<close>

record 's BridgeSignerServer =
  srvSign :: "bytes \<Rightarrow> string \<Rightarrow> 's \<Rightarrow> response result \<times> 's"
  srvGetPublicKey :: "'s \<Rightarrow> response result \<times> 's"
  srvSignRaw :: "bytes \<Rightarrow> string \<Rightarrow> 's \<Rightarrow> response result \<times> 's"
  srvGetAddress :: "string \<Rightarrow> 's \<Rightarrow> response result \<times> 's"
  srvSignTx :: "bytes \<Rightarrow> string \<Rightarrow> 's \<Rightarrow> response result \<times> 's"
  srvGetChainID :: "'s \<Rightarrow> response result \<times> 's"
  srvSignBridgeCheckpoint :: "SignBridgeCheckpointRequest \<Rightarrow> 's \<Rightarrow> response result \<times> 's"
  srvSignOracleAttestation :: "SignOracleAttestationRequest \<Rightarrow> 's \<Rightarrow> response result \<times> 's"
  srvSignInitial :: "string \<Rightarrow> string \<Rightarrow> 's \<Rightarrow> response result \<times> 's"

text \<open>The methods of \<^verbatim>\<open>*Server\<close>.\<close>

definition server_methods :: "'ty env \<Rightarrow> state BridgeSignerServer" where
  "server_methods E =
     \<lparr>srvSign = (\<lambda>_ _. Sign), srvGetPublicKey = GetPublicKey E, srvSignRaw = (\<lambda>_ _. SignRaw), srvGetAddress = GetAddress E,
      srvSignTx = (\<lambda>signDoc _. SignTx E signDoc), srvGetChainID = GetChainID, srvSignBridgeCheckpoint = SignBridgeCheckpoint E,
      srvSignOracleAttestation = SignOracleAttestation E, srvSignInitial = (\<lambda>operatorAddress _. SignInitial E operatorAddress)\<rparr>"

section \<open>Generated handlers\<close>

text \<open>
  A handler allocates its request, lets \<^verbatim>\<open>dec\<close> fill it, and returns the error of \<^verbatim>\<open>dec\<close> (\<open>Inl\<close>) or what the interceptor,
  or without one the method, returns (\<open>Inr\<close>).  \<^verbatim>\<open>dec\<close> writes into the message it is given, so what it fills in has
  the type of the message allocated.  The type assertion in the closure panics on a request of another type.
\<close>

type_synonym ('e, 's) method_handler =
  "'s BridgeSignerServer \<Rightarrow> call_ctx \<Rightarrow> (request \<Rightarrow> 'e + request) \<Rightarrow> 's interceptor option \<Rightarrow> 's \<Rightarrow> ('e + response result) \<times> 's"

definition BridgeSigner_Sign_Handler :: "('e, 's) method_handler" where
  "BridgeSigner_Sign_Handler srv ctx dec interceptor s =
     (case dec (SignRequest [] '''') of
        Inl err \<Rightarrow> (Inl err, s)
      | Inr msg \<Rightarrow>
          (let handler = (\<lambda>req s. case req of SignRequest hash requestId \<Rightarrow> srvSign srv hash requestId s | _ \<Rightarrow> (Panics, s))
           in apfst Inr (case interceptor of
                None \<Rightarrow> handler msg s
              | Some ic \<Rightarrow> ic ctx msg ''/signer.v1.BridgeSigner/Sign'' handler s)))"

definition BridgeSigner_GetPublicKey_Handler :: "('e, 's) method_handler" where
  "BridgeSigner_GetPublicKey_Handler srv ctx dec interceptor s =
     (case dec GetPublicKeyRequest of
        Inl err \<Rightarrow> (Inl err, s)
      | Inr msg \<Rightarrow>
          (let handler = (\<lambda>req s. case req of GetPublicKeyRequest \<Rightarrow> srvGetPublicKey srv s | _ \<Rightarrow> (Panics, s))
           in apfst Inr (case interceptor of
                None \<Rightarrow> handler msg s
              | Some ic \<Rightarrow> ic ctx msg ''/signer.v1.BridgeSigner/GetPublicKey'' handler s)))"

definition BridgeSigner_SignRaw_Handler :: "('e, 's) method_handler" where
  "BridgeSigner_SignRaw_Handler srv ctx dec interceptor s =
     (case dec (SignRawRequest [] '''') of
        Inl err \<Rightarrow> (Inl err, s)
      | Inr msg \<Rightarrow>
          (let handler = (\<lambda>req s. case req of SignRawRequest hash requestId \<Rightarrow> srvSignRaw srv hash requestId s | _ \<Rightarrow> (Panics, s))
           in apfst Inr (case interceptor of
                None \<Rightarrow> handler msg s
              | Some ic \<Rightarrow> ic ctx msg ''/signer.v1.BridgeSigner/SignRaw'' handler s)))"

definition BridgeSigner_GetAddress_Handler :: "('e, 's) method_handler" where
  "BridgeSigner_GetAddress_Handler srv ctx dec interceptor s =
     (case dec (GetAddressRequest '''') of
        Inl err \<Rightarrow> (Inl err, s)
      | Inr msg \<Rightarrow>
          (let handler = (\<lambda>req s. case req of GetAddressRequest hrp \<Rightarrow> srvGetAddress srv hrp s | _ \<Rightarrow> (Panics, s))
           in apfst Inr (case interceptor of
                None \<Rightarrow> handler msg s
              | Some ic \<Rightarrow> ic ctx msg ''/signer.v1.BridgeSigner/GetAddress'' handler s)))"

definition BridgeSigner_SignTx_Handler :: "('e, 's) method_handler" where
  "BridgeSigner_SignTx_Handler srv ctx dec interceptor s =
     (case dec (SignTxRequest [] '''') of
        Inl err \<Rightarrow> (Inl err, s)
      | Inr msg \<Rightarrow>
          (let handler = (\<lambda>req s. case req of SignTxRequest signDoc requestId \<Rightarrow> srvSignTx srv signDoc requestId s | _ \<Rightarrow> (Panics, s))
           in apfst Inr (case interceptor of
                None \<Rightarrow> handler msg s
              | Some ic \<Rightarrow> ic ctx msg ''/signer.v1.BridgeSigner/SignTx'' handler s)))"

definition BridgeSigner_GetChainID_Handler :: "('e, 's) method_handler" where
  "BridgeSigner_GetChainID_Handler srv ctx dec interceptor s =
     (case dec GetChainIDRequest of
        Inl err \<Rightarrow> (Inl err, s)
      | Inr msg \<Rightarrow>
          (let handler = (\<lambda>req s. case req of GetChainIDRequest \<Rightarrow> srvGetChainID srv s | _ \<Rightarrow> (Panics, s))
           in apfst Inr (case interceptor of
                None \<Rightarrow> handler msg s
              | Some ic \<Rightarrow> ic ctx msg ''/signer.v1.BridgeSigner/GetChainID'' handler s)))"

definition BridgeSigner_SignBridgeCheckpoint_Handler :: "('e, 's) method_handler" where
  "BridgeSigner_SignBridgeCheckpoint_Handler srv ctx dec interceptor s =
     (case dec (CheckpointRequest zero_checkpoint_request) of
        Inl err \<Rightarrow> (Inl err, s)
      | Inr msg \<Rightarrow>
          (let handler = (\<lambda>req s. case req of CheckpointRequest r \<Rightarrow> srvSignBridgeCheckpoint srv r s | _ \<Rightarrow> (Panics, s))
           in apfst Inr (case interceptor of
                None \<Rightarrow> handler msg s
              | Some ic \<Rightarrow> ic ctx msg ''/signer.v1.BridgeSigner/SignBridgeCheckpoint'' handler s)))"

definition BridgeSigner_SignOracleAttestation_Handler :: "('e, 's) method_handler" where
  "BridgeSigner_SignOracleAttestation_Handler srv ctx dec interceptor s =
     (case dec (AttestationRequest zero_attestation_request) of
        Inl err \<Rightarrow> (Inl err, s)
      | Inr msg \<Rightarrow>
          (let handler = (\<lambda>req s. case req of AttestationRequest r \<Rightarrow> srvSignOracleAttestation srv r s | _ \<Rightarrow> (Panics, s))
           in apfst Inr (case interceptor of
                None \<Rightarrow> handler msg s
              | Some ic \<Rightarrow> ic ctx msg ''/signer.v1.BridgeSigner/SignOracleAttestation'' handler s)))"

definition BridgeSigner_SignInitial_Handler :: "('e, 's) method_handler" where
  "BridgeSigner_SignInitial_Handler srv ctx dec interceptor s =
     (case dec (SignInitialRequest '''' '''') of
        Inl err \<Rightarrow> (Inl err, s)
      | Inr msg \<Rightarrow>
          (let handler = (\<lambda>req s. case req of SignInitialRequest operatorAddress requestId \<Rightarrow> srvSignInitial srv operatorAddress requestId s | _ \<Rightarrow> (Panics, s))
           in apfst Inr (case interceptor of
                None \<Rightarrow> handler msg s
              | Some ic \<Rightarrow> ic ctx msg ''/signer.v1.BridgeSigner/SignInitial'' handler s)))"

definition BridgeSigner_ServiceDesc :: "string \<times> (string \<times> ('e, 's) method_handler) list" where
  "BridgeSigner_ServiceDesc =
     (''signer.v1.BridgeSigner'',
      [(''Sign'', BridgeSigner_Sign_Handler),
       (''GetPublicKey'', BridgeSigner_GetPublicKey_Handler),
       (''SignRaw'', BridgeSigner_SignRaw_Handler),
       (''GetAddress'', BridgeSigner_GetAddress_Handler),
       (''SignTx'', BridgeSigner_SignTx_Handler),
       (''GetChainID'', BridgeSigner_GetChainID_Handler),
       (''SignBridgeCheckpoint'', BridgeSigner_SignBridgeCheckpoint_Handler),
       (''SignOracleAttestation'', BridgeSigner_SignOracleAttestation_Handler),
       (''SignInitial'', BridgeSigner_SignInitial_Handler)])"

section \<open>Property\<close>

text \<open>The stub and the two fresh messages of the method a request belongs to.\<close>

fun client_call :: "('e, 's) client_conn \<Rightarrow> request \<Rightarrow> 's \<Rightarrow> ('e + response) \<times> 's" where
  "client_call cc (SignRequest hash requestId) = client_Sign cc hash requestId"
| "client_call cc GetPublicKeyRequest = client_GetPublicKey cc"
| "client_call cc (SignRawRequest hash requestId) = client_SignRaw cc hash requestId"
| "client_call cc (GetAddressRequest hrp) = client_GetAddress cc hrp"
| "client_call cc (SignTxRequest signDoc requestId) = client_SignTx cc signDoc requestId"
| "client_call cc GetChainIDRequest = client_GetChainID cc"
| "client_call cc (CheckpointRequest r) = client_SignBridgeCheckpoint cc r"
| "client_call cc (AttestationRequest r) = client_SignOracleAttestation cc r"
| "client_call cc (SignInitialRequest operatorAddress requestId) = client_SignInitial cc operatorAddress requestId"

fun fresh_request :: "request \<Rightarrow> request" where
  "fresh_request (SignRequest _ _) = SignRequest [] ''''"
| "fresh_request GetPublicKeyRequest = GetPublicKeyRequest"
| "fresh_request (SignRawRequest _ _) = SignRawRequest [] ''''"
| "fresh_request (GetAddressRequest _) = GetAddressRequest ''''"
| "fresh_request (SignTxRequest _ _) = SignTxRequest [] ''''"
| "fresh_request GetChainIDRequest = GetChainIDRequest"
| "fresh_request (CheckpointRequest _) = CheckpointRequest zero_checkpoint_request"
| "fresh_request (AttestationRequest _) = AttestationRequest zero_attestation_request"
| "fresh_request (SignInitialRequest _ _) = SignInitialRequest '''' ''''"

fun fresh_response :: "request \<Rightarrow> response" where
  "fresh_response (SignRequest _ _) = SignResponse []"
| "fresh_response GetPublicKeyRequest = GetPublicKeyResponse []"
| "fresh_response (SignRawRequest _ _) = SignRawResponse []"
| "fresh_response (GetAddressRequest _) = GetAddressResponse ''''"
| "fresh_response (SignTxRequest _ _) = SignTxResponse []"
| "fresh_response GetChainIDRequest = GetChainIDResponse ''''"
| "fresh_response (CheckpointRequest _) = SignBridgeCheckpointResponse [] []"
| "fresh_response (AttestationRequest _) = SignOracleAttestationResponse [] []"
| "fresh_response (SignInitialRequest _ _) = SignInitialResponse [] []"

lemmas generated_defs =
  BridgeSigner_Sign_Handler_def client_Sign_def
  BridgeSigner_GetPublicKey_Handler_def client_GetPublicKey_def
  BridgeSigner_SignRaw_Handler_def client_SignRaw_def
  BridgeSigner_GetAddress_Handler_def client_GetAddress_def
  BridgeSigner_SignTx_Handler_def client_SignTx_def
  BridgeSigner_GetChainID_Handler_def client_GetChainID_def
  BridgeSigner_SignBridgeCheckpoint_Handler_def client_SignBridgeCheckpoint_def
  BridgeSigner_SignOracleAttestation_Handler_def client_SignOracleAttestation_def
  BridgeSigner_SignInitial_Handler_def client_SignInitial_def

fun method_name :: "request \<Rightarrow> string" where
  "method_name (SignRequest _ _) = ''Sign''"
| "method_name GetPublicKeyRequest = ''GetPublicKey''"
| "method_name (SignRawRequest _ _) = ''SignRaw''"
| "method_name (GetAddressRequest _) = ''GetAddress''"
| "method_name (SignTxRequest _ _) = ''SignTx''"
| "method_name GetChainIDRequest = ''GetChainID''"
| "method_name (CheckpointRequest _) = ''SignBridgeCheckpoint''"
| "method_name (AttestationRequest _) = ''SignOracleAttestation''"
| "method_name (SignInitialRequest _ _) = ''SignInitial''"

fun handler_of :: "request \<Rightarrow> ('e, 's) method_handler" where
  "handler_of (SignRequest _ _) = BridgeSigner_Sign_Handler"
| "handler_of GetPublicKeyRequest = BridgeSigner_GetPublicKey_Handler"
| "handler_of (SignRawRequest _ _) = BridgeSigner_SignRaw_Handler"
| "handler_of (GetAddressRequest _) = BridgeSigner_GetAddress_Handler"
| "handler_of (SignTxRequest _ _) = BridgeSigner_SignTx_Handler"
| "handler_of GetChainIDRequest = BridgeSigner_GetChainID_Handler"
| "handler_of (CheckpointRequest _) = BridgeSigner_SignBridgeCheckpoint_Handler"
| "handler_of (AttestationRequest _) = BridgeSigner_SignOracleAttestation_Handler"
| "handler_of (SignInitialRequest _ _) = BridgeSigner_SignInitial_Handler"

text \<open>The server's interceptors call their continuation with the request they were given or not at all.\<close>

lemma server_interceptor_passes:
  "handler req s = handler' req s \<Longrightarrow>
     server_interceptor enabled ctx req info handler s = server_interceptor enabled ctx req info handler' s"
  by (simp add: server_interceptor_def chainUnaryInterceptors_def newUnaryInterceptor_def newEnabledRPCInterceptor_def
      newPrimaryGateInterceptor_def split: option.split)

lemma handler_of_undecoded: "dec (fresh_request req) = Inl err \<Longrightarrow> handler_of req srv ctx dec ic s = (Inl err, s)"
  by (cases req) (simp_all add: generated_defs)

lemma handler_of_serves:
  assumes "dec (fresh_request req) = Inr req"
  shows "handler_of req (server_methods E) ctx dec (Some (server_interceptor (enabledRPCs (fst st)))) st = apfst Inr (serve E ctx req st)"
  using assms unfolding serve_def unary_call_def
  by (cases req; simp add: generated_defs; intro arg_cong [where f = "apfst Inr"] server_interceptor_passes;
      simp add: server_methods_def)

lemma client_call_path: "client_call cc req s = out_or_err (cc (''/signer.v1.BridgeSigner/'' @ method_name req) req (fresh_response req) s)"
  by (cases req) (simp_all add: generated_defs)

lemma method_table:
  "\<exists>methods. BridgeSigner_ServiceDesc = (''signer.v1.BridgeSigner'', methods) \<and> distinct (map fst methods)
     \<and> map_of methods (method_name req) = Some (handler_of req)"
  by (cases req) (simp_all add: BridgeSigner_ServiceDesc_def)

text \<open>Claim C14: stubs, method table, handlers and interceptors fit together.  Every request belongs to one name of the
  method table, which has each name once.  The stub of the request invokes, on any connection, the path \<^verbatim>\<open>/service/name\<close> with the
  request and a fresh response of the method's type, and returns the connection's error or the response it filled.  The handler
  in the table under that name gives \<^verbatim>\<open>dec\<close> a fresh request of the method's type.  If \<^verbatim>\<open>dec\<close> fails, its error is returned and
  neither an interceptor nor the server runs.  If \<^verbatim>\<open>dec\<close> fills in the request, the handler under the server's
  interceptors is exactly \<open>serve\<close>: the interceptors see the path the stub invoked and the server's method of that name gets
  the request.\<close>

theorem generated_code_routes:
  "\<exists>svc methods name (h :: ('e, state) method_handler).
     BridgeSigner_ServiceDesc = (svc, methods) \<and> distinct (map fst methods) \<and> map_of methods name = Some h
   \<and> (\<forall>(cc :: ('c, 's) client_conn) s.
        client_call cc req s = out_or_err (cc (''/'' @ svc @ ''/'' @ name) req (fresh_response req) s))
   \<and> (\<forall>dec ctx st.
        (\<forall>err. dec (fresh_request req) = Inl err \<longrightarrow>
           h (server_methods E) ctx dec (Some (server_interceptor (enabledRPCs (fst st)))) st = (Inl err, st))
      \<and> (dec (fresh_request req) = Inr req \<longrightarrow>
           h (server_methods E) ctx dec (Some (server_interceptor (enabledRPCs (fst st)))) st = apfst Inr (serve E ctx req st)))"
proof -
  obtain methods :: "(string \<times> ('e, state) method_handler) list"
    where "BridgeSigner_ServiceDesc = (''signer.v1.BridgeSigner'', methods)" "distinct (map fst methods)"
      "map_of methods (method_name req) = Some (handler_of req)"
    using method_table by blast
  then show ?thesis
    by (rule_tac x = "''signer.v1.BridgeSigner''" in exI, rule_tac x = methods in exI, rule_tac x = "method_name req" in exI,
        rule_tac x = "handler_of req" in exI) (simp add: client_call_path handler_of_undecoded handler_of_serves)
qed

definition plain_ctx :: call_ctx where
  "plain_ctx = \<lparr>peer = Some ''10.0.0.1:4000'', primaryHost = None\<rparr>"

text \<open>A request for the chain id, decoded from its empty message and served.\<close>

theorem generated_code_routes_witness:
  "\<exists>svc methods name (h :: (string, state) method_handler).
     BridgeSigner_ServiceDesc = (svc, methods) \<and> map_of methods name = Some h
   \<and> fst (client_GetChainID (\<lambda>path req out s. ((None :: string option, GetChainIDResponse path), s)) ()) = Inr (GetChainIDResponse (''/'' @ svc @ ''/'' @ name))
   \<and> fst (h (server_methods demo_env) plain_ctx Inr (Some (server_interceptor (enabledRPCs demo_server))) (demo_server, demo_world))
       = Inr (Returns (Inr (GetChainIDResponse ''tellor-1'')))
   \<and> fst (h (server_methods demo_env) plain_ctx (\<lambda>_. Inl ''short message'') (Some (server_interceptor (enabledRPCs demo_server)))
            (demo_server, demo_world)) = Inl ''short message''"
proof -
  have served: "fst (serve demo_env plain_ctx GetChainIDRequest (demo_server, demo_world)) = Returns (Inr (GetChainIDResponse ''tellor-1''))"
    by (simp add: serve_cases demo_server_def plain_ctx_def gate_refuses_def GetChainID_def)
  obtain svc methods name and h :: "(string, state) method_handler" where
      t: "BridgeSigner_ServiceDesc = (svc, methods)" and "distinct (map fst methods)" and m: "map_of methods name = Some h"
    and c: "\<forall>(cc :: (string, unit) client_conn) s. client_call cc GetChainIDRequest s =
        out_or_err (cc (''/'' @ svc @ ''/'' @ name) GetChainIDRequest (fresh_response GetChainIDRequest) s)"
    and h: "\<forall>dec ctx st. (\<forall>err. dec (fresh_request GetChainIDRequest) = Inl err \<longrightarrow>
           h (server_methods demo_env) ctx dec (Some (server_interceptor (enabledRPCs (fst st)))) st = (Inl err, st))
      \<and> (dec (fresh_request GetChainIDRequest) = Inr GetChainIDRequest \<longrightarrow>
           h (server_methods demo_env) ctx dec (Some (server_interceptor (enabledRPCs (fst st)))) st
             = apfst Inr (serve demo_env ctx GetChainIDRequest st))"
    using generated_code_routes [of GetChainIDRequest demo_env] by (elim exE conjE) (rule that)
  have "fst (client_GetChainID (\<lambda>path req out s. ((None :: string option, GetChainIDResponse path), s)) ()) = Inr (GetChainIDResponse (''/'' @ svc @ ''/'' @ name))"
    using c [rule_format, of "\<lambda>path req out s. ((None :: string option, GetChainIDResponse path), s)" "()"] by (simp add: out_or_err_def)
  moreover have "fst (h (server_methods demo_env) plain_ctx Inr (Some (server_interceptor (enabledRPCs demo_server))) (demo_server, demo_world))
       = Inr (Returns (Inr (GetChainIDResponse ''tellor-1'')))"
    using spec [OF spec [OF spec [OF h, of Inr], of plain_ctx], of "(demo_server, demo_world)"] served by simp
  moreover have "fst (h (server_methods demo_env) plain_ctx (\<lambda>_. Inl ''short message'') (Some (server_interceptor (enabledRPCs demo_server)))
            (demo_server, demo_world)) = Inl ''short message''"
    using spec [OF spec [OF spec [OF h, of "\<lambda>_. Inl ''short message''"], of plain_ctx], of "(demo_server, demo_world)"] by simp
  ultimately show ?thesis using t m by (intro exI conjI) assumption+
qed

end
