(* ===== verification/Go_Asn1.thy ===== *)
theory Go_Asn1
  imports Prelude
begin

text \<open>
  The parts of Go's \<^verbatim>\<open>encoding/asn1\<close> and \<^verbatim>\<open>math/big\<close> that the signing backends use: decoding of
  a DER sequence of two integers (an ECDSA signature) and of a SubjectPublicKeyInfo.  A parser takes
  the bytes from its offset on and returns the value and the bytes that follow.  As in Go, data
  after the last field of a sequence is ignored.
\<close>

unbundle bit_operations_syntax

datatype asn_error =
    AsnTruncated
  | AsnTooLarge
  | AsnNonMinimal
  | AsnIndefinite
  | AsnTagMismatch
  | AsnEmptyInteger
  | AsnEmptyOid
  | AsnBitPadding

type_synonym 'a parsed = "asn_error + ('a \<times> bytes)"

section \<open>Headers\<close>

record asn_header =
  h_class :: nat
  h_compound :: bool
  h_tag :: nat
  h_length :: nat

text \<open>\<^verbatim>\<open>parseBase128Int\<close>; the first argument counts the bytes read.\<close>

fun base128 :: "nat \<Rightarrow> nat \<Rightarrow> bytes \<Rightarrow> nat parsed" where
  "base128 shifted acc [] = Inl AsnTruncated"
| "base128 shifted acc (b # bs) =
     (if shifted = 5 then Inl AsnTooLarge
      else if shifted = 0 \<and> b = 0x80 then Inl AsnNonMinimal
      else
        let acc' = acc * 128 + unat b mod 128 in
        if unat b < 128 then
          (if acc' > 2147483647 then Inl AsnTooLarge else Inr (acc', bs))
        else base128 (Suc shifted) acc' bs)"

text \<open>The bytes of a long-form length.\<close>

fun long_length :: "nat \<Rightarrow> nat \<Rightarrow> bytes \<Rightarrow> nat parsed" where
  "long_length 0 acc bs = (if acc < 128 then Inl AsnNonMinimal else Inr (acc, bs))"
| "long_length (Suc n) acc [] = Inl AsnTruncated"
| "long_length (Suc n) acc (b # bs) =
     (if acc \<ge> 2 ^ 23 then Inl AsnTooLarge
      else
        let acc' = acc * 256 + unat b in
        if acc' = 0 then Inl AsnNonMinimal else long_length n acc' bs)"

definition parse_length :: "bytes \<Rightarrow> nat parsed" where
  "parse_length bs =
     (case bs of
        [] \<Rightarrow> Inl AsnTruncated
      | b # r \<Rightarrow>
          if unat b < 128 then Inr (unat b, r)
          else if unat b = 128 then Inl AsnIndefinite
          else long_length (unat b - 128) 0 r)"

text \<open>\<^verbatim>\<open>parseTagAndLength\<close>.\<close>

definition parse_header :: "bytes \<Rightarrow> asn_header parsed" where
  "parse_header bs =
     (case bs of
        [] \<Rightarrow> Inl AsnTruncated
      | b # r \<Rightarrow>
          let tag = (if unat b mod 32 = 31
                     then (case base128 0 0 r of
                             Inl e \<Rightarrow> Inl e
                           | Inr (t, r') \<Rightarrow> if t < 31 then Inl AsnNonMinimal else Inr (t, r'))
                     else Inr (unat b mod 32, r))
          in (case tag of
                Inl e \<Rightarrow> Inl e
              | Inr (t, r') \<Rightarrow>
                  (case parse_length r' of
                     Inl e \<Rightarrow> Inl e
                   | Inr (n, r'') \<Rightarrow>
                       Inr (\<lparr>h_class = unat b div 64, h_compound = (unat b div 32 mod 2 = 1),
                             h_tag = t, h_length = n\<rparr>, r''))))"

text \<open>
  \<^verbatim>\<open>parseField\<close> up to the type switch: the element at the front must have the universal tag and
  form the field asks for; its contents are handed to \<open>parse\<close>.
\<close>

definition field :: "nat \<Rightarrow> bool \<Rightarrow> (bytes \<Rightarrow> asn_error + 'a) \<Rightarrow> bytes \<Rightarrow> 'a parsed" where
  "field tag compound parse bs =
     (if bs = [] then Inl AsnTruncated
      else (case parse_header bs of
              Inl e \<Rightarrow> Inl e
            | Inr (h, r) \<Rightarrow>
                if h_class h \<noteq> 0 \<or> h_tag h \<noteq> tag \<or> h_compound h \<noteq> compound then Inl AsnTagMismatch
                else if h_length h > length r then Inl AsnTruncated
                else (case parse (take (h_length h) r) of
                        Inl e \<Rightarrow> Inl e
                      | Inr v \<Rightarrow> Inr (v, drop (h_length h) r))))"

section \<open>Integers\<close>

definition checkInteger :: "bytes \<Rightarrow> asn_error option" where
  "checkInteger bs =
     (case bs of
        [] \<Rightarrow> Some AsnEmptyInteger
      | [b] \<Rightarrow> None
      | a # b # r \<Rightarrow>
          if a = 0 \<and> unat b < 128 \<or> a = 0xff \<and> unat b \<ge> 128 then Some AsnNonMinimal else None)"

definition parseBigInt :: "bytes \<Rightarrow> asn_error + int" where
  "parseBigInt bs =
     (case checkInteger bs of
        Some e \<Rightarrow> Inl e
      | None \<Rightarrow>
          if bs \<noteq> [] \<and> unat (hd bs) \<ge> 128
          then Inr (- (int (be_nat (map NOT bs)) + 1))
          else Inr (int (be_nat bs)))"

text \<open>\<^verbatim>\<open>big.Int.Bytes\<close>: the absolute value, big-endian, without leading zeros.\<close>

fun nat_bytes :: "nat \<Rightarrow> bytes" where
  "nat_bytes n = (if n = 0 then [] else nat_bytes (n div 256) @ [word_of_nat (n mod 256)])"

declare nat_bytes.simps [simp del]

definition big_bytes :: "int \<Rightarrow> bytes" where
  "big_bytes i = nat_bytes (nat \<bar>i\<bar>)"

section \<open>The two structures\<close>

text \<open>\<^verbatim>\<open>struct { R, S *big.Int }\<close>.\<close>

definition two_integers :: "bytes \<Rightarrow> asn_error + (int \<times> int)" where
  "two_integers bs =
     (case field 2 False parseBigInt bs of
        Inl e \<Rightarrow> Inl e
      | Inr (r, bs') \<Rightarrow>
          (case field 2 False parseBigInt bs' of
             Inl e \<Rightarrow> Inl e
           | Inr (s, _) \<Rightarrow> Inr (r, s)))"

definition unmarshal_sig :: "bytes \<Rightarrow> (int \<times> int) parsed" where
  "unmarshal_sig der = field 16 True two_integers der"

fun parse_oid_rest :: "nat \<Rightarrow> bytes \<Rightarrow> asn_error + nat list" where
  "parse_oid_rest 0 bs = (if bs = [] then Inr [] else Inl AsnTruncated)"
| "parse_oid_rest (Suc n) bs =
     (if bs = [] then Inr []
      else (case base128 0 0 bs of
              Inl e \<Rightarrow> Inl e
            | Inr (v, bs') \<Rightarrow>
                (case parse_oid_rest n bs' of Inl e \<Rightarrow> Inl e | Inr vs \<Rightarrow> Inr (v # vs))))"

text \<open>
  \<^verbatim>\<open>parseObjectIdentifier\<close>; every component takes at least one byte, so as many rounds as there are
  bytes are enough.  The arcs are kept undecoded, as nothing reads them.
\<close>

definition parse_oid :: "bytes \<Rightarrow> asn_error + nat list" where
  "parse_oid bs = (if bs = [] then Inl AsnEmptyOid else parse_oid_rest (length bs) bs)"

definition parse_bit_string :: "bytes \<Rightarrow> asn_error + bytes" where
  "parse_bit_string bs =
     (case bs of
        [] \<Rightarrow> Inl AsnBitPadding
      | p # r \<Rightarrow>
          if unat p > 7 \<or> r = [] \<and> unat p > 0 \<or> r \<noteq> [] \<and> unat (last r) mod 2 ^ unat p \<noteq> 0
          then Inl AsnBitPadding else Inr r)"

text \<open>An optional \<^verbatim>\<open>RawValue\<close>: any element, or nothing at the end of the sequence.\<close>

definition raw_optional :: "bytes \<Rightarrow> unit parsed" where
  "raw_optional bs =
     (if bs = [] then Inr ((), [])
      else (case parse_header bs of
              Inl e \<Rightarrow> Inl e
            | Inr (h, r) \<Rightarrow>
                if h_length h > length r then Inl AsnTruncated else Inr ((), drop (h_length h) r)))"

definition algorithm_id :: "bytes \<Rightarrow> asn_error + nat list" where
  "algorithm_id bs =
     (case field 6 False parse_oid bs of
        Inl e \<Rightarrow> Inl e
      | Inr (oid, bs') \<Rightarrow> (case raw_optional bs' of Inl e \<Rightarrow> Inl e | Inr _ \<Rightarrow> Inr oid))"

definition spki_fields :: "bytes \<Rightarrow> asn_error + bytes" where
  "spki_fields bs =
     (case field 16 True algorithm_id bs of
        Inl e \<Rightarrow> Inl e
      | Inr (_, bs') \<Rightarrow>
          (case field 3 False parse_bit_string bs' of Inl e \<Rightarrow> Inl e | Inr (k, _) \<Rightarrow> Inr k))"

definition unmarshal_spki :: "bytes \<Rightarrow> bytes parsed" where
  "unmarshal_spki der = field 16 True spki_fields der"

section \<open>DER encoding of a signature\<close>

text \<open>
  The encoder a signing device uses, for values below \<open>2 ^ 256\<close>: minimal two's-complement
  integers in a sequence with a short-form length.
\<close>

definition der_int :: "nat \<Rightarrow> bytes" where
  "der_int n =
     (let b = nat_bytes n;
          c = (if b = [] \<or> unat (hd b) \<ge> 128 then 0 # b else b)
      in 0x02 # word_of_nat (length c) # c)"

definition der_sig :: "nat \<Rightarrow> nat \<Rightarrow> bytes" where
  "der_sig r s = (let c = der_int r @ der_int s in 0x30 # word_of_nat (length c) # c)"

lemma be_nat_nat_bytes [simp]: "be_nat (nat_bytes n) = n"
proof (induction n rule: nat_bytes.induct)
  case (1 n)
  then show ?case by (subst nat_bytes.simps) (auto simp: unat_of_nat)
qed

lemma be_nat_cons_zero [simp]: "be_nat (0 # bs) = be_nat bs"
  by (simp add: be_nat_def)

lemma nat_bytes_hd: "nat_bytes n \<noteq> [] \<Longrightarrow> hd (nat_bytes n) \<noteq> 0"
proof (induction n rule: nat_bytes.induct)
  case (1 n)
  show ?case
  proof (cases "n < 256")
    case True
    with "1.prems" show ?thesis
      by (subst nat_bytes.simps, subst nat_bytes.simps) (auto simp: nat_bytes.simps [of 0] word_of_nat_eq_0_iff)
  next
    case False
    then have "nat_bytes (n div 256) \<noteq> []" by (subst nat_bytes.simps) simp
    moreover from False have "n \<noteq> 0" by simp
    ultimately show ?thesis using "1.IH" by (subst nat_bytes.simps) (simp add: hd_append)
  qed
qed

lemma length_nat_bytes: "n < 256 ^ k \<Longrightarrow> length (nat_bytes n) \<le> k"
proof (induction n arbitrary: k rule: nat_bytes.induct)
  case (1 n)
  show ?case
  proof (cases "n = 0")
    case False
    then obtain j where "k = Suc j" using "1.prems" by (cases k) auto
    with False "1.prems" have "n div 256 < 256 ^ j" by (simp add: less_mult_imp_div_less mult.commute)
    with "1.IH" False \<open>k = Suc j\<close> show ?thesis by (subst nat_bytes.simps) simp
  qed (simp add: nat_bytes.simps)
qed

lemma length_nat_bytes_gt: "256 ^ k \<le> n \<Longrightarrow> k < length (nat_bytes n)"
  using be_nat_less [of "nat_bytes n"] power_increasing_iff [of "256 :: nat"]
  by (metis be_nat_nat_bytes leD le_less_trans linorder_not_less numeral_less_iff one_less_numeral_iff
      semiring_norm(76) power_increasing one_le_numeral)

lemma parse_header_short:
  assumes "n < 128" "unat b mod 32 \<noteq> 31"
  shows "parse_header (b # word_of_nat n # r) =
    Inr (\<lparr>h_class = unat b div 64, h_compound = (unat b div 32 mod 2 = 1), h_tag = unat b mod 32, h_length = n\<rparr>, r)"
  using assms by (simp add: parse_header_def parse_length_def unat_of_nat)

lemma parse_header_int: "n < 128 \<Longrightarrow>
    parse_header (0x02 # word_of_nat n # r) = Inr (\<lparr>h_class = 0, h_compound = False, h_tag = 2, h_length = n\<rparr>, r)"
  using parse_header_short [where n = n and b = 2 and r = r] by simp

lemma parse_header_seq: "n < 128 \<Longrightarrow>
    parse_header (0x30 # word_of_nat n # r) = Inr (\<lparr>h_class = 0, h_compound = True, h_tag = 16, h_length = n\<rparr>, r)"
  using parse_header_short [where n = n and b = "0x30" and r = r] by simp

lemma parseBigInt_nat_bytes:
  "parseBigInt (if nat_bytes n = [] \<or> unat (hd (nat_bytes n)) \<ge> 128 then 0 # nat_bytes n else nat_bytes n) = Inr (int n)"
proof (cases "nat_bytes n")
  case Nil
  then have "n = 0" using be_nat_nat_bytes [of n] by simp
  with Nil show ?thesis by (simp add: parseBigInt_def checkInteger_def)
next
  case (Cons a r)
  then have a: "a \<noteq> 0" and n: "be_nat (a # r) = n" using nat_bytes_hd [of n] be_nat_nat_bytes [of n] by simp_all
  show ?thesis
  proof (cases "unat a < 128")
    case True
    then have "a \<noteq> 0xff" by auto
    with True a n Cons show ?thesis by (cases r) (simp_all add: parseBigInt_def checkInteger_def)
  next
    case False
    with n Cons show ?thesis by (simp add: parseBigInt_def checkInteger_def)
  qed
qed

lemma length_der_int:
  assumes "n < 2 ^ 256"
  shows "length (der_int n) \<le> 35"
  using length_nat_bytes [of n 32] assms by (simp add: der_int_def Let_def)

lemma field_der_int:
  assumes "n < 2 ^ 256"
  shows "field 2 False parseBigInt (der_int n @ r) = Inr (int n, r)"
proof -
  let ?c = "if nat_bytes n = [] \<or> unat (hd (nat_bytes n)) \<ge> 128 then 0 # nat_bytes n else nat_bytes n"
  have "length ?c < 128" using length_nat_bytes [of n 32] assms by simp
  then have "parse_header (0x02 # word_of_nat (length ?c) # ?c @ r) =
      Inr (\<lparr>h_class = 0, h_compound = False, h_tag = 2, h_length = length ?c\<rparr>, ?c @ r)"
    by (rule parse_header_int)
  moreover have "der_int n @ r = 0x02 # word_of_nat (length ?c) # ?c @ r"
    by (simp only: der_int_def Let_def append_Cons)
  ultimately show ?thesis
    using parseBigInt_nat_bytes [of n] by (simp add: field_def)
qed

lemma unmarshal_der_sig:
  assumes "r < 2 ^ 256" "s < 2 ^ 256"
  shows "unmarshal_sig (der_sig r s @ junk) = Inr ((int r, int s), junk)"
proof -
  let ?c = "der_int r @ der_int s"
  have "length ?c < 128" using length_der_int [OF assms(1)] length_der_int [OF assms(2)] by simp
  then have "parse_header (0x30 # word_of_nat (length ?c) # ?c @ junk) =
      Inr (\<lparr>h_class = 0, h_compound = True, h_tag = 16, h_length = length ?c\<rparr>, ?c @ junk)"
    by (rule parse_header_seq)
  moreover have "two_integers ?c = Inr (int r, int s)"
    using field_der_int [OF assms(1), of "der_int s"] field_der_int [OF assms(2), of "[]"]
    by (simp add: two_integers_def)
  ultimately show ?thesis
    by (simp add: unmarshal_sig_def field_def der_sig_def Let_def)
qed

end
