(* ===== verification/Sig_Utils.thy ===== *)
theory Sig_Utils
  imports Go_Asn1
begin

text \<open>
  Translation of device signatures to the Ethereum format (\<^verbatim>\<open>src/signer/sig_utils.go\<close>).

  go-ethereum's curve code is a parameter, the record \<open>secp\<close>: the order \<^verbatim>\<open>S256().N\<close>, the curve
  test behind \<^verbatim>\<open>elliptic.MarshalCompressed\<close>, \<^verbatim>\<open>crypto.Ecrecover\<close>, \<^verbatim>\<open>crypto.Sign\<close>,
  \<^verbatim>\<open>crypto.ToECDSA\<close> and \<^verbatim>\<open>crypto.CompressPubkey\<close>.  Slices out of range panic, as in Go.
\<close>

record 'key secp =
  curveN :: nat
  isOnCurve :: "nat \<Rightarrow> nat \<Rightarrow> bool"
  Ecrecover :: "bytes \<Rightarrow> bytes \<Rightarrow> string + bytes"
  ethSign :: "bytes \<Rightarrow> 'key \<Rightarrow> string + bytes"
  toECDSA :: "bytes \<Rightarrow> string + 'key"
  compressPubkey :: "'key \<Rightarrow> bytes"

datatype sig_error =
    UnmarshalDER asn_error
  | NoRecovery

definition secp256k1HalfN :: "'key secp \<Rightarrow> nat" where
  "secp256k1HalfN C = curveN C div 2"

text \<open>
  The source also rejects a \<^verbatim>\<open>nil\<close> R or S; after a successful \<^verbatim>\<open>Unmarshal\<close> neither is, as every field is
  decoded into a fresh integer.
\<close>

definition parseDERSignature :: "bytes \<Rightarrow> sig_error + (int \<times> int)" where
  "parseDERSignature der =
     (case unmarshal_sig der of
        Inl e \<Rightarrow> Inl (UnmarshalDER e)
      | Inr ((r, s), _) \<Rightarrow> Inr (r, s))"

text \<open>
  \<^verbatim>\<open>elliptic.MarshalCompressed\<close> on a 256-bit curve.  It panics on a point that is not on the curve,
  except the conventional point at infinity.
\<close>

definition MarshalCompressed :: "'key secp \<Rightarrow> nat \<Rightarrow> nat \<Rightarrow> bytes go" where
  "MarshalCompressed C x y =
     (if \<not> (x = 0 \<and> y = 0) \<and> \<not> isOnCurve C x y then Panics
      else Returns ((if odd y then 3 else 2) # be 32 x))"

text \<open>One turn of the loop of \<^verbatim>\<open>recoverV\<close>: whether \<open>v\<close> recovers the expected key.\<close>

definition recovers :: "'key secp \<Rightarrow> bytes \<Rightarrow> bytes \<Rightarrow> bytes \<Rightarrow> byte \<Rightarrow> bool go" where
  "recovers C msg rsSig compressedPubKey v =
     (case Ecrecover C msg (copy_into 64 rsSig @ [v]) of
        Inl _ \<Rightarrow> Returns False
      | Inr recovered \<Rightarrow>
          if length recovered = 65 then
            (let x = be_nat (take 32 (drop 1 recovered));
                 y = be_nat (take 32 (drop 33 recovered))
             in (case MarshalCompressed C x y of
                   Panics \<Rightarrow> Panics
                 | Returns compressed \<Rightarrow> Returns (compressed = compressedPubKey)))
          else Returns False)"

fun recover_loop :: "'key secp \<Rightarrow> bytes \<Rightarrow> bytes \<Rightarrow> bytes \<Rightarrow> byte list \<Rightarrow> (sig_error + byte) go" where
  "recover_loop C msg rsSig pk [] = Returns (Inl NoRecovery)"
| "recover_loop C msg rsSig pk (v # vs) =
     (case recovers C msg rsSig pk v of
        Panics \<Rightarrow> Panics
      | Returns True \<Rightarrow> Returns (Inr v)
      | Returns False \<Rightarrow> recover_loop C msg rsSig pk vs)"

definition recoverV :: "'key secp \<Rightarrow> bytes \<Rightarrow> bytes \<Rightarrow> bytes \<Rightarrow> (sig_error + byte) go" where
  "recoverV C msg rsSig compressedPubKey = recover_loop C msg rsSig compressedPubKey [0, 1]"

text \<open>
  The two \<^verbatim>\<open>copy\<close> calls into the zeroed signature: R ends at byte 32, S at byte 64.  The second
  window starts before byte 32 when S is longer than 32 bytes.
\<close>

definition pack_rs :: "bytes \<Rightarrow> bytes \<Rightarrow> bytes go" where
  "pack_rs rBytes sBytes =
     (if length rBytes > 32 \<or> length sBytes > 64 then Panics
      else Returns (take (64 - length sBytes) (left_pad 32 rBytes @ replicate 32 0) @ sBytes))"

definition normalize_s :: "'key secp \<Rightarrow> int \<Rightarrow> int" where
  "normalize_s C s = (if s > int (secp256k1HalfN C) then int (curveN C) - s else s)"

definition rsToEthSig :: "'key secp \<Rightarrow> int \<Rightarrow> int \<Rightarrow> bytes \<Rightarrow> bytes \<Rightarrow> (sig_error + bytes) go" where
  "rsToEthSig C r s msg compressedPubKey =
     (case pack_rs (big_bytes r) (big_bytes (normalize_s C s)) of
        Panics \<Rightarrow> Panics
      | Returns rs \<Rightarrow>
          (case recoverV C msg rs compressedPubKey of
             Panics \<Rightarrow> Panics
           | Returns (Inl e) \<Rightarrow> Returns (Inl e)
           | Returns (Inr v) \<Rightarrow> Returns (Inr (rs @ [v + 27]))))"

definition derToEthSig :: "'key secp \<Rightarrow> bytes \<Rightarrow> bytes \<Rightarrow> bytes \<Rightarrow> (sig_error + bytes) go" where
  "derToEthSig C der msg compressedPubKey =
     (case parseDERSignature der of
        Inl e \<Rightarrow> Returns (Inl e)
      | Inr (r, s) \<Rightarrow> rsToEthSig C r s msg compressedPubKey)"

section \<open>What a translated signature is\<close>

text \<open>
  \<open>verifies C msg pk rs v\<close>: the 64 bytes \<open>rs\<close> with recovery id \<open>v\<close> recover, for \<open>msg\<close>, an
  uncompressed key whose compressed form is \<open>pk\<close>.
\<close>

definition verifies :: "'key secp \<Rightarrow> bytes \<Rightarrow> bytes \<Rightarrow> bytes \<Rightarrow> byte \<Rightarrow> bool" where
  "verifies C msg pk rs v \<longleftrightarrow>
     (\<exists>key. Ecrecover C msg (rs @ [v]) = Inr key \<and> length key = 65 \<and>
        pk = (if odd (be_nat (take 32 (drop 33 key))) then 3 else 2) # take 32 (drop 1 key))"

lemma digit256_inject:
  assumes "a * 256 + x = b * 256 + y" "x < 256" "y < (256 :: nat)"
  shows "a = b \<and> x = y"
proof -
  have "(a * 256 + x) div 256 = (b * 256 + y) div 256" "(a * 256 + x) mod 256 = (b * 256 + y) mod 256"
    using assms(1) by (simp_all only:)
  then show ?thesis using assms(2,3) by simp
qed

lemma be_nat_inject: "be_nat a = be_nat b \<Longrightarrow> length a = length b \<Longrightarrow> a = b"
proof (induction a arbitrary: b rule: rev_induct)
  case (snoc x xs)
  from snoc.prems(2) obtain y ys where b: "b = ys @ [y]" by (cases b rule: rev_cases) auto
  have lt: "unat x < 256" "unat y < 256" using unsigned_less [of x] unsigned_less [of y] by simp_all
  have "be_nat xs * 256 + unat x = be_nat ys * 256 + unat y" using snoc.prems(1) b by simp
  from digit256_inject [OF this lt] have eq: "be_nat xs = be_nat ys" "unat x = unat y" by simp_all
  have "xs = ys" using snoc.IH [OF eq(1)] snoc.prems(2) b by simp
  moreover have "x = y" using eq(2) by (simp only: word_unat_eq_iff)
  ultimately show ?case using b by simp
qed simp

lemma be_nat_inverse: "be (length b) (be_nat b) = b"
  by (rule be_nat_inject) (use be_nat_less [of b] in \<open>simp_all add: be_nat_be\<close>)

lemma recovers_verifies:
  assumes "recovers C msg rs pk v = Returns True" "length rs = 64"
  shows "verifies C msg pk rs v"
proof -
  obtain key where key: "Ecrecover C msg (rs @ [v]) = Inr key" "length key = 65"
      "MarshalCompressed C (be_nat (take 32 (drop 1 key))) (be_nat (take 32 (drop 33 key))) = Returns pk"
    using assms by (auto simp: recovers_def Let_def split: sum.splits if_splits go.splits)
  then have "pk = (if odd (be_nat (take 32 (drop 33 key))) then 3 else 2) # be 32 (be_nat (take 32 (drop 1 key)))"
    by (auto simp: MarshalCompressed_def split: if_splits)
  moreover have "be 32 (be_nat (take 32 (drop 1 key))) = take 32 (drop 1 key)"
    using be_nat_inverse [of "take 32 (drop 1 key)"] key(2) by simp
  ultimately show ?thesis using key(1,2) unfolding verifies_def by metis
qed

lemma recoverV_verifies:
  "recoverV C msg rs pk = Returns (Inr v) \<Longrightarrow> length rs = 64 \<Longrightarrow> v \<in> {0, 1} \<and> verifies C msg pk rs v"
  by (auto simp: recoverV_def intro: recovers_verifies split: go.splits bool.splits)

lemma length_pack_rs: "pack_rs rb sb = Returns rs \<Longrightarrow> length rs = 64"
  by (auto simp: pack_rs_def left_pad_def split: if_splits)

lemma pack_rs_short:
  "length rb \<le> 32 \<Longrightarrow> length sb \<le> 32 \<Longrightarrow> pack_rs rb sb = Returns (left_pad 32 rb @ left_pad 32 sb)"
  by (simp add: pack_rs_def left_pad_def take_append)

lemma rsToEthSig_sound:
  assumes "rsToEthSig C r s msg pk = Returns (Inr sig)"
  obtains rs v where "sig = rs @ [v + 27]" "v \<in> {0, 1}" "length rs = 64" "verifies C msg pk rs v"
    "pack_rs (big_bytes r) (big_bytes (normalize_s C s)) = Returns rs"
proof -
  from assms obtain rs v where "pack_rs (big_bytes r) (big_bytes (normalize_s C s)) = Returns rs"
      "recoverV C msg rs pk = Returns (Inr v)" "sig = rs @ [v + 27]"
    by (auto simp: rsToEthSig_def split: go.splits sum.splits)
  with that recoverV_verifies [of C msg rs pk v] length_pack_rs show ?thesis by blast
qed

lemma big_bytes_int [simp]: "big_bytes (int n) = nat_bytes n"
  by (simp add: big_bytes_def)

lemma be_nat_left_pad [simp]: "be_nat (left_pad n b) = be_nat b"
proof -
  have "be_nat (replicate k 0 @ b) = be_nat b" for k by (induction k) simp_all
  then show ?thesis by (simp add: left_pad_def)
qed

lemma normalize_low:
  assumes "s < curveN C"
  shows "\<exists>t. normalize_s C (int s) = int t \<and> t \<le> curveN C div 2 \<and> (t = s \<or> t = curveN C - s)"
proof (cases "s \<le> curveN C div 2")
  case False
  then have "normalize_s C (int s) = int (curveN C - s)"
    using assms by (simp add: normalize_s_def secp256k1HalfN_def of_nat_diff)
  moreover have "curveN C - s \<le> curveN C div 2" using False by linarith
  ultimately show ?thesis by blast
qed (simp add: normalize_s_def secp256k1HalfN_def)

section \<open>Properties\<close>

text \<open>A concrete curve interface: a key is its own 33 bytes, and a signature recovers it.\<close>

definition demo_secp :: "nat secp" where
  "demo_secp =
     \<lparr>curveN = 115792089237316195423570985008687907852837564279074904382605163141518161494337,
      isOnCurve = (\<lambda>x y. x = 5 \<and> y = 6),
      Ecrecover = (\<lambda>msg sg. if last sg = 1 then Inr (4 # be 32 5 @ be 32 6) else Inl ''recovery failed''),
      ethSign = (\<lambda>msg k. Inr (be 32 k @ be 32 1 @ [0])),
      toECDSA = (\<lambda>b. Inr (be_nat b)),
      compressPubkey = (\<lambda>k. 2 # be 32 5)\<rparr>"

text \<open>Claim C8: a device signature is passed on only in Ethereum format and only if it verifies.
  A translated signature has 65 bytes ending in 27 or 28, and with the recovery id it names it
  recovers the expected public key from the message.  If the device's numbers are in the range of
  an ECDSA signature, the first half is R, and the second is S or its twin, whichever is in the
  lower half of the group order.\<close>

theorem eth_signature_sound:
  assumes "derToEthSig C der msg pk = Returns (Inr sg)" "curveN C \<le> 2 ^ 256"
  shows "\<exists>rs v. sg = rs @ [v + 27] \<and> v \<in> {0, 1} \<and> length rs = 64 \<and> verifies C msg pk rs v
    \<and> (\<forall>r s. parseDERSignature der = Inr (int r, int s) \<longrightarrow> r < curveN C \<longrightarrow> s < curveN C \<longrightarrow>
         be_nat (take 32 rs) = r \<and> be_nat (drop 32 rs) \<le> curveN C div 2
         \<and> be_nat (drop 32 rs) \<in> {s, curveN C - s})"
proof -
  obtain r' s' where der: "parseDERSignature der = Inr (r', s')" "rsToEthSig C r' s' msg pk = Returns (Inr sg)"
    using assms(1) by (auto simp: derToEthSig_def split: sum.splits)
  obtain rs v where sg: "sg = rs @ [v + 27]" "v \<in> {0, 1}" "length rs = 64" "verifies C msg pk rs v"
      and pack: "pack_rs (big_bytes r') (big_bytes (normalize_s C s')) = Returns rs"
    by (rule rsToEthSig_sound [OF der(2)])
  have "be_nat (take 32 rs) = r \<and> be_nat (drop 32 rs) \<le> curveN C div 2 \<and> be_nat (drop 32 rs) \<in> {s, curveN C - s}"
    if "r' = int r" "s' = int s" "r < curveN C" "s < curveN C" for r s
  proof -
    from normalize_low [OF that(4)] obtain t where
        t: "normalize_s C (int s) = int t" "t \<le> curveN C div 2" "t = s \<or> t = curveN C - s"
      by blast
    have "r < 256 ^ 32" "t < 256 ^ 32" using that(3,4) t(2,3) assms(2) by auto
    then have len: "length (nat_bytes r) \<le> 32" "length (nat_bytes t) \<le> 32"
      by (auto intro: length_nat_bytes)
    then have "rs = left_pad 32 (nat_bytes r) @ left_pad 32 (nat_bytes t)"
      using pack that(1,2) t(1) by (simp add: pack_rs_short)
    with t(2,3) length_left_pad [OF len(1)] show ?thesis by auto
  qed
  with sg der(1) show ?thesis by auto
qed

lemma demo_recovers:
  "recovers demo_secp msg rs (2 # be 32 5) 0 = Returns False" "recovers demo_secp msg rs (2 # be 32 5) 1 = Returns True"
  by (simp_all add: recovers_def demo_secp_def MarshalCompressed_def be_nat_be)

lemma demo_derToEthSig:
  "derToEthSig demo_secp (der_sig 7 9) msg (2 # be 32 5) =
     Returns (Inr (left_pad 32 (nat_bytes 7) @ left_pad 32 (nat_bytes 9) @ [28]))"
proof -
  have "parseDERSignature (der_sig 7 9) = Inr (7, 9)"
    using unmarshal_der_sig [of 7 9 "[]"] by (simp add: parseDERSignature_def)
  moreover have "normalize_s demo_secp 9 = 9"
    by (simp add: normalize_s_def secp256k1HalfN_def demo_secp_def)
  moreover have "pack_rs (big_bytes 7) (big_bytes 9) = Returns (left_pad 32 (nat_bytes 7) @ left_pad 32 (nat_bytes 9))"
    using length_nat_bytes [of 7 32] length_nat_bytes [of 9 32] by (simp add: big_bytes_def pack_rs_short)
  ultimately show ?thesis
    by (simp add: derToEthSig_def rsToEthSig_def recoverV_def demo_recovers)
qed

theorem eth_signature_sound_witness:
  "\<exists>rs v. left_pad 32 (nat_bytes 7) @ left_pad 32 (nat_bytes 9) @ [28] = rs @ [v + 27] \<and>
     verifies demo_secp [1] (2 # be 32 5) rs v \<and> be_nat (take 32 rs) = 7"
proof -
  have "parseDERSignature (der_sig 7 9) = Inr (int 7, int 9)"
    using unmarshal_der_sig [of 7 9 "[]"] by (simp add: parseDERSignature_def)
  moreover have "curveN demo_secp \<le> 2 ^ 256" "7 < curveN demo_secp" "9 < curveN demo_secp"
    by (simp_all add: demo_secp_def)
  ultimately show ?thesis
    using eth_signature_sound [OF demo_derToEthSig [of "[1]"]] by blast
qed

text \<open>Claim C37: the parser reads back every signature a DER encoder writes, for all values below
  \<open>2 ^ 256\<close>, zero and values with the top bit set included, and ignores what follows it.\<close>

theorem der_signature_roundtrip:
  assumes "r < 2 ^ 256" "s < 2 ^ 256"
  shows "parseDERSignature (der_sig r s @ junk) = Inr (int r, int s)"
  using unmarshal_der_sig [OF assms] by (simp add: parseDERSignature_def)

theorem der_signature_roundtrip_witness: "parseDERSignature (der_sig 128 0 @ [9, 9]) = Inr (128, 0)"
  using der_signature_roundtrip [of 128 0 "[9, 9]"] by simp

text \<open>A number of the device that does not fit its 32-byte slot is not reported as an
  error: packing an R of \<open>2 ^ 256\<close> or more slices out of range and panics.\<close>

theorem oversized_r_panics:
  assumes "2 ^ 256 \<le> r"
  shows "rsToEthSig C (int r) s msg pk = Panics"
proof -
  have "256 ^ 32 \<le> r" using assms by simp
  then show ?thesis using length_nat_bytes_gt [of 32 r] by (simp add: rsToEthSig_def pack_rs_def)
qed

theorem oversized_r_panics_witness: "rsToEthSig demo_secp (int (2 ^ 256)) 1 [] [] = Panics"
  using oversized_r_panics [of "2 ^ 256"] by simp

end
