(* ===== verification/Signer_Backend.thy ===== *)
theory Signer_Backend
  imports Sig_Utils Go_Sha256 Go_Os
begin

text \<open>
  The signing backends: the registry and the interface (\<^verbatim>\<open>src/signer/signer.go\<close>), the keyring
  and its password (\<^verbatim>\<open>keyring.go\<close>), the file backend (\<^verbatim>\<open>file_signer.go\<close>) and the Fortanix DSM
  backend (\<^verbatim>\<open>fortanix_dsm.go\<close>).

  The Cosmos keyring (record \<open>keyring\<close>) and the DSM client (record \<open>dsm\<close>) are parameters.  The
  answer of the device to the \<open>n\<close>-th call is \<open>dsmSign n\<close>.  Each \<^verbatim>\<open>Sign\<close> and \<^verbatim>\<open>SignRaw\<close> holds
  the signer's mutex, so it is one step.  The locale \<open>raw_signer\<close> is what the server relies on; it
  is interpreted on both backends and on their sum.
\<close>

section \<open>Passwords\<close>

datatype key_error =
    NoTerminal
  | StatPassword os_error
  | PasswordMode file_mode
  | ReadPassword os_error
  | EmptyPassword
  | NilRecord
  | NotLocal string
  | UnpackKey string
  | WrongKeyType string
  | KeyLength nat
  | MissingSetting string
  | OpenKeyring string
  | KeyMissing string
  | ConvertKey string
  | GetSobject string
  | NotEC string
  | WrongCurve string
  | NoPublicKey
  | BadSpki asn_error
  | BadPoint nat
  | UnknownBackend string "string list"

record repeatingReader =
  line :: bytes
  off :: nat

datatype reader = Stdin | Repeating repeatingReader

text \<open>
  \<^verbatim>\<open>Mode().Perm()\<close>.  The file system model keeps no mode for directories; the usual \<^verbatim>\<open>0755\<close> stands
  for it, and a directory of any mode is refused as a password file here or by the read.
\<close>

definition perm_bits :: "node \<Rightarrow> file_mode" where
  "perm_bits n = (case n of DirNode \<Rightarrow> 0x1ED | FileNode m _ \<Rightarrow> m AND 0x1FF)"

text \<open>\<^verbatim>\<open>bytes.TrimRight(data, "\r\n")\<close>.\<close>

definition trim_newlines :: "bytes \<Rightarrow> bytes" where
  "trim_newlines b = rev (dropWhile (\<lambda>c. c = 0x0d \<or> c = 0x0a) (rev b))"

definition buildFilePasswordReader :: "string \<Rightarrow> 'a os_scheme \<Rightarrow> (key_error + reader) \<times> 'a os_scheme" where
  "buildFilePasswordReader path s =
     (case os_stat path s of
        (Inl e, s1) \<Rightarrow> (Inl (StatPassword e), s1)
      | (Inr info, s1) \<Rightarrow>
          if perm_bits info AND 0x3F \<noteq> 0 then (Inl (PasswordMode (perm_bits info)), s1)
          else
            (case os_read_file path s1 of
               (Inl e, s2) \<Rightarrow> (Inl (ReadPassword e), s2)
             | (Inr d, s2) \<Rightarrow>
                 let password = trim_newlines (bytes_of d) in
                 if length password = 0 then (Inl EmptyPassword, s2)
                 else (Inr (Repeating \<lparr>line = password @ [0x0a], off = 0\<rparr>), s2)))"

definition BuildPasswordReader :: "bool \<Rightarrow> string \<Rightarrow> 'a os_scheme \<Rightarrow> (key_error + reader) \<times> 'a os_scheme" where
  "BuildPasswordReader isTerminal passwordFile s =
     (if passwordFile \<noteq> '''' then buildFilePasswordReader passwordFile s
      else if \<not> isTerminal then (Inl NoTerminal, s)
      else (Inr Stdin, s))"

text \<open>\<^verbatim>\<open>Read\<close> into a buffer of \<open>k\<close> bytes.\<close>

definition repeating_read :: "nat \<Rightarrow> repeatingReader \<Rightarrow> bytes \<times> repeatingReader" where
  "repeating_read k r =
     (let r1 = (if off r \<ge> length (line r) then r\<lparr>off := 0\<rparr> else r);
          got = take k (drop (off r1) (line r1))
      in (got, r1\<lparr>off := off r1 + length got\<rparr>))"

section \<open>Keys of the keyring\<close>

datatype priv_key = SecpPrivKey bytes | OtherPrivKey string

record 'any keyring_record =
  Name :: string
  Local :: "'any option"

record ('kr, 'any) keyring =
  keyringNew :: "string \<Rightarrow> reader \<Rightarrow> string + 'kr"
  keyringKey :: "'kr \<Rightarrow> string \<Rightarrow> string + 'any keyring_record option"
  unpackAny :: "'any \<Rightarrow> string + priv_key"

definition secp256k1KeyLen :: nat where
  "secp256k1KeyLen = 32"

definition ExtractSecpPrivKeyBytes ::
    "('kr, 'any) keyring \<Rightarrow> 'any keyring_record option \<Rightarrow> key_error + bytes" where
  "ExtractSecpPrivKeyBytes K rec =
     (case rec of
        None \<Rightarrow> Inl NilRecord
      | Some r \<Rightarrow>
          (case Local r of
             None \<Rightarrow> Inl (NotLocal (Name r))
           | Some any \<Rightarrow>
               (case unpackAny K any of
                  Inl e \<Rightarrow> Inl (UnpackKey e)
                | Inr (OtherPrivKey t) \<Rightarrow> Inl (WrongKeyType t)
                | Inr (SecpPrivKey k) \<Rightarrow>
                    if length k \<noteq> secp256k1KeyLen then Inl (KeyLength (length k))
                    else Inr (copy_into secp256k1KeyLen k))))"

section \<open>The file backend\<close>

datatype sign_error =
    MsgLength nat
  | BackendFailed string
  | ConvertFailed sig_error

record 'key FileSigner =
  privateKey :: 'key
  fileCompressedPubKey :: bytes

definition NewFileSigner ::
    "'key secp \<Rightarrow> ('kr, 'any) keyring \<Rightarrow> bool \<Rightarrow> string \<Rightarrow> string \<Rightarrow> string \<Rightarrow> 'a os_scheme
      \<Rightarrow> (key_error + 'key FileSigner) \<times> 'a os_scheme" where
  "NewFileSigner C K isTerminal keyringDir keyName pwFile s =
     (if keyringDir = '''' then (Inl (MissingSetting ''keyring_dir''), s)
      else if keyName = '''' then (Inl (MissingSetting ''key_name''), s)
      else
        (case BuildPasswordReader isTerminal pwFile s of
           (Inl e, s1) \<Rightarrow> (Inl e, s1)
         | (Inr passReader, s1) \<Rightarrow>
             (case keyringNew K keyringDir passReader of
                Inl e \<Rightarrow> (Inl (OpenKeyring e), s1)
              | Inr kr \<Rightarrow>
                  (case keyringKey K kr keyName of
                     Inl e \<Rightarrow> (Inl (KeyMissing e), s1)
                   | Inr rec \<Rightarrow>
                       (case ExtractSecpPrivKeyBytes K rec of
                          Inl e \<Rightarrow> (Inl e, s1)
                        | Inr keyBytes \<Rightarrow>
                            (case toECDSA C keyBytes of
                               Inl e \<Rightarrow> (Inl (ConvertKey e), s1)
                             | Inr key \<Rightarrow>
                                 (Inr \<lparr>privateKey = key, fileCompressedPubKey = compressPubkey C key\<rparr>, s1)))))))"

definition FileSigner_Sign :: "'key secp \<Rightarrow> 'key FileSigner \<Rightarrow> bytes \<Rightarrow> (sign_error + bytes) go" where
  "FileSigner_Sign C fs msg =
     (if length msg \<noteq> 32 then Returns (Inl (MsgLength (length msg)))
      else
        (case ethSign C (sha256 msg) (privateKey fs) of
           Inl e \<Rightarrow> Returns (Inl (BackendFailed e))
         | Inr sg \<Rightarrow>
             if length sg \<le> 64 then Panics else Returns (Inr (sg[64 := sg ! 64 + 27]))))"

definition FileSigner_SignRaw :: "'key secp \<Rightarrow> 'key FileSigner \<Rightarrow> bytes \<Rightarrow> (sign_error + bytes) go" where
  "FileSigner_SignRaw C fs msg =
     (if length msg \<noteq> 32 then Returns (Inl (MsgLength (length msg)))
      else
        (case ethSign C msg (privateKey fs) of
           Inl e \<Rightarrow> Returns (Inl (BackendFailed e))
         | Inr sg \<Rightarrow> if length sg < 64 then Panics else Returns (Inr (take 64 sg))))"

definition FileSigner_GetPublicKey :: "'key FileSigner \<Rightarrow> bytes" where
  "FileSigner_GetPublicKey fs = copy_into (length (fileCompressedPubKey fs)) (fileCompressedPubKey fs)"

section \<open>The Fortanix DSM backend\<close>

datatype descriptor = Kid string | KeyNamed string

record sobject =
  ObjType :: string
  EllipticCurve :: "string option"
  PubKey :: "bytes option"

record dsm =
  ecObject :: string
  secpCurve :: string
  dsmGetSobject :: "descriptor \<Rightarrow> string + sobject"
  dsmSign :: "nat \<Rightarrow> descriptor \<Rightarrow> bytes \<Rightarrow> string + bytes"

record FortanixDSMConfig =
  APIEndpoint :: string
  APIKey :: string
  KeyID :: string
  KeyName :: string

record FortanixDSMSigner =
  keyDescriptor :: descriptor
  dsmCompressedPubKey :: bytes

definition parseSpkiToSecp256k1 :: "'key secp \<Rightarrow> bytes \<Rightarrow> (key_error + bytes) go" where
  "parseSpkiToSecp256k1 C der =
     (case unmarshal_spki der of
        Inl e \<Rightarrow> Returns (Inl (BadSpki e))
      | Inr (raw, _) \<Rightarrow>
          if length raw \<noteq> 65 \<or> hd raw \<noteq> 0x04 then Returns (Inl (BadPoint (length raw)))
          else
            (case MarshalCompressed C (be_nat (take 32 (drop 1 raw))) (be_nat (take 32 (drop 33 raw))) of
               Panics \<Rightarrow> Panics
             | Returns compressed \<Rightarrow> Returns (Inr compressed)))"

definition fetchDSMPublicKey :: "'key secp \<Rightarrow> dsm \<Rightarrow> descriptor \<Rightarrow> (key_error + bytes) go" where
  "fetchDSMPublicKey C D desc =
     (case dsmGetSobject D desc of
        Inl e \<Rightarrow> Returns (Inl (GetSobject e))
      | Inr so \<Rightarrow>
          if ObjType so \<noteq> ecObject D then Returns (Inl (NotEC (ObjType so)))
          else if EllipticCurve so \<noteq> Some (secpCurve D) then
            Returns (Inl (WrongCurve (case EllipticCurve so of None \<Rightarrow> ''unknown'' | Some c \<Rightarrow> c)))
          else
            (case PubKey so of
               None \<Rightarrow> Returns (Inl NoPublicKey)
             | Some raw \<Rightarrow> parseSpkiToSecp256k1 C raw))"

definition NewFortanixDSMSigner ::
    "'key secp \<Rightarrow> dsm \<Rightarrow> FortanixDSMConfig \<Rightarrow> (key_error + FortanixDSMSigner) go" where
  "NewFortanixDSMSigner C D cfg =
     (if APIEndpoint cfg = '''' then Returns (Inl (MissingSetting ''dsm_api_endpoint''))
      else if APIKey cfg = '''' then Returns (Inl (MissingSetting ''dsm_api_key''))
      else if KeyID cfg = '''' \<and> KeyName cfg = '''' then
        Returns (Inl (MissingSetting ''dsm_key_id or dsm_key_name''))
      else
        let desc = (if KeyID cfg \<noteq> '''' then Kid (KeyID cfg) else KeyNamed (KeyName cfg))
        in (case fetchDSMPublicKey C D desc of
              Panics \<Rightarrow> Panics
            | Returns (Inl e) \<Rightarrow> Returns (Inl e)
            | Returns (Inr pk) \<Rightarrow> Returns (Inr \<lparr>keyDescriptor = desc, dsmCompressedPubKey = pk\<rparr>)))"

definition convert_sig :: "(sig_error + bytes) go \<Rightarrow> (sign_error + bytes) go" where
  "convert_sig r =
     (case r of
        Panics \<Rightarrow> Panics
      | Returns (Inl e) \<Rightarrow> Returns (Inl (ConvertFailed e))
      | Returns (Inr sg) \<Rightarrow> Returns (Inr sg))"

definition DSM_Sign ::
    "'key secp \<Rightarrow> dsm \<Rightarrow> nat \<Rightarrow> FortanixDSMSigner \<Rightarrow> bytes \<Rightarrow> (sign_error + bytes) go" where
  "DSM_Sign C D n ds msg =
     (if length msg \<noteq> 32 then Returns (Inl (MsgLength (length msg)))
      else
        let hash = sha256 msg in
        (case dsmSign D n (keyDescriptor ds) hash of
           Inl e \<Rightarrow> Returns (Inl (BackendFailed e))
         | Inr der \<Rightarrow> convert_sig (derToEthSig C der hash (dsmCompressedPubKey ds))))"

definition DSM_SignRaw ::
    "'key secp \<Rightarrow> dsm \<Rightarrow> nat \<Rightarrow> FortanixDSMSigner \<Rightarrow> bytes \<Rightarrow> (sign_error + bytes) go" where
  "DSM_SignRaw C D n ds msg =
     (if length msg \<noteq> 32 then Returns (Inl (MsgLength (length msg)))
      else
        (case dsmSign D n (keyDescriptor ds) msg of
           Inl e \<Rightarrow> Returns (Inl (BackendFailed e))
         | Inr der \<Rightarrow>
             (case convert_sig (derToEthSig C der msg (dsmCompressedPubKey ds)) of
                Returns (Inr sg) \<Rightarrow> if length sg < 64 then Panics else Returns (Inr (take 64 sg))
              | r \<Rightarrow> r)))"

definition DSM_GetPublicKey :: "FortanixDSMSigner \<Rightarrow> bytes" where
  "DSM_GetPublicKey ds = copy_into (length (dsmCompressedPubKey ds)) (dsmCompressedPubKey ds)"

section \<open>The registry\<close>

datatype any_value = AnyString string | AnyOther

type_synonym raw_config = "string \<rightharpoonup> any_value"

text \<open>\<^verbatim>\<open>v, ok := raw[k].(string)\<close>: a missing key or another type gives the empty string.\<close>

definition raw_string :: "raw_config \<Rightarrow> string \<Rightarrow> string" where
  "raw_string raw k = (case raw k of Some (AnyString s) \<Rightarrow> s | _ \<Rightarrow> '''')"

datatype 'key Signer = FileBackend "'key FileSigner" | DSMBackend FortanixDSMSigner

text \<open>What the factories read of their surroundings.\<close>

record ('key, 'kr, 'any) backend_env =
  secp_of :: "'key secp"
  keyring_of :: "('kr, 'any) keyring"
  dsm_of :: dsm
  stdinIsTerminal :: bool

type_synonym ('key, 'kr, 'any, 'a) factory =
  "('key, 'kr, 'any) backend_env \<Rightarrow> raw_config \<Rightarrow> 'a os_scheme \<Rightarrow> (key_error + 'key Signer) go \<times> 'a os_scheme"

definition newFileSignerFromConfig :: "('key, 'kr, 'any, 'a) factory" where
  "newFileSignerFromConfig B raw s =
     (let keyringDir = raw_string raw ''keyring_dir'';
          keyName = raw_string raw ''key_name'';
          pwFile = raw_string raw ''password_file''
      in if keyringDir = '''' then (Returns (Inl (MissingSetting ''signer.keyring_dir'')), s)
         else if keyName = '''' then (Returns (Inl (MissingSetting ''signer.key_name'')), s)
         else
           (case NewFileSigner (secp_of B) (keyring_of B) (stdinIsTerminal B) keyringDir keyName pwFile s of
              (Inl e, s1) \<Rightarrow> (Returns (Inl e), s1)
            | (Inr fs, s1) \<Rightarrow> (Returns (Inr (FileBackend fs)), s1)))"

definition newFortanixDSMSignerFromConfig :: "('key, 'kr, 'any, 'a) factory" where
  "newFortanixDSMSignerFromConfig B raw s =
     (let apiEndpoint = raw_string raw ''dsm_api_endpoint'';
          apiKey = raw_string raw ''dsm_api_key'';
          keyID = raw_string raw ''dsm_key_id'';
          keyName = raw_string raw ''dsm_key_name''
      in if apiEndpoint = '''' then (Returns (Inl (MissingSetting ''signer.dsm_api_endpoint'')), s)
         else if apiKey = '''' then (Returns (Inl (MissingSetting ''signer.dsm_api_key'')), s)
         else if keyID = '''' \<and> keyName = '''' then
           (Returns (Inl (MissingSetting ''signer.dsm_key_id or signer.dsm_key_name'')), s)
         else
           (case NewFortanixDSMSigner (secp_of B) (dsm_of B)
                   \<lparr>APIEndpoint = apiEndpoint, APIKey = apiKey, KeyID = keyID, KeyName = keyName\<rparr> of
              Panics \<Rightarrow> (Panics, s)
            | Returns (Inl e) \<Rightarrow> (Returns (Inl e), s)
            | Returns (Inr ds) \<Rightarrow> (Returns (Inr (DSMBackend ds)), s)))"

text \<open>The registry in the order of registration; registering a name twice panics.\<close>

type_synonym ('key, 'kr, 'any, 'a) registry = "(string \<times> ('key, 'kr, 'any, 'a) factory) list"

definition RegisterBackend ::
    "string \<Rightarrow> ('key, 'kr, 'any, 'a) factory \<Rightarrow> ('key, 'kr, 'any, 'a) registry
      \<Rightarrow> ('key, 'kr, 'any, 'a) registry go" where
  "RegisterBackend nm factory reg =
     (if map_of reg nm \<noteq> None then Panics else Returns (reg @ [(nm, factory)]))"

definition getBackendFactory ::
    "('key, 'kr, 'any, 'a) registry \<Rightarrow> string \<Rightarrow> ('key, 'kr, 'any, 'a) factory option" where
  "getBackendFactory reg nm = map_of reg nm"

definition AvailableBackends :: "('key, 'kr, 'any, 'a) registry \<Rightarrow> string list" where
  "AvailableBackends reg = map fst reg"

text \<open>The two \<^verbatim>\<open>init\<close> functions of the package, in the order of their files.\<close>

definition init_registry :: "('key, 'kr, 'any, 'a) registry go" where
  "init_registry =
     (case RegisterBackend ''file'' newFileSignerFromConfig [] of
        Panics \<Rightarrow> Panics
      | Returns reg \<Rightarrow> RegisterBackend ''fortanixdsm'' newFortanixDSMSignerFromConfig reg)"

definition NewSigner ::
    "('key, 'kr, 'any, 'a) registry \<Rightarrow> string \<Rightarrow> ('key, 'kr, 'any, 'a) factory" where
  "NewSigner reg backend B raw s =
     (case getBackendFactory reg backend of
        None \<Rightarrow> (Returns (Inl (UnknownBackend backend (AvailableBackends reg))), s)
      | Some factory \<Rightarrow> factory B raw s)"

text \<open>The three methods of the interface, by dynamic dispatch.\<close>

definition Signer_Sign ::
    "('key, 'kr, 'any) backend_env \<Rightarrow> nat \<Rightarrow> 'key Signer \<Rightarrow> bytes \<Rightarrow> (sign_error + bytes) go" where
  "Signer_Sign B n bk msg =
     (case bk of
        FileBackend fs \<Rightarrow> FileSigner_Sign (secp_of B) fs msg
      | DSMBackend ds \<Rightarrow> DSM_Sign (secp_of B) (dsm_of B) n ds msg)"

definition Signer_SignRaw ::
    "('key, 'kr, 'any) backend_env \<Rightarrow> nat \<Rightarrow> 'key Signer \<Rightarrow> bytes \<Rightarrow> (sign_error + bytes) go" where
  "Signer_SignRaw B n bk msg =
     (case bk of
        FileBackend fs \<Rightarrow> FileSigner_SignRaw (secp_of B) fs msg
      | DSMBackend ds \<Rightarrow> DSM_SignRaw (secp_of B) (dsm_of B) n ds msg)"

definition Signer_GetPublicKey :: "'key Signer \<Rightarrow> bytes" where
  "Signer_GetPublicKey bk =
     (case bk of FileBackend fs \<Rightarrow> FileSigner_GetPublicKey fs | DSMBackend ds \<Rightarrow> DSM_GetPublicKey ds)"

section \<open>The contract of a backend\<close>

text \<open>
  What the server relies on in \<^verbatim>\<open>SignRaw\<close>: a message that is not 32 bytes long is refused
  without asking the device, and a signature is 64 bytes long.
\<close>

locale raw_signer =
  fixes signRaw :: "nat \<Rightarrow> bytes \<Rightarrow> (sign_error + bytes) go"
  assumes refuses_length: "length m \<noteq> 32 \<Longrightarrow> signRaw n m = Returns (Inl (MsgLength (length m)))"
    and compact: "signRaw n m = Returns (Inr sg) \<Longrightarrow> length sg = 64"
begin

lemma signed_is_digest: "signRaw n m = Returns (Inr sg) \<Longrightarrow> length m = 32"
  using refuses_length [of m n] by (cases "length m = 32") simp_all

end

lemma convert_sig_Inr: "convert_sig r = Returns (Inr sg) \<longleftrightarrow> r = Returns (Inr sg)"
  by (auto simp: convert_sig_def split: go.splits sum.splits)

lemma DSM_SignRaw_Inr:
  assumes "DSM_SignRaw C D n ds m = Returns (Inr sg)"
  obtains der full where "dsmSign D n (keyDescriptor ds) m = Inr der" "length m = 32" "length full \<ge> 64"
    "derToEthSig C der m (dsmCompressedPubKey ds) = Returns (Inr full)" "sg = take 64 full"
  using assms that
  by (auto simp: DSM_SignRaw_def convert_sig_Inr not_less split: if_splits sum.splits go.splits)

interpretation file_raw: raw_signer "\<lambda>n. FileSigner_SignRaw C fs"
  by unfold_locales (auto simp: FileSigner_SignRaw_def split: if_splits sum.splits)

interpretation dsm_raw: raw_signer "\<lambda>n. DSM_SignRaw C D n ds"
proof unfold_locales
  show "DSM_SignRaw C D n ds m = Returns (Inl (MsgLength (length m)))" if "length m \<noteq> 32" for m n
    using that by (simp add: DSM_SignRaw_def)
  show "length sg = 64" if "DSM_SignRaw C D n ds m = Returns (Inr sg)" for m n sg
    using that by (rule DSM_SignRaw_Inr) simp
qed

interpretation any_raw: raw_signer "\<lambda>n. Signer_SignRaw B n bk"
  by unfold_locales
     (auto simp: Signer_SignRaw_def file_raw.refuses_length dsm_raw.refuses_length
       dest: file_raw.compact dsm_raw.compact split: Signer.splits)

section \<open>Well-formed signers\<close>

text \<open>
  What go-ethereum documents: \<^verbatim>\<open>CompressPubkey\<close> returns 33 bytes and \<^verbatim>\<open>Sign\<close> 65, the last of them
  0 or 1.
\<close>

definition secp_spec :: "'key secp \<Rightarrow> bool" where
  "secp_spec C \<longleftrightarrow> (\<forall>k. length (compressPubkey C k) = 33) \<and>
     (\<forall>m k sg. ethSign C m k = Inr sg \<longrightarrow> length sg = 65 \<and> sg ! 64 \<in> {0, 1})"

definition signer_wf :: "'key Signer \<Rightarrow> bool" where
  "signer_wf bk \<longleftrightarrow> length (Signer_GetPublicKey bk) = 33"

lemma public_key_simps [simp]:
  "FileSigner_GetPublicKey fs = fileCompressedPubKey fs" "DSM_GetPublicKey ds = dsmCompressedPubKey ds"
  by (simp_all add: FileSigner_GetPublicKey_def DSM_GetPublicKey_def)

lemma NewFileSigner_key:
  "NewFileSigner C K t d k p s = (Inr fs, s') \<Longrightarrow> fileCompressedPubKey fs = compressPubkey C (privateKey fs)"
  by (auto simp: NewFileSigner_def split: if_splits sum.splits prod.splits)

lemma parseSpki_key: "parseSpkiToSecp256k1 C der = Returns (Inr pk) \<Longrightarrow> length pk = 33 \<and> hd pk \<in> {2, 3}"
  by (auto simp: parseSpkiToSecp256k1_def MarshalCompressed_def split: if_splits sum.splits go.splits)

lemma fetchDSM_key: "fetchDSMPublicKey C D desc = Returns (Inr pk) \<Longrightarrow> length pk = 33 \<and> hd pk \<in> {2, 3}"
  by (auto simp: fetchDSMPublicKey_def dest: parseSpki_key split: if_splits sum.splits option.splits)

lemma NewDSM_key:
  "NewFortanixDSMSigner C D cfg = Returns (Inr ds) \<Longrightarrow> length (dsmCompressedPubKey ds) = 33"
  by (auto simp: NewFortanixDSMSigner_def Let_def dest: fetchDSM_key split: if_splits sum.splits go.splits)

lemma init_registry_eq:
  "init_registry = Returns [(''file'', newFileSignerFromConfig), (''fortanixdsm'', newFortanixDSMSignerFromConfig)]"
  by (simp add: init_registry_def RegisterBackend_def)

lemma NewSigner_backend:
  assumes "init_registry = Returns reg" "NewSigner reg nm B raw s = (Returns (Inr bk), s')"
  shows "nm = ''file'' \<and> (\<exists>fs. bk = FileBackend fs \<and> fileCompressedPubKey fs = compressPubkey (secp_of B) (privateKey fs))
    \<or> nm = ''fortanixdsm'' \<and> (\<exists>ds. bk = DSMBackend ds \<and> length (dsmCompressedPubKey ds) = 33)"
proof (cases "nm = ''file''")
  have reg: "reg = [(''file'', newFileSignerFromConfig), (''fortanixdsm'', newFortanixDSMSignerFromConfig)]"
    using assms(1) [unfolded init_registry_eq] by simp
  case True
  with assms(2) have "newFileSignerFromConfig B raw s = (Returns (Inr bk), s')"
    by (simp add: reg NewSigner_def getBackendFactory_def)
  with True show ?thesis
    by (auto simp: newFileSignerFromConfig_def Let_def dest: NewFileSigner_key split: if_splits sum.splits prod.splits)
next
  have reg: "reg = [(''file'', newFileSignerFromConfig), (''fortanixdsm'', newFortanixDSMSignerFromConfig)]"
    using assms(1) [unfolded init_registry_eq] by simp
  case False
  with assms(2) have "nm = ''fortanixdsm''" and "newFortanixDSMSignerFromConfig B raw s = (Returns (Inr bk), s')"
    by (auto simp: reg NewSigner_def getBackendFactory_def split: if_splits)
  then show ?thesis
    by (auto simp: newFortanixDSMSignerFromConfig_def Let_def dest: NewDSM_key split: if_splits sum.splits go.splits)
qed

lemma Signer_Sign_format:
  assumes "secp_spec (secp_of B)" "Signer_Sign B n bk m = Returns (Inr sg)"
  shows "length sg = 65 \<and> last sg \<in> {27, 28}"
proof (cases bk)
  case (FileBackend fs)
  then obtain raw where "ethSign (secp_of B) (sha256 m) (privateKey fs) = Inr raw" "sg = raw[64 := raw ! 64 + 27]"
    using assms(2) by (auto simp: Signer_Sign_def FileSigner_Sign_def split: if_splits sum.splits)
  moreover from this assms(1) have "length raw = 65" "raw ! 64 \<in> {0, 1}" unfolding secp_spec_def by blast+
  moreover from this have "raw[64 := x] \<noteq> []" for x by (metis length_list_update list.size(3) zero_neq_numeral)
  ultimately show ?thesis by (auto simp: last_conv_nth)
next
  case (DSMBackend ds)
  then obtain der where "derToEthSig (secp_of B) der (sha256 m) (dsmCompressedPubKey ds) = Returns (Inr sg)"
    using assms(2) by (auto simp: Signer_Sign_def DSM_Sign_def Let_def convert_sig_Inr split: if_splits sum.splits)
  then obtain r s where "rsToEthSig (secp_of B) r s (sha256 m) (dsmCompressedPubKey ds) = Returns (Inr sg)"
    by (auto simp: derToEthSig_def split: sum.splits)
  then show ?thesis by (rule rsToEthSig_sound) auto
qed

section \<open>Properties\<close>

text \<open>A concrete keyring, whose only key is \<^verbatim>\<open>val\<close>, behind a password file of mode 0600.\<close>

definition demo_keyring :: "(unit, bytes) keyring" where
  "demo_keyring =
     \<lparr>keyringNew = (\<lambda>d r. if r = Repeating \<lparr>line = bytes_of ''pw'' @ [0x0a], off = 0\<rparr> then Inr () else Inl ''wrong password''),
      keyringKey = (\<lambda>_ k. if k = ''val'' then Inr (Some \<lparr>Name = k, Local = Some (be 32 77)\<rparr>) else Inl ''not found''),
      unpackAny = (\<lambda>b. Inr (SecpPrivKey b))\<rparr>"

definition demo_dsm :: dsm where
  "demo_dsm = \<lparr>ecObject = ''EC'', secpCurve = ''SecP256K1'', dsmGetSobject = (\<lambda>_. Inl ''unreachable''),
     dsmSign = (\<lambda>n d h. Inr (der_sig 7 9))\<rparr>"

definition demo_backend :: "(nat, unit, bytes) backend_env" where
  "demo_backend = \<lparr>secp_of = demo_secp, keyring_of = demo_keyring, dsm_of = demo_dsm, stdinIsTerminal = False\<rparr>"

definition demo_key_os :: os where
  "demo_key_os =
     \<lparr>files = [''pw.txt'' \<mapsto> FileNode perm_0600 (''pw'' @ [CHR 0x0d, CHR 0x0a])], faults = (\<lambda>_. False),
      short = (\<lambda>_. 0), rnd = (\<lambda>_. 0), tick = 0\<rparr>"

definition demo_raw :: raw_config where
  "demo_raw = [''keyring_dir'' \<mapsto> AnyString ''keys'', ''key_name'' \<mapsto> AnyString ''val'', ''password_file'' \<mapsto> AnyString ''pw.txt'']"

text \<open>Claim C31: every signer the registry constructs is well formed.  Whatever the configuration,
  its public key has 33 bytes; \<^verbatim>\<open>SignRaw\<close> succeeds only on 32-byte messages and with 64 bytes, and
  \<^verbatim>\<open>Sign\<close> with 65 bytes ending in 27 or 28.\<close>

theorem signer_well_formed:
  assumes "secp_spec (secp_of B)" "init_registry = Returns reg" "NewSigner reg nm B raw s = (Returns (Inr bk), s')"
  shows "signer_wf bk
    \<and> (\<forall>n m sg. Signer_SignRaw B n bk m = Returns (Inr sg) \<longrightarrow> length m = 32 \<and> length sg = 64)
    \<and> (\<forall>n m sg. Signer_Sign B n bk m = Returns (Inr sg) \<longrightarrow> length sg = 65 \<and> last sg \<in> {27, 28})"
proof (intro conjI allI impI)
  show "signer_wf bk"
    using NewSigner_backend [OF assms(2,3)] assms(1)
    by (auto simp: signer_wf_def Signer_GetPublicKey_def secp_spec_def)
next
  fix n m sg assume "Signer_SignRaw B n bk m = Returns (Inr sg)"
  then show "length m = 32" "length sg = 64" by (rule any_raw.signed_is_digest, rule any_raw.compact)
next
  fix n m sg assume "Signer_Sign B n bk m = Returns (Inr sg)"
  from Signer_Sign_format [OF assms(1) this] show "length sg = 65" "last sg \<in> {27, 28}" by simp_all
qed

lemma demo_password:
  "\<exists>s'. BuildPasswordReader False ''pw.txt'' demo_key_os =
     (Inr (Repeating \<lparr>line = bytes_of ''pw'' @ [0x0a], off = 0\<rparr>), s')"
  by (simp add: BuildPasswordReader_def buildFilePasswordReader_def os_stat_def os_read_file_def demo_key_os_def
      fails_def step_def perm_bits_def trim_newlines_def bytes_of_def byte_of_def Let_def)

lemma demo_new_signer:
  "\<exists>s'. NewSigner [(''file'', newFileSignerFromConfig), (''fortanixdsm'', newFortanixDSMSignerFromConfig)]
      ''file'' demo_backend demo_raw demo_key_os =
     (Returns (Inr (FileBackend \<lparr>privateKey = 77, fileCompressedPubKey = 2 # be 32 5\<rparr>)), s')"
proof -
  obtain s' where "BuildPasswordReader False ''pw.txt'' demo_key_os =
      (Inr (Repeating \<lparr>line = bytes_of ''pw'' @ [0x0a], off = 0\<rparr>), s')"
    using demo_password by blast
  then show ?thesis
    by (simp add: NewSigner_def getBackendFactory_def newFileSignerFromConfig_def NewFileSigner_def raw_string_def
        demo_raw_def demo_backend_def demo_keyring_def ExtractSecpPrivKeyBytes_def secp256k1KeyLen_def demo_secp_def be_nat_be)
qed

theorem signer_well_formed_witness:
  "length (Signer_GetPublicKey (FileBackend \<lparr>privateKey = 77 :: nat, fileCompressedPubKey = 2 # be 32 5\<rparr>)) = 33"
proof -
  obtain s' where "NewSigner [(''file'', newFileSignerFromConfig), (''fortanixdsm'', newFortanixDSMSignerFromConfig)]
      ''file'' demo_backend demo_raw demo_key_os =
     (Returns (Inr (FileBackend \<lparr>privateKey = 77, fileCompressedPubKey = 2 # be 32 5\<rparr>)), s')"
    using demo_new_signer by blast
  moreover have "secp_spec (secp_of demo_backend)"
    by (auto simp: secp_spec_def demo_backend_def demo_secp_def nth_append)
  ultimately show ?thesis
    using signer_well_formed [OF _ init_registry_eq] by (metis signer_wf_def)
qed

lemma DSM_SignRaw_verifies:
  assumes "DSM_SignRaw C D n ds msg = Returns (Inr sg)"
  shows "\<exists>v. v \<in> {0, 1} \<and> verifies C msg (dsmCompressedPubKey ds) sg v"
proof -
  obtain der full where full: "derToEthSig C der msg (dsmCompressedPubKey ds) = Returns (Inr full)" "sg = take 64 full"
    by (rule DSM_SignRaw_Inr [OF assms])
  then obtain r s where "rsToEthSig C r s msg (dsmCompressedPubKey ds) = Returns (Inr full)"
    by (auto simp: derToEthSig_def split: sum.splits)
  then obtain rs v where "full = rs @ [v + 27]" "v \<in> {0, 1}" "length rs = 64" "verifies C msg (dsmCompressedPubKey ds) rs v"
    by (rule rsToEthSig_sound)
  with full(2) show ?thesis by auto
qed

text \<open>With the DSM backend the server never returns a signature that does not verify.
  Whatever bytes the device answers, a signature \<^verbatim>\<open>SignRaw\<close> returns recovers, with one of the two
  recovery ids, exactly the public key that was fetched at startup.\<close>

theorem dsm_signature_verified:
  assumes "DSM_SignRaw C D n ds msg = Returns (Inr sg)"
  shows "length sg = 64 \<and> (\<exists>v. v \<in> {0, 1} \<and> verifies C msg (dsmCompressedPubKey ds) sg v)"
  using dsm_raw.compact [OF assms] DSM_SignRaw_verifies [OF assms] by blast

definition demo_dsm_signer :: FortanixDSMSigner where
  "demo_dsm_signer = \<lparr>keyDescriptor = Kid ''k'', dsmCompressedPubKey = 2 # be 32 5\<rparr>"

lemma demo_dsm_sign:
  "DSM_SignRaw demo_secp demo_dsm 0 demo_dsm_signer (replicate 32 1) =
     Returns (Inr (left_pad 32 (nat_bytes 7) @ left_pad 32 (nat_bytes 9)))"
  using length_nat_bytes [of 7 32] length_nat_bytes [of 9 32]
  by (simp add: DSM_SignRaw_def demo_dsm_def demo_dsm_signer_def demo_derToEthSig convert_sig_def length_left_pad)

theorem dsm_signature_verified_witness:
  "\<exists>v. verifies demo_secp (replicate 32 1) (2 # be 32 5) (left_pad 32 (nat_bytes 7) @ left_pad 32 (nat_bytes 9)) v"
  using dsm_signature_verified [OF demo_dsm_sign] by (auto simp: demo_dsm_signer_def)

text \<open>The bytes a sequence of reads with buffers of the given sizes delivers.\<close>

fun read_all :: "nat list \<Rightarrow> repeatingReader \<Rightarrow> bytes" where
  "read_all [] r = []"
| "read_all (k # ks) r = (case repeating_read k r of (b, r') \<Rightarrow> b @ read_all ks r')"

text \<open>\<open>cycled n l\<close>: \<open>n\<close> copies of the line.\<close>

definition cycled :: "nat \<Rightarrow> bytes \<Rightarrow> bytes" where
  "cycled n l = concat (replicate n l)"

lemma repeating_read_eq:
  "repeating_read k \<lparr>line = l, off = i\<rparr> =
     (let j = (if i \<ge> length l then 0 else i) in
      (take k (drop j l), \<lparr>line = l, off = j + length (take k (drop j l))\<rparr>))"
  by (simp add: repeating_read_def Let_def)

lemma read_all_prefix:
  assumes "i \<le> length l"
  shows "\<exists>n rest. cycled n l = take i l @ read_all ks \<lparr>line = l, off = i\<rparr> @ rest"
  using assms
proof (induction ks arbitrary: i)
  case Nil
  then show ?case
    by (intro exI [of _ 1] exI [of _ "drop i l"]) (simp add: cycled_def)
next
  case (Cons k ks)
  define j where "j = (if i \<ge> length l then 0 else i)"
  define got where "got = take k (drop j l)"
  have read: "read_all (k # ks) \<lparr>line = l, off = i\<rparr> = got @ read_all ks \<lparr>line = l, off = j + length got\<rparr>"
    by (simp add: repeating_read_eq Let_def got_def flip: j_def)
  have "j + length got \<le> length l" by (auto simp: got_def j_def min_def)
  from Cons.IH [OF this] obtain n rest where
    n: "cycled n l = take (j + length got) l @ read_all ks \<lparr>line = l, off = j + length got\<rparr> @ rest" by blast
  have tk: "take (j + length got) l = take j l @ got"
    by (simp add: got_def take_add min_def)
  show ?case
  proof (cases "i \<ge> length l")
    case True
    then have "cycled (Suc n) l = take i l @ read_all (k # ks) \<lparr>line = l, off = i\<rparr> @ rest"
      using n tk read by (simp add: cycled_def j_def)
    then show ?thesis by blast
  next
    case False
    then have "cycled n l = take i l @ read_all (k # ks) \<lparr>line = l, off = i\<rparr> @ rest"
      using n tk read by (simp add: j_def)
    then show ?thesis by blast
  qed
qed

text \<open>
  However the keyring reads the password, in whatever pieces, it sees the password line repeated
  from its beginning.
\<close>

lemma password_line_repeats:
  "\<exists>n rest. cycled n l = read_all ks \<lparr>line = l, off = 0\<rparr> @ rest"
  using read_all_prefix [of 0 l ks] by simp

text \<open>A password file that others may read is refused, and so is an empty one.\<close>

lemma password_file_private:
  assumes "BuildPasswordReader t p s = (Inr (Repeating r), s')"
  obtains m d where "files s p = Some (FileNode m d)" "m AND 0x3F = 0"
    "line r = trim_newlines (bytes_of d) @ [0x0a]" "trim_newlines (bytes_of d) \<noteq> []" "off r = 0"
proof -
  obtain n d where "files s p = Some n" "perm_bits n AND 0x3F = 0" "os_read_file p (step s) = (Inr d, s')"
      and r: "r = \<lparr>line = trim_newlines (bytes_of d) @ [0x0a], off = 0\<rparr>" "trim_newlines (bytes_of d) \<noteq> []"
    using assms
    by (auto simp: BuildPasswordReader_def buildFilePasswordReader_def os_stat_def Let_def
        split: if_splits sum.splits prod.splits option.splits)
  moreover from this obtain m where n: "n = FileNode m d"
    by (auto simp: os_read_file_def split: if_splits option.splits node.splits)
  moreover have "m AND 0x3F = (m AND 0x1FF) AND 0x3F" by (simp add: and.assoc)
  ultimately show ?thesis using that [of m d] by (simp add: perm_bits_def)
qed

end
