(* ===== verification/Key_Files.thy ===== *)
theory Key_Files
  imports Replay_Guard Signer_Backend Go_Base64
begin

text \<open>
  Files that hold keys: the exclusive atomic write (\<^verbatim>\<open>src/signer/atomicwrite.go\<close>), the key export
  (\<^verbatim>\<open>src/cmd/bridge-signer/cmd_export.go\<close>) and the connection key of the consensus client
  (\<^verbatim>\<open>src/consensus/connkey.go\<close>).

  The locale \<open>exclusive_store\<close> extends the contract of an atomic store by never replacing what is
  there; it is interpreted on \<open>WriteNewFileAtomic\<close>.  CometBFT's JSON decoder is a parameter.
\<close>

section \<open>WriteNewFileAtomic\<close>

datatype new_file_error =
    PermBits file_mode
  | PermOpen file_mode
  | NewCreateTemp os_error
  | NewWrite os_error
  | NewChmod os_error
  | NewFsync os_error
  | NewClose os_error
  | RefuseOverwrite
  | LinkErr os_error
  | DirOpen os_error
  | DirFsync os_error
  | DirClose os_error

definition validatePerm :: "file_mode \<Rightarrow> new_file_error option" where
  "validatePerm perm =
     (if perm AND NOT 0x1FF \<noteq> 0 then Some (PermBits perm)
      else if perm AND 0x3F \<noteq> 0 then Some (PermOpen perm)
      else None)"

text \<open>A close that was deferred and runs after an error only advances the clock of system calls.\<close>

definition syncDir :: "string \<Rightarrow> 'a os_scheme \<Rightarrow> (new_file_error + unit) \<times> 'a os_scheme" where
  "syncDir dir s =
     (case os_open_dir dir s of
        (Inl e, s1) \<Rightarrow> (Inl (DirOpen e), s1)
      | (Inr _, s1) \<Rightarrow>
          (case f_sync s1 of
             (Inl e, s2) \<Rightarrow> (Inl (DirFsync e), step s2)
           | (Inr _, s2) \<Rightarrow>
               (case f_close s2 of
                  (Inl e, s3) \<Rightarrow> (Inl (DirClose e), s3)
                | (Inr _, s3) \<Rightarrow> (Inr (), s3))))"

definition fill_new ::
    "string \<Rightarrow> string \<Rightarrow> file_mode \<Rightarrow> 'a os_scheme \<Rightarrow> (new_file_error + unit) \<times> 'a os_scheme" where
  "fill_new t d perm s =
     (case f_write t d s of
        (Inl e, s1) \<Rightarrow> (Inl (NewWrite e), step s1)
      | (Inr _, s1) \<Rightarrow>
          (case f_chmod t perm s1 of
             (Inl e, s2) \<Rightarrow> (Inl (NewChmod e), step s2)
           | (Inr _, s2) \<Rightarrow>
               (case f_sync s2 of
                  (Inl e, s3) \<Rightarrow> (Inl (NewFsync e), step s3)
                | (Inr _, s3) \<Rightarrow>
                    (case f_close s3 of
                       (Inl e, s4) \<Rightarrow> (Inl (NewClose e), s4)
                     | (Inr _, s4) \<Rightarrow> (Inr (), s4)))))"

definition link_new ::
    "string \<Rightarrow> string \<Rightarrow> string \<Rightarrow> string \<Rightarrow> file_mode \<Rightarrow> 'a os_scheme
      \<Rightarrow> (new_file_error + unit) \<times> 'a os_scheme" where
  "link_new t dir path d perm s =
     (case fill_new t d perm s of
        (Inl e, s1) \<Rightarrow> (Inl e, os_remove t s1)
      | (Inr _, s1) \<Rightarrow>
          (case os_link t path s1 of
             (Inl e, s2) \<Rightarrow> (Inl (if e = Exist then RefuseOverwrite else LinkErr e), os_remove t s2)
           | (Inr _, s2) \<Rightarrow> (case syncDir dir s2 of (r, s3) \<Rightarrow> (r, os_remove t s3))))"

definition WriteNewFileAtomic ::
    "string \<Rightarrow> string \<Rightarrow> file_mode \<Rightarrow> 'a os_scheme \<Rightarrow> (new_file_error + unit) \<times> 'a os_scheme" where
  "WriteNewFileAtomic path d perm s =
     (case validatePerm perm of
        Some e \<Rightarrow> (Inl e, s)
      | None \<Rightarrow>
          let dir = path_dir path in
          (case os_create_temp dir ''.atomic-'' s of
             (Inl e, s1) \<Rightarrow> (Inl (NewCreateTemp e), s1)
           | (Inr t, s1) \<Rightarrow> link_new t dir path d perm s1))"

section \<open>Exporting a key\<close>

datatype export_error =
    ExportKey string
  | ExportExtract key_error
  | ExportWrite new_file_error
  | ExportTerminal
  | ExportStdout

text \<open>What the export does: the result, what it printed on standard output, and the file system.\<close>

definition writeKeyToFile :: "string \<Rightarrow> string \<Rightarrow> 'a os_scheme \<Rightarrow> (export_error + unit) \<times> 'a os_scheme" where
  "writeKeyToFile path hexEncoded s =
     (case WriteNewFileAtomic path (hexEncoded @ [CHR 0x0A]) perm_0600 s of
        (Inl e, s1) \<Rightarrow> (Inl (ExportWrite e), s1)
      | (Inr _, s1) \<Rightarrow> (Inr (), s1))"

definition runExport ::
    "('kr, 'any) keyring \<Rightarrow> 'kr \<Rightarrow> string \<Rightarrow> string \<Rightarrow> bool \<Rightarrow> bool \<Rightarrow> 'a os_scheme
      \<Rightarrow> (export_error + unit) \<times> string \<times> 'a os_scheme" where
  "runExport K kr keyName outputPath stdoutIsTerminal stdoutFails s =
     (case keyringKey K kr keyName of
        Inl e \<Rightarrow> (Inl (ExportKey e), '''', s)
      | Inr rec \<Rightarrow>
          (case ExtractSecpPrivKeyBytes K rec of
             Inl e \<Rightarrow> (Inl (ExportExtract e), '''', s)
           | Inr keyBytes \<Rightarrow>
               let hexEncoded = hex_encode keyBytes in
               if outputPath \<noteq> '''' then
                 (case writeKeyToFile outputPath hexEncoded s of (r, s1) \<Rightarrow> (r, '''', s1))
               else if stdoutIsTerminal then (Inl ExportTerminal, '''', s)
               else if stdoutFails then (Inl ExportStdout, '''', s)
               else (Inr (), hexEncoded @ [CHR 0x0A], s)))"

section \<open>The contract of the exclusive write\<close>

lemma fill_new_files:
  assumes "fill_new t d perm s = (r, s')" and "files s t = Some (FileNode m [])"
  shows "\<forall>p. p \<noteq> t \<longrightarrow> files s' p = files s p"
    and "r = Inr () \<Longrightarrow> files s' t = Some (FileNode perm d)"
  using assms
  by (auto simp: fill_new_def f_write_def f_chmod_def f_sync_def f_close_def split: if_splits)

lemma syncDir_new_files: "files (snd (syncDir d s)) = files s"
  by (simp add: syncDir_def os_open_dir_def f_sync_def f_close_def split: option.splits)

lemma link_new_cases:
  assumes w: "link_new t dir path d perm s = (r, s')" and ne: "t \<noteq> path" and t: "files s t = Some (FileNode m [])"
  shows "files s' path = files s path \<and> r \<noteq> Inr () \<or> files s path = None \<and> files s' path = Some (FileNode perm d)"
proof -
  obtain r1 s1 where f: "fill_new t d perm s = (r1, s1)" by force
  have c1: "files s1 path = files s path" using fill_new_files(1) [OF f t] ne by simp
  obtain r2 s2 where l: "os_link t path s1 = (r2, s2)" by force
  obtain r3 s3 where y: "syncDir dir s2 = (r3, s3)" by force
  have s3: "files s3 = files s2" using syncDir_new_files [of dir s2] y by simp
  show ?thesis
  proof (cases "r1 = Inr () \<and> r2 = Inr ()")
    case True
    then have "files s1 t = Some (FileNode perm d)" using fill_new_files(2) [OF f t] by simp
    with True l have "files s1 path = None \<and> files s2 path = Some (FileNode perm d)"
      by (auto simp: os_link_def split: if_splits option.splits)
    moreover from w f l y True have "s' = os_remove t s3" by (simp add: link_new_def)
    ultimately show ?thesis using c1 s3 ne by (simp add: os_remove_other)
  next
    case False
    then have "r \<noteq> Inr () \<and> (s' = os_remove t s1 \<or> s' = os_remove t s2 \<and> files s2 = files s1)"
      using w f l by (cases r1; cases r2) (auto simp: link_new_def os_link_def split: if_splits option.splits)
    then show ?thesis using c1 ne by (auto simp: os_remove_other)
  qed
qed

lemma WriteNewFileAtomic_cases:
  assumes w: "WriteNewFileAtomic path d perm s = (r, s')" and v: "\<not> ends_tmp path"
  shows "files s' path = files s path \<and> r \<noteq> Inr ()
    \<or> files s path = None \<and> files s' path = Some (FileNode perm d) \<and> perm AND 0x3F = 0"
proof (cases "validatePerm perm")
  case None
  obtain r1 s1 where t: "os_create_temp (path_dir path) ''.atomic-'' s = (r1, s1)" by force
  have c1: "files s1 path = files s path" by (rule os_create_temp_frame [OF t v])
  show ?thesis
  proof (cases r1)
    case (Inl e)
    with w t c1 None show ?thesis by (auto simp: WriteNewFileAtomic_def Let_def)
  next
    case (Inr tmp)
    then have "ends_tmp tmp" and new: "files s1 tmp = Some (FileNode perm_0600 [])"
      using os_create_temp_new t by blast+
    then have ne: "tmp \<noteq> path" using v by auto
    have "link_new tmp (path_dir path) path d perm s1 = (r, s')"
      using w t Inr None by (simp add: WriteNewFileAtomic_def Let_def)
    from link_new_cases [OF this ne new] c1 None show ?thesis
      by (auto simp: validatePerm_def split: if_splits)
  qed
qed (use w in \<open>auto simp: WriteNewFileAtomic_def\<close>)

locale exclusive_store = atomic_store +
  assumes put_kept: "valid p \<Longrightarrow> put p d s = (r, s') \<Longrightarrow> get p s = Some c \<Longrightarrow> get p s' = Some c \<and> r \<noteq> Inr ()"
begin

text \<open>Of any number of writers at most one succeeds, and its content stays.\<close>

lemma first_write_wins:
  assumes "valid p" and "put p d s = (Inr (), s1)" and "put p d' s1 = (r, s2)"
  shows "get p s2 = Some d \<and> r \<noteq> Inr ()"
  using put_kept [OF assms(1,3)] put_ok [OF assms(1,2)] by blast

end

interpretation key_store: exclusive_store "\<lambda>p d. WriteNewFileAtomic p d perm_0600" content_at "\<lambda>p. \<not> ends_tmp p"
proof unfold_locales
  show "content_at p s' = Some d"
    if "\<not> ends_tmp p" "WriteNewFileAtomic p d perm_0600 s = (Inr (), s')" for p d and s s' :: "'a os_scheme"
    using WriteNewFileAtomic_cases [OF that(2,1)] by (auto simp: content_at_def)
  show "content_at p s' = content_at p s \<or> content_at p s' = Some d"
    if "\<not> ends_tmp p" "WriteNewFileAtomic p d perm_0600 s = (r, s')" for p d r and s s' :: "'a os_scheme"
    using WriteNewFileAtomic_cases [OF that(2,1)] by (auto simp: content_at_def)
  show "content_at p s' = Some c \<and> r \<noteq> Inr ()"
    if "\<not> ends_tmp p" "WriteNewFileAtomic p d perm_0600 s = (r, s')" "content_at p s = Some c"
    for p d r c and s s' :: "'a os_scheme"
    using WriteNewFileAtomic_cases [OF that(2,1)] that(3) by (auto simp: content_at_def)
qed

section \<open>The connection key\<close>

record cryptoKeyJSON =
  KeyType :: string
  KeyValue :: string

datatype conn_error =
    ConnRead os_error
  | ConnBase64
  | ConnType string
  | ConnJson
  | ConnRaw
  | ConnWrite os_error

text \<open>
  \<open>J\<close> is \<^verbatim>\<open>cmtjson.Unmarshal\<close> into a struct whose only field is the key; the two structs of the
  source have the same shape.
\<close>

type_synonym key_decoder = "string \<Rightarrow> cryptoKeyJSON option"

definition decodeKeyJSON :: "cryptoKeyJSON \<Rightarrow> conn_error + bytes" where
  "decodeKeyJSON k =
     (if KeyType k \<in> {''tendermint/PrivKeyEd25519'', ''comet/PrivKeyEd25519''} then
        (case b64_decode (KeyValue k) of None \<Rightarrow> Inl ConnBase64 | Some raw \<Rightarrow> Inr raw)
      else Inl (ConnType (KeyType k)))"

definition parse_conn_key :: "key_decoder \<Rightarrow> string \<Rightarrow> conn_error + bytes" where
  "parse_conn_key J data =
     (let b = trim_space data in
      if length b > 0 \<and> hd b = CHR ''{'' then
        (case J b of
           Some k \<Rightarrow> if KeyType k \<noteq> '''' then decodeKeyJSON k else Inl ConnJson
         | None \<Rightarrow> Inl ConnJson)
      else
        (case b64_decode b of
           Some raw \<Rightarrow> if length raw \<noteq> 64 then Inl ConnRaw else Inr raw
         | None \<Rightarrow> Inl ConnRaw))"

definition LoadEd25519PrivKey :: "key_decoder \<Rightarrow> string \<Rightarrow> 'a os_scheme \<Rightarrow> (conn_error + bytes) \<times> 'a os_scheme" where
  "LoadEd25519PrivKey J path s =
     (case os_read_file path s of
        (Inl e, s1) \<Rightarrow> (Inl (ConnRead e), s1)
      | (Inr d, s1) \<Rightarrow> (parse_conn_key J d, s1))"

text \<open>\<^verbatim>\<open>json.MarshalIndent(nk, "", "  ")\<close>.\<close>

definition marshal_node_key :: "cryptoKeyJSON \<Rightarrow> string" where
  "marshal_node_key k =
     ''{'' @ [CHR 0x0A] @ ''  '' @ json_quote ''priv_key'' @ '': {'' @ [CHR 0x0A] @
     ''    '' @ json_quote ''type'' @ '': '' @ json_quote (KeyType k) @ '','' @ [CHR 0x0A] @
     ''    '' @ json_quote ''value'' @ '': '' @ json_quote (KeyValue k) @ [CHR 0x0A] @
     ''  }'' @ [CHR 0x0A] @ ''}''"

definition fresh_node_key :: "bytes \<Rightarrow> cryptoKeyJSON" where
  "fresh_node_key pk = \<lparr>KeyType = ''tendermint/PrivKeyEd25519'', KeyValue = b64_encode pk\<rparr>"

text \<open>\<open>pk\<close> is the key \<^verbatim>\<open>ed25519.GenPrivKey\<close> would return.\<close>

definition GenOrLoadConnKey ::
    "key_decoder \<Rightarrow> bytes \<Rightarrow> string \<Rightarrow> 'a os_scheme \<Rightarrow> (conn_error + bytes) \<times> 'a os_scheme" where
  "GenOrLoadConnKey J pk path s =
     (case os_stat path s of
        (Inl NotExist, s1) \<Rightarrow>
          (case os_write_file path (marshal_node_key (fresh_node_key pk)) perm_0600 s1 of
             (Inl e, s2) \<Rightarrow> (Inl (ConnWrite e), s2)
           | (Inr _, s2) \<Rightarrow> (Inr pk, s2))
      | (_, s1) \<Rightarrow> LoadEd25519PrivKey J path s1)"

text \<open>What the decoder does with a key file this program writes.\<close>

definition decoder_spec :: "key_decoder \<Rightarrow> bool" where
  "decoder_spec J \<longleftrightarrow>
     (\<forall>k. list_all plain_char (KeyType k) \<longrightarrow> list_all plain_char (KeyValue k) \<longrightarrow>
        J (marshal_node_key k) = Some k)"

lemma trim_node_key: "trim_space (marshal_node_key k) = marshal_node_key k"
  by (rule trim_space_graphic) (simp_all add: marshal_node_key_def graphic_def json_quote_def)

lemma parse_fresh_key:
  assumes "decoder_spec J"
  shows "parse_conn_key J (marshal_node_key (fresh_node_key pk)) = Inr pk"
proof -
  have "list_all plain_char (KeyType (fresh_node_key pk))" by (simp add: fresh_node_key_def plain_char_def)
  moreover have "list_all plain_char (KeyValue (fresh_node_key pk))"
    using b64_encode_chars by (auto simp: fresh_node_key_def list_all_iff)
  ultimately have "J (marshal_node_key (fresh_node_key pk)) = Some (fresh_node_key pk)"
    using assms unfolding decoder_spec_def by blast
  moreover have "marshal_node_key k \<noteq> []" "hd (marshal_node_key k) = CHR ''{''" for k
    by (simp_all add: marshal_node_key_def)
  ultimately show ?thesis
    by (simp add: parse_conn_key_def trim_node_key decodeKeyJSON_def fresh_node_key_def b64_decode_encode)
qed

lemma os_write_file_content:
  "os_write_file p d m s = (Inr (), s') \<Longrightarrow> content_at p s' = Some d"
  by (auto simp: os_write_file_def f_write_def content_at_def split: if_splits option.splits node.splits)

section \<open>Properties\<close>

text \<open>Claim C32: exporting a key never replaces a file and never shows the key on a terminal.  A
  successful export to a file has created it, with mode 0600 and the hexadecimal form of a 32-byte
  key; whatever fails, a file that was there is untouched and nothing is printed.\<close>

theorem export_never_overwrites:
  assumes "runExport K kr keyName path tty sf s = (r, out, s')" "\<not> ends_tmp path"
  shows "(files s path \<noteq> None \<longrightarrow> files s' path = files s path)
    \<and> (tty \<or> path \<noteq> '''' \<longrightarrow> out = '''')
    \<and> (r = Inr () \<longrightarrow> path \<noteq> '''' \<longrightarrow>
         (\<exists>key. length key = 32 \<and> files s path = None \<and> files s' path = Some (FileNode perm_0600 (hex_encode key @ [CHR 0x0A]))))"
proof (cases "\<exists>rec key. keyringKey K kr keyName = Inr rec \<and> ExtractSecpPrivKeyBytes K rec = Inr key \<and> path \<noteq> ''''")
  case True
  then obtain rec key where k: "keyringKey K kr keyName = Inr rec" "ExtractSecpPrivKeyBytes K rec = Inr key" "path \<noteq> ''''"
    by blast
  then have len: "length key = 32"
    by (auto simp: ExtractSecpPrivKeyBytes_def secp256k1KeyLen_def split: option.splits sum.splits priv_key.splits if_splits)
  obtain r1 s1 where w: "WriteNewFileAtomic path (hex_encode key @ [CHR 0x0A]) perm_0600 s = (r1, s1)" by force
  with assms(1) k have "out = ''''" "s' = s1" "r = Inr () \<longleftrightarrow> r1 = Inr ()"
    by (cases r1; auto simp: runExport_def writeKeyToFile_def Let_def)+
  with WriteNewFileAtomic_cases [OF w assms(2)] len show ?thesis by auto
next
  case False
  with assms(1) show ?thesis
    by (auto simp: runExport_def Let_def split: sum.splits if_splits)
qed

definition demo_export_os :: os where
  "demo_export_os =
     \<lparr>files = [''/d'' \<mapsto> DirNode, ''/d/old'' \<mapsto> FileNode perm_0600 ''precious''], faults = (\<lambda>_. False),
      short = (\<lambda>_. 0), rnd = (\<lambda>_. 0), tick = 0\<rparr>"

theorem export_never_overwrites_witness:
  "files (snd (snd (runExport demo_keyring () ''val'' ''/d/old'' False False demo_export_os))) ''/d/old'' =
     Some (FileNode perm_0600 ''precious'')"
  using export_never_overwrites [of demo_keyring "()" "''val''" "''/d/old''" False False demo_export_os]
  by (cases "runExport demo_keyring () ''val'' ''/d/old'' False False demo_export_os")
     (simp add: demo_export_os_def ends_tmp_def)

text \<open>The connection identity survives a restart.  The key that is generated and written
  when there is none is the key every later start reads, unless reading fails.\<close>

theorem conn_key_survives_restart:
  assumes "decoder_spec J" "files s path = None" "\<not> fails s" "GenOrLoadConnKey J pk path s = (Inr k, s')"
    and "\<not> fails s'" "\<not> fails (step s')"
  shows "k = pk \<and> fst (GenOrLoadConnKey J pk' path s') = Inr pk \<and> fst (LoadEd25519PrivKey J path s') = Inr pk"
proof -
  from assms(2-4) have k: "k = pk"
      and w: "os_write_file path (marshal_node_key (fresh_node_key pk)) perm_0600 (step s) = (Inr (), s')"
    by (auto simp: GenOrLoadConnKey_def os_stat_def split: sum.splits prod.splits)
  then have c: "content_at path s' = Some (marshal_node_key (fresh_node_key pk))"
    by (intro os_write_file_content)
  then obtain m where "files s' path = Some (FileNode m (marshal_node_key (fresh_node_key pk)))"
    by (auto simp: content_at_def split: option.splits node.splits)
  with k assms(5,6) show ?thesis
    by (simp add: GenOrLoadConnKey_def LoadEd25519PrivKey_def os_stat_def os_read_file_def parse_fresh_key [OF assms(1)])
qed

text \<open>A decoder for indented key files: the texts between the quotes at the places of the two values.\<close>

definition demo_decoder :: key_decoder where
  "demo_decoder t =
     (let r = drop 31 t;
          ty = takeWhile (\<lambda>c. c \<noteq> CHR 0x22) r;
          v = takeWhile (\<lambda>c. c \<noteq> CHR 0x22) (drop (length ty + 17) r)
      in Some \<lparr>KeyType = ty, KeyValue = v\<rparr>)"

lemma plain_takeWhile: "list_all plain_char s \<Longrightarrow> takeWhile (\<lambda>c. c \<noteq> CHR 0x22) (s @ CHR 0x22 # r) = s"
  by (induction s) (auto simp: plain_char_def)

lemma demo_decoder_spec: "decoder_spec demo_decoder"
proof -
  have q: "json_quote ''priv_key'' = CHR 0x22 # ''priv_key'' @ [CHR 0x22]" "json_quote ''type'' = CHR 0x22 # ''type'' @ [CHR 0x22]"
      "json_quote ''value'' = CHR 0x22 # ''value'' @ [CHR 0x22]"
    by (rule json_quote_plain, simp add: plain_char_def)+
  show ?thesis
    unfolding decoder_spec_def
    by (simp add: marshal_node_key_def q json_quote_plain demo_decoder_def plain_takeWhile Let_def)
qed

definition demo_conn_os :: os where
  "demo_conn_os = \<lparr>files = [''/d'' \<mapsto> DirNode], faults = (\<lambda>_. False), short = (\<lambda>_. 0), rnd = (\<lambda>_. 0), tick = 0\<rparr>"

lemma demo_dir_k: "path_dir ''/d/k'' = ''/d''"
  by (simp add: path_dir_def path_clean_def)

theorem conn_key_survives_restart_witness:
  "\<exists>s'. GenOrLoadConnKey demo_decoder (replicate 64 3) ''/d/k'' demo_conn_os = (Inr (replicate 64 3), s') \<and>
        fst (LoadEd25519PrivKey demo_decoder ''/d/k'' s') = Inr (replicate 64 3)"
proof -
  obtain s' where s': "GenOrLoadConnKey demo_decoder (replicate 64 3) ''/d/k'' demo_conn_os = (Inr (replicate 64 3), s')"
      "\<not> fails s'" "\<not> fails (step s')"
    by (simp add: GenOrLoadConnKey_def os_stat_def os_write_file_def f_write_def demo_dir_k demo_conn_os_def fails_def
        step_def set_node_def)
  moreover have "files demo_conn_os ''/d/k'' = None" "\<not> fails demo_conn_os"
    by (simp_all add: demo_conn_os_def fails_def)
  ultimately show ?thesis
    using conn_key_survives_restart [OF demo_decoder_spec] by blast
qed

text \<open>Only the raw form of the connection key is checked for its length.  In the JSON form
  a value of any length is returned as a key, while the same bytes in raw form are refused.\<close>

theorem json_key_length_unchecked:
  "decodeKeyJSON \<lparr>KeyType = ''tendermint/PrivKeyEd25519'', KeyValue = b64_encode raw\<rparr> = Inr raw \<and>
   parse_conn_key J (b64_encode [1, 2, 3]) = Inl ConnRaw"
proof -
  have e: "b64_encode [1, 2, 3] = ''AQID''" by code_simp
  have t: "trim_space ''AQID'' = ''AQID''" by (rule trim_space_graphic) (simp_all add: graphic_def)
  have d: "b64_decode ''AQID'' = Some [1, 2, 3]" using b64_decode_encode [of "[1, 2, 3]"] unfolding e .
  show ?thesis unfolding e by (simp add: decodeKeyJSON_def b64_decode_encode parse_conn_key_def t d Let_def)
qed

end
