(* ===== verification/Go_Time.thy ===== *)
theory Go_Time
  imports Go_Strings
begin

text \<open>
  Go's \<^verbatim>\<open>time.ParseDuration\<close>.  A duration is an \<^verbatim>\<open>int64\<close> number of nanoseconds; \<open>None\<close> is any of its
  errors.  Numbers are \<^verbatim>\<open>uint64\<close>, with the overflow tests of the library and its one unchecked sum
  taken modulo \<open>2 ^ 64\<close>.  The fraction of a unit is computed in \<^verbatim>\<open>float64\<close>: \<open>f64 (p, q)\<close> is the
  double nearest to \<open>p / q\<close>, ties to even, as a fraction; the values here are far from the limits of
  the format.
\<close>

section \<open>Doubles\<close>

fun bit_length :: "nat \<Rightarrow> nat" where
  "bit_length n = (if n = 0 then 0 else Suc (bit_length (n div 2)))"

declare bit_length.simps [simp del]

definition f64 :: "nat \<times> nat \<Rightarrow> nat \<times> nat" where
  "f64 x =
     (case x of (p, q) \<Rightarrow>
        if p = 0 then (0, 1)
        else
          let s = 54 + bit_length q;
              n = (p * 2 ^ s) div q;
              sticky = ((p * 2 ^ s) mod q \<noteq> 0);
              k = bit_length n - 53;
              m = n div 2 ^ k;
              r = n mod 2 ^ k;
              half = 2 ^ (k - 1);
              up = (r > half \<or> r = half \<and> (sticky \<or> odd m))
          in ((if up then m + 1 else m) * 2 ^ k, 2 ^ s))"

text \<open>\<^verbatim>\<open>uint64(float64(f) * (float64(unit) / scale))\<close>; \<open>unit\<close> and \<open>scale\<close> are exact doubles.\<close>

definition frac_ns :: "nat \<Rightarrow> nat \<Rightarrow> nat \<Rightarrow> nat" where
  "frac_ns f unit scale =
     (let (a, b) = f64 (f, 1);
          (c, d) = f64 (unit, scale);
          (g, h) = f64 (a * c, b * d)
      in g div h)"

section \<open>ParseDuration\<close>

fun leading_int :: "nat \<Rightarrow> string \<Rightarrow> (nat \<times> string) option" where
  "leading_int x [] = Some (x, [])"
| "leading_int x (c # cs) =
     (case digit_val c of
        None \<Rightarrow> Some (x, c # cs)
      | Some d \<Rightarrow>
          if x > 2 ^ 63 div 10 then None
          else if x * 10 + d > 2 ^ 63 then None
          else leading_int (x * 10 + d) cs)"

fun leading_fraction :: "nat \<Rightarrow> nat \<Rightarrow> bool \<Rightarrow> string \<Rightarrow> nat \<times> nat \<times> string" where
  "leading_fraction x scale overflow [] = (x, scale, [])"
| "leading_fraction x scale overflow (c # cs) =
     (case digit_val c of
        None \<Rightarrow> (x, scale, c # cs)
      | Some d \<Rightarrow>
          if overflow \<or> x > (2 ^ 63 - 1) div 10 \<or> x * 10 + d > 2 ^ 63
          then leading_fraction x scale True cs
          else leading_fraction (x * 10 + d) (scale * 10) False cs)"

definition unit_map :: "(string \<times> nat) list" where
  "unit_map =
     [(''ns'', 1), (''us'', 1000), ([CHR 0xC2, CHR 0xB5, CHR ''s''], 1000), ([CHR 0xCE, CHR 0xBC, CHR ''s''], 1000),
      (''ms'', 1000000), (''s'', 1000000000), (''m'', 60000000000), (''h'', 3600000000000)]"

definition unit_char :: "char \<Rightarrow> bool" where
  "unit_char c \<longleftrightarrow> c \<noteq> CHR ''.'' \<and> digit_val c = None"

text \<open>One term of the duration: its value and the rest of the text.\<close>

definition duration_term :: "string \<Rightarrow> (nat \<times> string) option" where
  "duration_term s =
     (if s = [] \<or> unit_char (hd s) then None
      else
        (case leading_int 0 s of
           None \<Rightarrow> None
         | Some (v, s1) \<Rightarrow>
             let dot = (s1 \<noteq> [] \<and> hd s1 = CHR ''.'');
                 (f, scale, s2) = (if dot then leading_fraction 0 1 False (tl s1) else (0, 1, s1));
                 u = takeWhile unit_char s2
             in if length s1 = length s \<and> \<not> (dot \<and> length s2 \<noteq> length (tl s1)) then None
                else if u = [] then None
                else
                  (case map_of unit_map u of
                     None \<Rightarrow> None
                   | Some unit \<Rightarrow>
                       if v > 2 ^ 63 div unit then None
                       else if f > 0 then
                         (let w = v * unit + frac_ns f unit scale
                          in if w > 2 ^ 63 then None else Some (w, dropWhile unit_char s2))
                       else Some (v * unit, dropWhile unit_char s2))))"

text \<open>The test on the lengths never fails; it makes the recursion well-founded.\<close>

function duration_loop :: "nat \<Rightarrow> string \<Rightarrow> nat option" where
  "duration_loop d s =
     (if s = [] then Some d
      else
        (case duration_term s of
           None \<Rightarrow> None
         | Some (v, r) \<Rightarrow>
             if length r < length s then
               (let d' = (d + v) mod 2 ^ 64 in if d' > 2 ^ 63 then None else duration_loop d' r)
             else None))"
  by pat_completeness auto
termination
  by (relation "measure (length \<circ> snd)") auto

declare duration_loop.simps [simp del]

definition ParseDuration :: "string \<Rightarrow> int option" where
  "ParseDuration s =
     (let sign = (s \<noteq> [] \<and> (hd s = CHR ''-'' \<or> hd s = CHR ''+''));
          neg = (s \<noteq> [] \<and> hd s = CHR ''-'');
          t = (if sign then tl s else s)
      in if t = ''0'' then Some 0
         else if t = [] then None
         else
           (case duration_loop 0 t of
              None \<Rightarrow> None
            | Some d \<Rightarrow>
                if neg then Some (- int d)
                else if d > 2 ^ 63 - 1 then None
                else Some (int d)))"

section \<open>Lemmas\<close>

lemma leading_int_length: "leading_int x s = Some (v, r) \<Longrightarrow> length r \<le> length s"
  by (induction x s rule: leading_int.induct) (auto split: option.splits if_splits)

lemma leading_fraction_length: "leading_fraction x sc ov s = (f, sc', r) \<Longrightarrow> length r \<le> length s"
  by (induction x sc ov s rule: leading_fraction.induct) (auto split: option.splits if_splits)

text \<open>Every term takes at least the character of its unit.\<close>

lemma duration_term_shrinks:
  assumes "duration_term s = Some (v, r)"
  shows "length r < length s"
proof -
  have drop: "takeWhile unit_char t \<noteq> [] \<Longrightarrow> length (dropWhile unit_char t) < length t" for t
    by (metis length_append length_greater_0_conv less_add_same_cancel2 takeWhile_dropWhile_id)
  from assms obtain v1 s1 where s1: "leading_int 0 s = Some (v1, s1)"
    by (auto simp: duration_term_def split: if_splits option.splits)
  obtain f sc s2 where s2: "(if s1 \<noteq> [] \<and> hd s1 = CHR ''.'' then leading_fraction 0 1 False (tl s1) else (0, 1, s1)) = (f, sc, s2)"
    by (metis prod_cases3)
  have "length s2 \<le> length s"
    using s2 leading_int_length [OF s1] leading_fraction_length [of 0 1 False "tl s1" f sc s2]
    by (auto split: if_splits)
  moreover have "r = dropWhile unit_char s2 \<and> takeWhile unit_char s2 \<noteq> []"
    using assms s1 s2 by (auto simp: duration_term_def Let_def split: if_splits option.splits)
  ultimately show ?thesis using drop [of s2] by auto
qed

lemma duration_loop_step:
  "duration_loop d s =
     (if s = [] then Some d
      else case duration_term s of
             None \<Rightarrow> None
           | Some (v, r) \<Rightarrow> if (d + v) mod 2 ^ 64 > 2 ^ 63 then None else duration_loop ((d + v) mod 2 ^ 64) r)"
  by (subst duration_loop.simps) (auto simp: Let_def dest: duration_term_shrinks split: option.splits)

lemma duration_loop_bound: "duration_loop d s = Some e \<Longrightarrow> d \<le> 2 ^ 63 \<Longrightarrow> e \<le> 2 ^ 63"
proof (induction d s rule: duration_loop.induct)
  case (1 d s)
  then show ?case
    by (subst (asm) (2) duration_loop.simps) (auto simp: Let_def not_less split: if_splits option.splits)
qed

lemma leading_int_digits:
  assumes "list_all (\<lambda>c. digit_val c \<noteq> None) ds" "parse_digits x ds = Some n" "n \<le> 2 ^ 63" "unit_char u"
  shows "leading_int x (ds @ u # us) = Some (n, u # us)"
  using assms
proof (induction ds arbitrary: x)
  case Nil
  then show ?case by (simp add: unit_char_def)
next
  case (Cons c cs)
  then obtain d where d: "digit_val c = Some d" by auto
  with Cons.prems have p: "parse_digits (x * 10 + d) cs = Some n" by simp
  have mono: "parse_digits y t = Some k \<Longrightarrow> y \<le> k" for y t k
    by (induction y t rule: parse_digits.induct) (auto split: option.splits)
  have "x * 10 + d \<le> 2 ^ 63" using mono [OF p] Cons.prems(3) by simp
  moreover from this have "x \<le> 2 ^ 63 div 10" by simp
  ultimately show ?case using Cons d p by (simp add: not_less)
qed

lemma seconds_term:
  assumes "n * 1000000000 < 2 ^ 63"
  shows "duration_term (format_nat n @ ''s'') = Some (n * 1000000000, [])"
proof -
  have u: "unit_char (CHR ''s'')" by (simp add: unit_char_def digit_val_def)
  have digits: "list_all (\<lambda>c. digit_val c \<noteq> None) (format_nat n)"
    using format_nat_digits by (auto simp: list_all_iff)
  have "n \<le> 2 ^ 63" using assms by simp
  from leading_int_digits [OF digits parse_format_nat this u, of "[]"]
  have "leading_int 0 (format_nat n @ ''s'') = Some (n, ''s'')" by simp
  moreover have "\<not> unit_char (hd (format_nat n @ ''s''))"
    using digits format_nat_nonempty [of n] by (cases "format_nat n") (auto simp: unit_char_def)
  moreover have "length (format_nat n) \<noteq> 0" by simp
  moreover have "n \<le> 2 ^ 63 div 1000000000" using assms by simp
  ultimately show ?thesis
    using u by (simp add: duration_term_def Let_def unit_map_def)
qed

lemma ParseDuration_seconds:
  assumes "n * 1000000000 < 2 ^ 63"
  shows "ParseDuration (format_nat n @ ''s'') = Some (int n * 1000000000)"
proof -
  have hd: "hd (format_nat n @ ''s'') \<noteq> CHR ''-''" "hd (format_nat n @ ''s'') \<noteq> CHR ''+''"
    using format_nat_digits [of "hd (format_nat n)" n] format_nat_nonempty [of n]
    by (cases "format_nat n"; auto simp: digit_val_def)+
  have "duration_loop 0 (format_nat n @ ''s'') = Some (n * 1000000000)"
    using seconds_term [OF assms] assms
    by (subst duration_loop_step) (simp add: duration_loop_step [of _ "[]"])
  moreover have "format_nat n @ ''s'' \<noteq> ''0''" using format_nat_nonempty [of n] by (cases "format_nat n") auto
  ultimately show ?thesis using hd assms by (simp add: ParseDuration_def Let_def)
qed

lemma ParseDuration_range: "ParseDuration s = Some d \<Longrightarrow> - (2 ^ 63) \<le> d \<and> d < 2 ^ 63"
  by (auto simp: ParseDuration_def Let_def dest!: duration_loop_bound split: if_splits option.splits)

end
