(* ===== verification/Config_File.thy ===== *)
theory Config_File
  imports Go_Time Go_Os Rpc Signer_Backend
begin

text \<open>
  The configuration (\<^verbatim>\<open>src/config/config.go\<close>): its structs, defaults, validation and derived values.
  The YAML decoder is a parameter of \<open>Load\<close>.  A Go map is an association list of its entries; the
  loop over one visits them in the order of the list.  The struct \<^verbatim>\<open>Config\<close> is \<open>AppConfig\<close> here, as
  the server has a struct of that name too.
\<close>

section \<open>Structs\<close>

record ConsensusConfig =
  KeyFile :: string
  StateFile :: string
  ConnKeyFile :: string
  Targets :: string
  PrimaryFailoverTimeout :: string
  PreferTargetOrder :: bool

record SignerConfig =
  Backend :: string
  KeyringDir :: string
  SignerKeyName :: string
  PasswordFile :: string
  DSMAPIEndpoint :: string
  DSMAPIKey :: string
  DSMKeyID :: string
  DSMKeyName :: string

record ServerConfig =
  ListenAddr :: string
  HealthAddr :: string
  RequestTimeout :: int
  MaxRecvMsgSize :: int
  CfgAllowedMsgTypes :: "string list"
  CheckpointGuardStateFile :: string
  CfgEnabledRPCs :: "(string \<times> bool) list"
  EnableReflection :: bool

record TLSConfig =
  Insecure :: bool
  CACert :: string
  ServerCert :: string
  ServerKey :: string

record LogConfig =
  Level :: string
  Format :: string

record AppConfig =
  CfgChainID :: string
  Consensus :: ConsensusConfig
  SignerCfg :: SignerConfig
  ServerCfg :: ServerConfig
  TLS :: TLSConfig
  Log :: LogConfig

datatype config_error =
    EmptyConfigPath
  | CannotRead os_error
  | CannotParse string
  | Required string
  | StatFailed string os_error
  | InvalidBackend string
  | TimeoutNotPositive
  | UnknownRPC string
  | GuardNotDurable
  | InvalidLevel string
  | InvalidFormat string
  | BadFailover string

section \<open>Derived values\<close>

text \<open>\<^verbatim>\<open>TargetList\<close>.\<close>

definition TargetList :: "ConsensusConfig \<Rightarrow> string list" where
  "TargetList c = filter (\<lambda>t. t \<noteq> '''') (map trim_space (split_on (CHR '','') (Targets c)))"

definition Enabled :: "ConsensusConfig \<Rightarrow> bool" where
  "Enabled c \<longleftrightarrow> KeyFile c \<noteq> ''''"

definition FailoverTimeout :: "ConsensusConfig \<Rightarrow> config_error + int" where
  "FailoverTimeout c =
     (if PrimaryFailoverTimeout c = '''' then Inr 0
      else
        (case ParseDuration (PrimaryFailoverTimeout c) of
           None \<Rightarrow> Inl (BadFailover (PrimaryFailoverTimeout c))
         | Some d \<Rightarrow> if d \<le> 0 then Inl (BadFailover (PrimaryFailoverTimeout c)) else Inr d))"

definition ToMap :: "SignerConfig \<Rightarrow> raw_config" where
  "ToMap c =
     [''keyring_dir'' \<mapsto> AnyString (KeyringDir c),
      ''key_name'' \<mapsto> AnyString (SignerKeyName c),
      ''password_file'' \<mapsto> AnyString (PasswordFile c),
      ''dsm_api_endpoint'' \<mapsto> AnyString (DSMAPIEndpoint c),
      ''dsm_api_key'' \<mapsto> AnyString (DSMAPIKey c),
      ''dsm_key_id'' \<mapsto> AnyString (DSMKeyID c),
      ''dsm_key_name'' \<mapsto> AnyString (DSMKeyName c)]"

definition knownRPCShortNames :: "string list" where
  "knownRPCShortNames =
     [''sign'', ''sign_raw'', ''sign_tx'', ''sign_bridge_checkpoint'', ''sign_oracle_attestation'',
      ''sign_initial'', ''get_public_key'', ''get_address'', ''get_chain_id'']"

definition GuardStatePath :: "AppConfig \<Rightarrow> string" where
  "GuardStatePath c =
     (if CheckpointGuardStateFile (ServerCfg c) \<noteq> '''' then CheckpointGuardStateFile (ServerCfg c)
      else if StateFile (Consensus c) \<noteq> '''' then
        path_join (path_dir (StateFile (Consensus c))) ''bridge_checkpoint_state.json''
      else '''')"

section \<open>Defaults\<close>

definition or_default :: "string \<Rightarrow> string \<Rightarrow> string" where
  "or_default s d = (if s = '''' then d else s)"

definition server_defaults :: "ServerConfig \<Rightarrow> ServerConfig" where
  "server_defaults s =
     s\<lparr>ListenAddr := or_default (ListenAddr s) ''0.0.0.0:9191'',
       HealthAddr := or_default (HealthAddr s) ''0.0.0.0:9192'',
       RequestTimeout := (if RequestTimeout s = 0 then 2 * 1000000000 else RequestTimeout s),
       MaxRecvMsgSize := (if MaxRecvMsgSize s = 0 then 1024 * 1024 else MaxRecvMsgSize s)\<rparr>"

definition consensus_defaults :: "ConsensusConfig \<Rightarrow> ConsensusConfig" where
  "consensus_defaults c =
     (if Enabled c then
        c\<lparr>StateFile := or_default (StateFile c) ''/data/priv_validator_state.json'',
          ConnKeyFile := or_default (ConnKeyFile c) ''/data/connection.key'',
          Targets := or_default (Targets c) ''tcp://layer:26659,tcp://layer-backup:26659''\<rparr>
      else c)"

definition applyDefaults :: "AppConfig \<Rightarrow> AppConfig" where
  "applyDefaults c =
     c\<lparr>ServerCfg := server_defaults (ServerCfg c),
       Log := (Log c)\<lparr>Level := or_default (Level (Log c)) ''info'', Format := or_default (Format (Log c)) ''json''\<rparr>,
       Consensus := consensus_defaults (Consensus c)\<rparr>"

section \<open>Validation\<close>

text \<open>Each part returns the first error it finds; \<open>then_check\<close> goes on when there is none.\<close>

type_synonym 'a check = "'a os_scheme \<Rightarrow> config_error option \<times> 'a os_scheme"

definition then_check :: "'a check \<Rightarrow> 'a check \<Rightarrow> 'a check" where
  "then_check f g s = (case f s of (Some e, s1) \<Rightarrow> (Some e, s1) | (None, s1) \<Rightarrow> g s1)"

definition pure_check :: "config_error option \<Rightarrow> 'a check" where
  "pure_check e s = (e, s)"

definition require :: "string \<Rightarrow> string \<Rightarrow> config_error option" where
  "require what v = (if v = '''' then Some (Required what) else None)"

definition stat_check :: "string \<Rightarrow> 'a check" where
  "stat_check path s =
     (case os_stat path s of (Inl e, s1) \<Rightarrow> (Some (StatFailed path e), s1) | (Inr _, s1) \<Rightarrow> (None, s1))"

definition validate_signer :: "SignerConfig \<Rightarrow> 'a check" where
  "validate_signer c =
     (if Backend c = ''file'' then
        then_check (pure_check (require ''signer.keyring_dir'' (KeyringDir c)))
          (then_check (stat_check (KeyringDir c))
             (pure_check (require ''signer.key_name'' (SignerKeyName c))))
      else if Backend c = ''fortanixdsm'' then
        pure_check
          (if DSMAPIEndpoint c = '''' then Some (Required ''signer.dsm_api_endpoint'')
           else if DSMAPIKey c = '''' then Some (Required ''signer.dsm_api_key'')
           else if DSMKeyID c = '''' \<and> DSMKeyName c = '''' then
             Some (Required ''signer.dsm_key_id or signer.dsm_key_name'')
           else None)
      else if Backend c = '''' then pure_check (Some (Required ''signer.backend''))
      else pure_check (Some (InvalidBackend (Backend c))))"

definition validate_server :: "ServerConfig \<Rightarrow> config_error option" where
  "validate_server c =
     (if ListenAddr c = '''' then Some (Required ''server.listen_addr'')
      else if RequestTimeout c \<le> 0 then Some TimeoutNotPositive
      else None)"

definition validate_tls :: "TLSConfig \<Rightarrow> 'a check" where
  "validate_tls t =
     (if Insecure t then pure_check None
      else
        then_check (pure_check (require ''tls.ca_cert'' (CACert t)))
          (then_check (pure_check (require ''tls.server_cert'' (ServerCert t)))
             (then_check (pure_check (require ''tls.server_key'' (ServerKey t)))
                (then_check (stat_check (CACert t))
                   (then_check (stat_check (ServerCert t)) (stat_check (ServerKey t)))))))"

definition validate_rpcs :: "(string \<times> bool) list \<Rightarrow> config_error option" where
  "validate_rpcs rpcs =
     map_option (\<lambda>(name, _). UnknownRPC name) (find (\<lambda>(name, _). name \<notin> set knownRPCShortNames) rpcs)"

text \<open>\<^verbatim>\<open>v, ok := EnabledRPCs["sign_bridge_checkpoint"]; !ok || v\<close>.\<close>

definition checkpoint_enabled :: "AppConfig \<Rightarrow> bool" where
  "checkpoint_enabled c \<longleftrightarrow> map_of (CfgEnabledRPCs (ServerCfg c)) ''sign_bridge_checkpoint'' \<noteq> Some False"

definition validate_guard :: "AppConfig \<Rightarrow> config_error option" where
  "validate_guard c =
     (if checkpoint_enabled c \<and> GuardStatePath c = '''' then Some GuardNotDurable else None)"

definition validate_log :: "LogConfig \<Rightarrow> config_error option" where
  "validate_log l =
     (if Level l \<notin> {''debug'', ''info'', ''warn'', ''error''} then Some (InvalidLevel (Level l))
      else if Format l \<notin> {''json'', ''text''} then Some (InvalidFormat (Format l))
      else None)"

definition validate_consensus :: "AppConfig \<Rightarrow> config_error option" where
  "validate_consensus c =
     (if Enabled (Consensus c) then
        (if CfgChainID c = '''' then Some (Required ''chain_id'')
         else if StateFile (Consensus c) = '''' then Some (Required ''consensus.state_file'')
         else if Targets (Consensus c) = '''' then Some (Required ''consensus.targets'')
         else (case FailoverTimeout (Consensus c) of Inl e \<Rightarrow> Some e | Inr _ \<Rightarrow> None))
      else None)"

definition validate :: "AppConfig \<Rightarrow> 'a check" where
  "validate c =
     then_check (validate_signer (SignerCfg c))
       (then_check (pure_check (validate_server (ServerCfg c)))
          (then_check (validate_tls (TLS c))
             (then_check (pure_check (validate_rpcs (CfgEnabledRPCs (ServerCfg c))))
                (then_check (pure_check (validate_guard c))
                   (then_check (pure_check (validate_log (Log c)))
                      (pure_check (validate_consensus c)))))))"

definition Load :: "(string \<Rightarrow> string + AppConfig) \<Rightarrow> string \<Rightarrow> 'a os_scheme \<Rightarrow> (config_error + AppConfig) \<times> 'a os_scheme" where
  "Load yaml path s =
     (if path = '''' then (Inl EmptyConfigPath, s)
      else
        (case os_read_file path s of
           (Inl e, s1) \<Rightarrow> (Inl (CannotRead e), s1)
         | (Inr d, s1) \<Rightarrow>
             (case yaml d of
                Inl e \<Rightarrow> (Inl (CannotParse e), s1)
              | Inr cfg \<Rightarrow>
                  let cfg' = applyDefaults cfg in
                  (case validate cfg' s1 of
                     (Some e, s2) \<Rightarrow> (Inl e, s2)
                   | (None, s2) \<Rightarrow> (Inr cfg', s2)))))"

section \<open>What a loaded configuration satisfies\<close>

definition signer_cfg_wf :: "SignerConfig \<Rightarrow> bool" where
  "signer_cfg_wf c \<longleftrightarrow>
     Backend c = ''file'' \<and> KeyringDir c \<noteq> '''' \<and> SignerKeyName c \<noteq> ''''
   \<or> Backend c = ''fortanixdsm'' \<and> DSMAPIEndpoint c \<noteq> '''' \<and> DSMAPIKey c \<noteq> '''' \<and> (DSMKeyID c \<noteq> '''' \<or> DSMKeyName c \<noteq> '''')"

definition config_wf :: "AppConfig \<Rightarrow> bool" where
  "config_wf c \<longleftrightarrow>
     signer_cfg_wf (SignerCfg c)
   \<and> ListenAddr (ServerCfg c) \<noteq> '''' \<and> 0 < RequestTimeout (ServerCfg c)
   \<and> (Insecure (TLS c) \<or> CACert (TLS c) \<noteq> '''' \<and> ServerCert (TLS c) \<noteq> '''' \<and> ServerKey (TLS c) \<noteq> '''')
   \<and> fst ` set (CfgEnabledRPCs (ServerCfg c)) \<subseteq> set knownRPCShortNames
   \<and> (checkpoint_enabled c \<longrightarrow> GuardStatePath c \<noteq> '''')
   \<and> Level (Log c) \<in> {''debug'', ''info'', ''warn'', ''error''} \<and> Format (Log c) \<in> {''json'', ''text''}
   \<and> (Enabled (Consensus c) \<longrightarrow> CfgChainID c \<noteq> '''' \<and> StateFile (Consensus c) \<noteq> '''' \<and> Targets (Consensus c) \<noteq> ''''
        \<and> (\<exists>d. FailoverTimeout (Consensus c) = Inr d \<and> 0 \<le> d \<and> d < 2 ^ 63))"

text \<open>
  The paths that must be there: the keyring of the file backend and, unless TLS is off, its three files.
\<close>

definition config_files :: "AppConfig \<Rightarrow> 'a os_scheme \<Rightarrow> bool" where
  "config_files c s \<longleftrightarrow>
     (Backend (SignerCfg c) = ''file'' \<longrightarrow> files s (KeyringDir (SignerCfg c)) \<noteq> None)
   \<and> (\<not> Insecure (TLS c) \<longrightarrow>
        files s (CACert (TLS c)) \<noteq> None \<and> files s (ServerCert (TLS c)) \<noteq> None \<and> files s (ServerKey (TLS c)) \<noteq> None)"

lemma then_check_None:
  "then_check f g s = (None, s') \<longleftrightarrow> (\<exists>s1. f s = (None, s1) \<and> g s1 = (None, s'))"
  by (auto simp: then_check_def split: prod.splits option.splits)

lemma pure_check_None: "pure_check e s = (None, s') \<longleftrightarrow> e = None \<and> s' = s"
  by (auto simp: pure_check_def)

lemma require_None: "require w v = None \<longleftrightarrow> v \<noteq> ''''"
  by (simp add: require_def)

lemmas check_simps = then_check_None pure_check_None require_None

lemma validate_signer_wf: "validate_signer c s = (None, s') \<Longrightarrow> signer_cfg_wf c"
  by (auto simp: validate_signer_def signer_cfg_wf_def check_simps split: if_splits)

lemma validate_tls_wf:
  "validate_tls t s = (None, s') \<Longrightarrow> Insecure t \<or> CACert t \<noteq> '''' \<and> ServerCert t \<noteq> '''' \<and> ServerKey t \<noteq> ''''"
  by (auto simp: validate_tls_def check_simps split: if_splits)

lemma validate_rpcs_wf: "validate_rpcs rpcs = None \<Longrightarrow> fst ` set rpcs \<subseteq> set knownRPCShortNames"
  by (auto simp: validate_rpcs_def find_None_iff)

lemma FailoverTimeout_range: "FailoverTimeout c = Inr d \<Longrightarrow> 0 \<le> d \<and> d < 2 ^ 63"
  by (auto simp: FailoverTimeout_def dest: ParseDuration_range split: if_splits option.splits)

lemma validate_consensus_wf:
  assumes "validate_consensus c = None" "Enabled (Consensus c)"
  shows "CfgChainID c \<noteq> '''' \<and> StateFile (Consensus c) \<noteq> '''' \<and> Targets (Consensus c) \<noteq> ''''
    \<and> (\<exists>d. FailoverTimeout (Consensus c) = Inr d \<and> 0 \<le> d \<and> d < 2 ^ 63)"
  using assms FailoverTimeout_range [of "Consensus c"]
  by (cases "FailoverTimeout (Consensus c)") (auto simp: validate_consensus_def split: if_splits)

lemma validate_wf:
  fixes s s' :: "'a os_scheme"
  assumes "validate c s = (None, s')"
  shows "config_wf c"
proof -
  from assms obtain s1 s2 s3 :: "'a os_scheme" where v: "validate_signer (SignerCfg c) s = (None, s1)" "validate_server (ServerCfg c) = None"
      "validate_tls (TLS c) s2 = (None, s3)" "validate_rpcs (CfgEnabledRPCs (ServerCfg c)) = None" "validate_guard c = None"
      "validate_log (Log c) = None" "validate_consensus c = None"
    unfolding validate_def check_simps by auto
  have "ListenAddr (ServerCfg c) \<noteq> '''' \<and> 0 < RequestTimeout (ServerCfg c)"
    using v(2) by (auto simp: validate_server_def split: if_splits)
  moreover have "checkpoint_enabled c \<longrightarrow> GuardStatePath c \<noteq> ''''"
    using v(5) by (auto simp: validate_guard_def split: if_splits)
  moreover have "Level (Log c) \<in> {''debug'', ''info'', ''warn'', ''error''} \<and> Format (Log c) \<in> {''json'', ''text''}"
    using v(6) by (auto simp: validate_log_def split: if_splits)
  ultimately show ?thesis
    unfolding config_wf_def
    using validate_signer_wf [OF v(1)] validate_tls_wf [OF v(3)] validate_rpcs_wf [OF v(4)]
      validate_consensus_wf [OF v(7)] by blast
qed

text \<open>No check changes a file, so a path found during validation was there before.\<close>

definition keeps_files :: "'a check \<Rightarrow> bool" where
  "keeps_files f \<longleftrightarrow> (\<forall>s. files (snd (f s)) = files s)"

lemma keeps_then: "keeps_files f \<Longrightarrow> keeps_files g \<Longrightarrow> keeps_files (then_check f g)"
  unfolding keeps_files_def then_check_def
  by (intro allI) (metis (no_types, lifting) option.exhaust prod.collapse option.case(1,2) case_prod_conv snd_conv)

lemma keeps_pure: "keeps_files (pure_check e)"
  by (simp add: keeps_files_def pure_check_def)

lemma keeps_stat: "keeps_files (stat_check p)"
  by (auto simp: keeps_files_def stat_check_def os_stat_def split: if_splits option.splits)

lemmas keeps_rules = keeps_then keeps_pure keeps_stat

lemma keeps_signer: "keeps_files (validate_signer c)"
  unfolding validate_signer_def by (simp add: keeps_rules)

lemma keeps_tls: "keeps_files (validate_tls c)"
  unfolding validate_tls_def by (simp add: keeps_rules)

lemma validate_files: "validate c s = (r, s') \<Longrightarrow> files s' = files s"
proof -
  have k: "keeps_files (validate c)" unfolding validate_def by (simp add: keeps_rules keeps_signer keeps_tls)
  show "validate c s = (r, s') \<Longrightarrow> files s' = files s" using k unfolding keeps_files_def by (metis snd_conv)
qed

lemma Load_files: "Load y p s = (r, s') \<Longrightarrow> files s' = files s"
  by (auto simp: Load_def os_read_file_def Let_def dest!: validate_files
      split: if_splits sum.splits prod.splits option.splits)

lemma stat_check_None: "stat_check p s = (None, s') \<Longrightarrow> files s p \<noteq> None \<and> files s' = files s"
  by (auto simp: stat_check_def os_stat_def split: if_splits option.splits)

lemma validate_signer_files:
  "validate_signer c s = (None, s') \<Longrightarrow> Backend c = ''file'' \<Longrightarrow> files s (KeyringDir c) \<noteq> None"
  by (auto simp: validate_signer_def check_simps dest!: stat_check_None)

lemma validate_tls_files:
  "validate_tls t s = (None, s') \<Longrightarrow> \<not> Insecure t \<Longrightarrow>
     files s (CACert t) \<noteq> None \<and> files s (ServerCert t) \<noteq> None \<and> files s (ServerKey t) \<noteq> None"
  by (auto simp: validate_tls_def check_simps dest!: stat_check_None)

lemma validate_config_files:
  fixes s s' :: "'a os_scheme"
  assumes "validate c s = (None, s')"
  shows "config_files c s"
proof -
  from assms obtain s1 s2 :: "'a os_scheme" where v: "validate_signer (SignerCfg c) s = (None, s1)" "validate_tls (TLS c) s1 = (None, s2)"
    unfolding validate_def check_simps by auto
  have "files s1 = files s" using keeps_signer [of "SignerCfg c"] v(1) unfolding keeps_files_def by (metis snd_conv)
  with validate_signer_files [OF v(1)] validate_tls_files [OF v(2)] show ?thesis by (simp add: config_files_def)
qed

lemma Load_config_files:
  assumes "Load yaml path s = (Inr c, s')"
  shows "config_files c s"
proof -
  from assms obtain d s1 where "os_read_file path s = (Inr d, s1)" "validate c s1 = (None, s')"
    by (auto simp: Load_def Let_def split: if_splits sum.splits prod.splits option.splits)
  moreover from this have "files s1 = files s" by (auto simp: os_read_file_def)
  ultimately show ?thesis using validate_config_files [of c s1 s'] by (simp add: config_files_def)
qed

lemma Load_Inr:
  fixes s s' :: "'a os_scheme"
  assumes "Load yaml path s = (Inr c, s')"
  obtains d c0 and s1 s2 :: "'a os_scheme" where "content_at path s = Some d" "yaml d = Inr c0" "c = applyDefaults c0" "validate c s1 = (None, s2)"
proof -
  from assms obtain d c0 s1 where d: "os_read_file path s = (Inr d, s1)" "yaml d = Inr c0" "c = applyDefaults c0"
      "validate c s1 = (None, s')"
    by (auto simp: Load_def Let_def split: if_splits sum.splits prod.splits option.splits)
  then have "content_at path s = Some d"
    by (auto simp: os_read_file_def content_at_def split: if_splits option.splits node.splits)
  from that [OF this d(2-4)] show ?thesis .
qed

lemma or_default_idem [simp]: "or_default (or_default s d) d = or_default s d"
  by (simp add: or_default_def)

lemma defaults_fixpoint: "applyDefaults (applyDefaults c) = applyDefaults c"
  by (simp add: applyDefaults_def server_defaults_def consensus_defaults_def Enabled_def)

lemma TargetList_nonempty: "t \<in> set (TargetList c) \<Longrightarrow> t \<noteq> ''''"
  by (simp add: TargetList_def)

lemma TargetList_single:
  assumes "CHR '','' \<notin> set t" "t \<noteq> []" "graphic (hd t)" "graphic (last t)"
  shows "TargetList (c\<lparr>Targets := t\<rparr>) = [t]"
proof -
  have "split_on (CHR '','') t = [t]" using assms(1) by (induction t) auto
  then show ?thesis using assms trim_space_graphic [of t] by (simp add: TargetList_def)
qed

lemma rpc_names_in_sync: "set knownRPCShortNames = set KnownShortRPCNames"
  by (auto simp: knownRPCShortNames_def KnownShortRPCNames_def shortRPCNameToFullMethod_def)

lemma enabled_fold:
  assumes "distinct (map fst rpcs)" "(n, b) \<in> set rpcs" "map_of shortRPCNameToFullMethod n = Some full"
  shows "foldl (\<lambda>out (name, enabled). case map_of shortRPCNameToFullMethod name of
      Some f \<Rightarrow> out(f \<mapsto> enabled) | None \<Rightarrow> out) m rpcs full = Some b"
  using assms
proof (induction rpcs rule: rev_induct)
  case (snoc x xs)
  have inj: "map_of shortRPCNameToFullMethod k = Some full \<Longrightarrow> k = n" for k
    using snoc.prems(3) by (auto simp: shortRPCNameToFullMethod_def split: if_splits)
  show ?case
  proof (cases "x = (n, b)")
    case True
    with snoc.prems(3) show ?thesis by simp
  next
    case False
    then have in_xs: "(n, b) \<in> set xs" "distinct (map fst xs)" using snoc.prems by auto
    from in_xs(1) have "n \<in> fst ` set xs" by force
    then have "fst x \<noteq> n" using snoc.prems(1) by auto
    then have "map_of shortRPCNameToFullMethod (fst x) \<noteq> Some full" using inj by blast
    with snoc.IH [OF in_xs(2,1) snoc.prems(3)] show ?thesis
      by (cases x) (auto split: option.splits)
  qed
qed simp

section \<open>Properties\<close>

text \<open>Claim C12: a configuration the program accepts is well formed.  Its backend has its settings, its
  timeouts are positive, TLS material is named unless TLS is off, every switch names an RPC, the
  checkpoint guard has a state file unless the checkpoint RPC is off, and consensus signing has a
  chain id, a state file, targets and a failover timeout in range; the keyring directory of the file
  backend and, unless TLS is off, the three TLS files are there; the defaults are in place.\<close>

theorem loaded_config_wf:
  fixes s s' :: "'a os_scheme"
  assumes "Load yaml path s = (Inr c, s')"
  shows "config_wf c \<and> config_files c s \<and> applyDefaults c = c"
proof -
  from assms obtain c0 and s1 s2 :: "'a os_scheme" where "c = applyDefaults c0" "validate c s1 = (None, s2)"
    by (rule Load_Inr)
  then show ?thesis using validate_wf defaults_fixpoint Load_config_files [OF assms] by metis
qed

definition demo_app :: AppConfig where
  "demo_app =
     \<lparr>CfgChainID = ''layer-1'',
      Consensus = \<lparr>KeyFile = ''/k'', StateFile = ''/data/s.json'', ConnKeyFile = '''', Targets = ''tcp://10.0.0.1:26659'',
        PrimaryFailoverTimeout = ''60s'', PreferTargetOrder = False\<rparr>,
      SignerCfg = \<lparr>Backend = ''fortanixdsm'', KeyringDir = '''', SignerKeyName = '''', PasswordFile = '''',
        DSMAPIEndpoint = ''https://dsm'', DSMAPIKey = ''key'', DSMKeyID = ''id'', DSMKeyName = ''''\<rparr>,
      ServerCfg = \<lparr>ListenAddr = '''', HealthAddr = '''', RequestTimeout = 0, MaxRecvMsgSize = 0, CfgAllowedMsgTypes = [],
        CheckpointGuardStateFile = '''', CfgEnabledRPCs = [(''sign_initial'', False)], EnableReflection = False\<rparr>,
      TLS = \<lparr>Insecure = True, CACert = '''', ServerCert = '''', ServerKey = ''''\<rparr>,
      Log = \<lparr>Level = '''', Format = ''''\<rparr>\<rparr>"

definition demo_cfg_os :: os where
  "demo_cfg_os = \<lparr>files = [''c.yaml'' \<mapsto> FileNode perm_0600 ''demo''], faults = (\<lambda>_. False), short = (\<lambda>_. 0), rnd = (\<lambda>_. 0), tick = 0\<rparr>"

lemma demo_timeout: "ParseDuration ''60s'' = Some 60000000000"
proof -
  have "format_nat 60 = ''60''" by code_simp
  then show ?thesis using ParseDuration_seconds [of 60] by simp
qed

lemma demo_guard_path: "GuardStatePath (applyDefaults demo_app) = ''/data/bridge_checkpoint_state.json''"
  by (simp add: GuardStatePath_def applyDefaults_def server_defaults_def consensus_defaults_def demo_app_def or_default_def
      Enabled_def path_dir_def path_join_def path_clean_def)

lemma demo_validate: "validate (applyDefaults demo_app) s = (None, s)"
proof -
  have "validate_guard (applyDefaults demo_app) = None" by (simp add: validate_guard_def demo_guard_path)
  then show ?thesis
    by (simp add: validate_def then_check_def pure_check_def validate_signer_def validate_server_def validate_tls_def
        validate_rpcs_def validate_log_def validate_consensus_def FailoverTimeout_def demo_timeout applyDefaults_def
        server_defaults_def consensus_defaults_def demo_app_def or_default_def Enabled_def knownRPCShortNames_def)
qed

lemma demo_load: "\<exists>s'. Load (\<lambda>_. Inr demo_app) ''c.yaml'' demo_cfg_os = (Inr (applyDefaults demo_app), s')"
  by (simp add: Load_def os_read_file_def demo_cfg_os_def fails_def step_def demo_validate Let_def)

definition demo_tls_app :: AppConfig where
  "demo_tls_app = demo_app
     \<lparr>SignerCfg := (SignerCfg demo_app)\<lparr>Backend := ''file'', KeyringDir := ''keys'', SignerKeyName := ''val''\<rparr>,
      TLS := \<lparr>Insecure = False, CACert = ''ca.pem'', ServerCert = ''srv.pem'', ServerKey = ''srv.key''\<rparr>\<rparr>"

definition demo_tls_os :: os where
  "demo_tls_os = demo_cfg_os\<lparr>files := (files demo_cfg_os)(''keys'' \<mapsto> DirNode, ''ca.pem'' \<mapsto> FileNode perm_0600 ''ca'',
     ''srv.pem'' \<mapsto> FileNode perm_0600 ''cert'', ''srv.key'' \<mapsto> FileNode perm_0600 ''key'')\<rparr>"

lemma demo_tls_load: "\<exists>s'. Load (\<lambda>_. Inr demo_tls_app) ''c.yaml'' demo_tls_os = (Inr (applyDefaults demo_tls_app), s')"
proof -
  have path: "GuardStatePath (applyDefaults demo_tls_app) = ''/data/bridge_checkpoint_state.json''"
    unfolding demo_guard_path [symmetric] by (simp add: GuardStatePath_def applyDefaults_def demo_tls_app_def cong: if_cong)
  have guard: "validate_guard (applyDefaults demo_tls_app) = None" by (simp add: validate_guard_def path)
  have pure: "validate_server (ServerCfg (applyDefaults demo_tls_app)) = None"
      "validate_rpcs (CfgEnabledRPCs (ServerCfg (applyDefaults demo_tls_app))) = None" "validate_log (Log (applyDefaults demo_tls_app)) = None"
      "validate_consensus (applyDefaults demo_tls_app) = None"
    by (simp_all add: validate_server_def validate_rpcs_def validate_log_def validate_consensus_def
        FailoverTimeout_def demo_timeout applyDefaults_def server_defaults_def consensus_defaults_def demo_tls_app_def demo_app_def
        or_default_def Enabled_def knownRPCShortNames_def)
  have cfg: "SignerCfg (applyDefaults demo_tls_app) = SignerCfg demo_tls_app" "TLS (applyDefaults demo_tls_app) = TLS demo_tls_app"
    by (simp_all add: applyDefaults_def)
  let ?s = "\<lambda>n. demo_tls_os\<lparr>tick := n\<rparr>"
  have stat: "stat_check p (?s n) = (None, ?s (Suc n))" if "p \<in> {''keys'', ''ca.pem'', ''srv.pem'', ''srv.key''}" for p n
    using that by (auto simp: stat_check_def os_stat_def fails_def step_def demo_tls_os_def demo_cfg_os_def)
  have signer: "validate_signer (SignerCfg demo_tls_app) (?s n) = (None, ?s (Suc n))" for n
    by (simp add: validate_signer_def demo_tls_app_def then_check_def pure_check_def require_def stat)
  have tls: "validate_tls (TLS demo_tls_app) (?s n) = (None, ?s (n + 3))" for n
    by (simp add: validate_tls_def demo_tls_app_def then_check_def pure_check_def require_def stat numeral_3_eq_3)
  have "os_read_file ''c.yaml'' demo_tls_os = (Inr ''demo'', ?s 1)"
    by (simp add: os_read_file_def demo_tls_os_def demo_cfg_os_def fails_def step_def)
  moreover have "validate (applyDefaults demo_tls_app) (?s 1) = (None, ?s 5)"
    by (simp add: validate_def then_check_def pure_check_def guard pure cfg signer tls)
  ultimately show ?thesis by (simp add: Load_def Let_def)
qed

theorem loaded_config_wf_witness:
  "config_wf (applyDefaults demo_tls_app) \<and> files demo_tls_os (ServerKey (TLS (applyDefaults demo_tls_app))) \<noteq> None
    \<and> RequestTimeout (ServerCfg (applyDefaults demo_tls_app)) = 2000000000"
proof -
  obtain s' where "Load (\<lambda>_. Inr demo_tls_app) ''c.yaml'' demo_tls_os = (Inr (applyDefaults demo_tls_app), s')"
    using demo_tls_load by blast
  from loaded_config_wf [OF this] show ?thesis
    by (simp add: config_files_def applyDefaults_def server_defaults_def demo_tls_app_def demo_app_def)
qed

text \<open>A switched-off RPC is off.  Every name the configuration accepts is a name the server
  knows, so a \<^verbatim>\<open>false\<close> entry of an accepted configuration disables the method it names.\<close>

theorem disabled_rpc_stays_disabled:
  assumes "Load yaml path s = (Inr c, s')" "distinct (map fst (CfgEnabledRPCs (ServerCfg c)))"
    and "(name, False) \<in> set (CfgEnabledRPCs (ServerCfg c))"
  shows "\<exists>full. map_of shortRPCNameToFullMethod name = Some full
    \<and> EnabledRPCsFromConfig (CfgEnabledRPCs (ServerCfg c)) full = Some False"
proof -
  have "config_wf c" using assms(1) by (rule Load_Inr) (rule validate_wf)
  then have "name \<in> set KnownShortRPCNames"
    using assms(3) rpc_names_in_sync unfolding config_wf_def by force
  then obtain full where "map_of shortRPCNameToFullMethod name = Some full"
    unfolding KnownShortRPCNames_def by (metis image_set map_of_eq_None_iff not_None_eq)
  with enabled_fold [OF assms(2,3)] assms(3) show ?thesis
    by (auto simp: EnabledRPCsFromConfig_def)
qed

theorem disabled_rpc_stays_disabled_witness:
  "\<exists>full. map_of shortRPCNameToFullMethod ''sign_initial'' = Some full \<and> EnabledRPCsFromConfig [(''sign_initial'', False)] full = Some False"
proof -
  have r: "CfgEnabledRPCs (ServerCfg (applyDefaults demo_app)) = [(''sign_initial'', False)]"
    by (simp add: applyDefaults_def server_defaults_def demo_app_def)
  obtain s' where "Load (\<lambda>_. Inr demo_app) ''c.yaml'' demo_cfg_os = (Inr (applyDefaults demo_app), s')"
    using demo_load by blast
  from disabled_rpc_stays_disabled [OF this, of "''sign_initial''"] show ?thesis unfolding r by simp
qed

text \<open>The failover timeout is read as written.  A whole number of seconds whose nanoseconds
  fit an \<^verbatim>\<open>int64\<close> is parsed to exactly that many nanoseconds, and no accepted value is outside the
  positive \<^verbatim>\<open>int64\<close> range.\<close>

theorem failover_timeout_roundtrip:
  assumes "0 < n" "n * 1000000000 < 2 ^ 63"
  shows "FailoverTimeout (c\<lparr>PrimaryFailoverTimeout := format_nat n @ ''s''\<rparr>) = Inr (int n * 1000000000)
    \<and> int n * 1000000000 < 2 ^ 63"
proof -
  have "int (n * 1000000000) < int (2 ^ 63)" using assms(2) by (rule of_nat_less_iff [THEN iffD2])
  then have "int n * 1000000000 < 2 ^ 63" by simp
  then show ?thesis using ParseDuration_seconds [OF assms(2)] assms(1) by (simp add: FailoverTimeout_def)
qed

theorem failover_timeout_roundtrip_witness:
  "FailoverTimeout ((Consensus demo_app)\<lparr>PrimaryFailoverTimeout := format_nat 60 @ ''s''\<rparr>) = Inr 60000000000"
  using failover_timeout_roundtrip [of 60 "Consensus demo_app"] by simp

end
