(* ===== verification/State_Files.thy ===== *)
theory State_Files
  imports Config_File
begin

text \<open>
  The last-sign state of the consensus key: the check before a start and the one-shot bootstrap
  (\<^verbatim>\<open>src/consensus/statefile.go\<close>), the loader (\<^verbatim>\<open>src/consensus/loadpv.go\<close>) and the command
  \<^verbatim>\<open>init-state\<close> (\<^verbatim>\<open>src/cmd/bridge-signer/cmd_init.go\<close>).

  CometBFT's JSON decoder and its \<^verbatim>\<open>privval.NewFilePV\<close> are parameters.  The two system calls of
  the bootstrap are definitions of their own, since another process may act between them.
\<close>

section \<open>The state file\<close>

datatype state_error =
    StateNotFound string
  | StateStat os_error
  | StateIsDir string
  | StateExists string
  | StateCreate os_error

definition freshStateJSON :: string where
  "freshStateJSON =
     ''{'' @ [CHR 0x22] @ ''height'' @ [CHR 0x22] @ '':'' @ [CHR 0x22] @ ''0'' @ [CHR 0x22] @ '','' @
     [CHR 0x22] @ ''round'' @ [CHR 0x22] @ '':0,'' @ [CHR 0x22] @ ''step'' @ [CHR 0x22] @ '':0}'' @ [CHR 0x0A]"

definition RequireStateFile :: "string \<Rightarrow> 'a os_scheme \<Rightarrow> (state_error + unit) \<times> 'a os_scheme" where
  "RequireStateFile stateFilePath s =
     (case os_stat stateFilePath s of
        (Inl NotExist, s1) \<Rightarrow> (Inl (StateNotFound stateFilePath), s1)
      | (Inl e, s1) \<Rightarrow> (Inl (StateStat e), s1)
      | (Inr DirNode, s1) \<Rightarrow> (Inl (StateIsDir stateFilePath), s1)
      | (Inr (FileNode _ _), s1) \<Rightarrow> (Inr (), s1))"

definition init_check :: "string \<Rightarrow> 'a os_scheme \<Rightarrow> (state_error + unit) \<times> 'a os_scheme" where
  "init_check stateFilePath s =
     (case os_stat stateFilePath s of
        (Inr DirNode, s1) \<Rightarrow> (Inl (StateIsDir stateFilePath), s1)
      | (Inr (FileNode _ _), s1) \<Rightarrow> (Inl (StateExists stateFilePath), s1)
      | (Inl NotExist, s1) \<Rightarrow> (Inr (), s1)
      | (Inl e, s1) \<Rightarrow> (Inl (StateStat e), s1))"

definition init_write :: "string \<Rightarrow> 'a os_scheme \<Rightarrow> (state_error + unit) \<times> 'a os_scheme" where
  "init_write stateFilePath s =
     (case os_write_file stateFilePath freshStateJSON perm_0600 s of
        (Inl e, s1) \<Rightarrow> (Inl (StateCreate e), s1)
      | (Inr _, s1) \<Rightarrow> (Inr (), s1))"

definition InitStateFile :: "string \<Rightarrow> 'a os_scheme \<Rightarrow> (state_error + unit) \<times> 'a os_scheme" where
  "InitStateFile stateFilePath s =
     (case init_check stateFilePath s of
        (Inl e, s1) \<Rightarrow> (Inl e, s1)
      | (Inr _, s1) \<Rightarrow> init_write stateFilePath s1)"

datatype init_error = InitLoad config_error | InitState state_error

text \<open>The command \<^verbatim>\<open>init-state\<close>; \<open>Inr\<close> carries the path it prints.\<close>

definition initState :: "(string \<Rightarrow> string + AppConfig) \<Rightarrow> string \<Rightarrow> 'a os_scheme \<Rightarrow> (init_error + string) \<times> 'a os_scheme" where
  "initState yaml configPath s =
     (case Load yaml configPath s of
        (Inl e, s1) \<Rightarrow> (Inl (InitLoad e), s1)
      | (Inr cfg, s1) \<Rightarrow>
          (case InitStateFile (StateFile (Consensus cfg)) s1 of
             (Inl e, s2) \<Rightarrow> (Inl (InitState e), s2)
           | (Inr _, s2) \<Rightarrow> (Inr (StateFile (Consensus cfg)), s2)))"

section \<open>The key and its last signature\<close>

text \<open>The fields the loader reads of the state file; the record of CometBFT's \<^verbatim>\<open>FilePVLastSignState\<close>.\<close>

record LastSignState =
  Height :: "64 word"
  Round :: "32 word"
  Step :: "8 word"
  LastSignature :: "bytes option"
  SignBytes :: "bytes option"

record 'key FilePV =
  PrivKey :: 'key
  LastSign :: LastSignState

record 'key pv_lib =
  unmarshalKey :: "string \<Rightarrow> string + 'key option"
  unmarshalState :: "string \<Rightarrow> string + LastSignState"
  NewFilePV :: "'key \<Rightarrow> string \<Rightarrow> string \<Rightarrow> 'key FilePV"

datatype pv_error =
    ReadKeyFile os_error
  | ParseKeyFile string
  | MissingPrivKey string
  | ReadStateFile os_error
  | ParseStateFile string

definition load_state ::
    "'key pv_lib \<Rightarrow> 'key FilePV \<Rightarrow> string \<Rightarrow> 'a os_scheme \<Rightarrow> (pv_error + 'key FilePV) \<times> 'a os_scheme" where
  "load_state L pv stateFilePath s =
     (case os_read_file stateFilePath s of
        (Inl NotExist, s1) \<Rightarrow> (Inr pv, s1)
      | (Inl e, s1) \<Rightarrow> (Inl (ReadStateFile e), s1)
      | (Inr stateJSON, s1) \<Rightarrow>
          (case unmarshalState L stateJSON of
             Inl e \<Rightarrow> (Inl (ParseStateFile e), s1)
           | Inr st \<Rightarrow>
               (Inr (pv\<lparr>LastSign := (LastSign pv)\<lparr>Height := Height st, Round := Round st, Step := Step st,
                          LastSignature := LastSignature st, SignBytes := SignBytes st\<rparr>\<rparr>), s1)))"

definition LoadCometFilePV ::
    "'key pv_lib \<Rightarrow> string \<Rightarrow> string \<Rightarrow> 'a os_scheme \<Rightarrow> (pv_error + 'key FilePV) \<times> 'a os_scheme" where
  "LoadCometFilePV L keyFilePath stateFilePath s =
     (case os_read_file keyFilePath s of
        (Inl e, s1) \<Rightarrow> (Inl (ReadKeyFile e), s1)
      | (Inr keyJSON, s1) \<Rightarrow>
          (case unmarshalKey L keyJSON of
             Inl e \<Rightarrow> (Inl (ParseKeyFile e), s1)
           | Inr None \<Rightarrow> (Inl (MissingPrivKey keyFilePath), s1)
           | Inr (Some key) \<Rightarrow> load_state L (NewFilePV L key keyFilePath stateFilePath) stateFilePath s1))"

section \<open>Lemmas\<close>

lemma Require_state:
  "RequireStateFile p s = (r, s') \<Longrightarrow>
     files s' = files s \<and> (r = Inr () \<longrightarrow> (\<exists>m d. files s p = Some (FileNode m d)))"
  by (auto simp: RequireStateFile_def os_stat_def split: if_splits option.splits node.splits)

lemma init_check_cases:
  "init_check p s = (r, s') \<Longrightarrow> s' = step s \<and> (r = Inr () \<longrightarrow> \<not> fails s \<and> files s p = None)"
  by (auto simp: init_check_def os_stat_def split: if_splits option.splits node.splits)

lemma load_state_file:
  assumes "load_state L pv p s = (Inr pv', s')" "content_at p s = Some d"
  shows "unmarshalState L d = Inr (LastSign pv') \<and> PrivKey pv' = PrivKey pv"
proof -
  have "\<exists>m. files s p = Some (FileNode m d)"
    using assms(2) by (auto simp: content_at_def split: option.splits node.splits)
  then show ?thesis
    using assms(1) by (auto simp: load_state_def os_read_file_def split: if_splits sum.splits)
qed

lemma LoadCometFilePV_Inr:
  assumes "LoadCometFilePV L k p s = (Inr pv, s')"
  obtains kd key where "content_at k s = Some kd" "unmarshalKey L kd = Inr (Some key)"
    "load_state L (NewFilePV L key k p) p (step s) = (Inr pv, s')"
proof -
  obtain kd s1 key where k: "os_read_file k s = (Inr kd, s1)" "unmarshalKey L kd = Inr (Some key)"
      "load_state L (NewFilePV L key k p) p s1 = (Inr pv, s')"
    using assms by (auto simp: LoadCometFilePV_def split: sum.splits prod.splits option.splits)
  moreover from k(1) have "content_at k s = Some kd" "s1 = step s"
    by (auto simp: os_read_file_def content_at_def split: if_splits option.splits node.splits)
  ultimately show ?thesis using that by blast
qed

lemma write_file_ok:
  assumes "os_write_file p d m s = (Inr u, s')" "files s p = None"
  shows "files s' = (files s)(p \<mapsto> FileNode m d)"
  using assms by (auto simp: os_write_file_def f_write_def split: if_splits)

text \<open>The start of the signer: the check, then the loader.\<close>

lemma require_then_load:
  assumes "RequireStateFile p s = (Inr (), s1)" "LoadCometFilePV L k p s1 = (Inr pv, s2)"
  shows "\<exists>d. content_at p s = Some d \<and> unmarshalState L d = Inr (LastSign pv)"
proof -
  from Require_state [OF assms(1)] obtain m d where d: "files s p = Some (FileNode m d)" "files s1 = files s" by auto
  then have "content_at p (step s1) = Some d" "content_at p s = Some d" by (simp_all add: content_at_def)
  moreover obtain key where "load_state L (NewFilePV L key k p) p (step s1) = (Inr pv, s2)"
    by (rule LoadCometFilePV_Inr [OF assms(2)])
  ultimately show ?thesis using load_state_file by metis
qed

section \<open>Properties\<close>

text \<open>A concrete library, whose decoder knows the fresh state and one other.\<close>

definition zero_state :: LastSignState where
  "zero_state = \<lparr>Height = 0, Round = 0, Step = 0, LastSignature = None, SignBytes = None\<rparr>"

definition demo_pv_lib :: "nat pv_lib" where
  "demo_pv_lib =
     \<lparr>unmarshalKey = (\<lambda>d. if d = ''key'' then Inr (Some 5) else Inl ''bad key''),
      unmarshalState = (\<lambda>d. if d = freshStateJSON then Inr zero_state
        else if d = ''h7'' then Inr (zero_state\<lparr>Height := 7, Step := 3\<rparr>) else Inl ''bad state''),
      NewFilePV = (\<lambda>k _ _. \<lparr>PrivKey = k, LastSign = zero_state\<rparr>)\<rparr>"

definition demo_state_os :: "string option \<Rightarrow> os" where
  "demo_state_os st =
     \<lparr>files = (\<lambda>p. if p = ''/k'' then Some (FileNode perm_0600 ''key'') else if p = ''/d'' then Some DirNode
        else if p = ''/d/s'' then map_option (FileNode perm_0600) st else None),
      faults = (\<lambda>_. False), short = (\<lambda>_. 0), rnd = (\<lambda>_. 0), tick = 0\<rparr>"

text \<open>Claim C33: bootstrapping never touches an existing last-sign state.  With a file or a directory
  at the path, \<^verbatim>\<open>InitStateFile\<close> fails and leaves every file as it is, whatever system calls fail; if
  it succeeds there was nothing at the path, only that path changed, and the loader then starts the
  key at the fresh state.\<close>

theorem init_state_never_overwrites:
  assumes "InitStateFile p s = (r, s')"
  shows "(files s p \<noteq> None \<longrightarrow> r \<noteq> Inr () \<and> files s' = files s)
    \<and> (r = Inr () \<longrightarrow> files s p = None \<and> files s' = (files s)(p \<mapsto> FileNode perm_0600 freshStateJSON)
        \<and> (\<forall>k s2 pv. LoadCometFilePV L k p s' = (Inr pv, s2) \<longrightarrow> unmarshalState L freshStateJSON = Inr (LastSign pv)))"
proof -
  obtain c s1 where c: "init_check p s = (c, s1)" by force
  note cc = init_check_cases [OF c]
  show ?thesis
  proof (cases c)
    case (Inl e)
    with assms c have "r = Inl e" "s' = s1" by (auto simp: InitStateFile_def)
    with cc show ?thesis by simp
  next
    case (Inr u)
    with cc have none: "files s p = None" "files s1 p = None" "files s1 = files s" by auto
    have fin: "files s' = (files s)(p \<mapsto> FileNode perm_0600 freshStateJSON)" if "r = Inr ()"
    proof -
      from that assms c Inr obtain u' where "os_write_file p freshStateJSON perm_0600 s1 = (Inr u', s')"
        by (auto simp: InitStateFile_def init_write_def split: sum.splits prod.splits)
      from write_file_ok [OF this none(2)] none(3) show ?thesis by simp
    qed
    have "unmarshalState L freshStateJSON = Inr (LastSign pv)"
      if "r = Inr ()" "LoadCometFilePV L k p s' = (Inr pv, s2)" for k s2 pv
    proof -
      have "content_at p (step s') = Some freshStateJSON" using fin [OF that(1)] by (simp add: content_at_def)
      moreover from that(2) obtain key where "load_state L (NewFilePV L key k p) p (step s') = (Inr pv, s2)"
        by (rule LoadCometFilePV_Inr)
      ultimately show ?thesis using load_state_file by metis
    qed
    with none fin show ?thesis by simp
  qed
qed

theorem init_state_never_overwrites_witness:
  "InitStateFile ''/d/s'' (demo_state_os (Some ''h7'')) = (Inl (StateExists ''/d/s''), step (demo_state_os (Some ''h7'')))
   \<and> files (step (demo_state_os (Some ''h7''))) = files (demo_state_os (Some ''h7''))"
proof -
  have i: "InitStateFile ''/d/s'' (demo_state_os (Some ''h7'')) = (Inl (StateExists ''/d/s''), step (demo_state_os (Some ''h7'')))"
    by (simp add: InitStateFile_def init_check_def os_stat_def demo_state_os_def fails_def)
  from init_state_never_overwrites [OF i, of demo_pv_lib] i show ?thesis by (simp add: demo_state_os_def)
qed

text \<open>A signer that starts resumes from the recorded last signature.  If the check passes and
  the loader succeeds on the same file system, the last-sign state is the decoded content of the
  state file, never a fresh one; without the file the check fails.\<close>

theorem start_resumes_last_sign_state:
  assumes "RequireStateFile p s = (r, s1)" "LoadCometFilePV L k p s1 = (Inr pv, s2)"
  shows "(r = Inr () \<longrightarrow> (\<exists>d. content_at p s = Some d \<and> unmarshalState L d = Inr (LastSign pv)))
    \<and> (content_at p s = None \<longrightarrow> (\<exists>e. r = Inl e))"
proof (cases r)
  case (Inl e)
  then show ?thesis by simp
next
  case (Inr u)
  with require_then_load [OF _ assms(2), of s] assms(1) show ?thesis by force
qed

theorem start_resumes_last_sign_state_witness:
  "\<exists>s1 s2 pv. RequireStateFile ''/d/s'' (demo_state_os (Some ''h7'')) = (Inr (), s1)
    \<and> LoadCometFilePV demo_pv_lib ''/k'' ''/d/s'' s1 = (Inr pv, s2) \<and> Height (LastSign pv) = 7"
proof -
  let ?s = "demo_state_os (Some ''h7'')"
  have r: "RequireStateFile ''/d/s'' ?s = (Inr (), step ?s)"
    by (simp add: RequireStateFile_def os_stat_def demo_state_os_def fails_def)
  obtain pv s2 where l: "LoadCometFilePV demo_pv_lib ''/k'' ''/d/s'' (step ?s) = (Inr pv, s2)"
    by (simp add: LoadCometFilePV_def load_state_def os_read_file_def demo_state_os_def demo_pv_lib_def fails_def step_def
        freshStateJSON_def)
  have "unmarshalState demo_pv_lib ''h7'' = Inr (LastSign pv)"
    using start_resumes_last_sign_state [OF r l] by (auto simp: demo_state_os_def content_at_def)
  then have "LastSign pv = zero_state\<lparr>Height := 7, Step := 3\<rparr>" by (simp add: demo_pv_lib_def freshStateJSON_def)
  with r l show ?thesis by (intro exI) (auto simp: zero_state_def)
qed

text \<open>
  Neither check holds against another process.  A state file that appears between the two calls of
  the bootstrap is overwritten, and one that disappears between the check and the loader gives a
  fresh signer, as the loader treats a missing file as a new one.
\<close>

theorem state_checks_can_be_raced:
  "init_check ''/d/s'' (demo_state_os None) = (Inr (), step (demo_state_os None))
   \<and> content_at ''/d/s'' (snd (init_write ''/d/s'' (demo_state_os (Some ''h7'')))) = Some freshStateJSON
   \<and> RequireStateFile ''/d/s'' (demo_state_os (Some ''h7'')) = (Inr (), step (demo_state_os (Some ''h7'')))
   \<and> (\<exists>s'. LoadCometFilePV demo_pv_lib ''/k'' ''/d/s'' (demo_state_os None)
        = (Inr \<lparr>PrivKey = 5, LastSign = zero_state\<rparr>, s'))"
  by (simp add: init_check_def init_write_def RequireStateFile_def LoadCometFilePV_def load_state_def os_stat_def os_read_file_def
      os_write_file_def f_write_def content_at_def demo_state_os_def demo_pv_lib_def fails_def step_def set_node_def)

end
