(* ===== verification/Audit_Log.thy ===== *)
theory Audit_Log
  imports Go_Sha256 Go_Strings
begin

text \<open>
  The logger (\<^verbatim>\<open>src/logging/logging.go\<close>).  A logger is the options its \<^verbatim>\<open>slog\<close> handler was built
  with; the log is the list of the records the handler let through, each with its level, message
  and attributes.  How the handler prints a record is not modelled.
\<close>

section \<open>Levels and records\<close>

datatype slog_level = LevelDebug | LevelInfo | LevelWarn | LevelError

fun level_int :: "slog_level \<Rightarrow> int" where
  "level_int LevelDebug = - 4"
| "level_int LevelInfo = 0"
| "level_int LevelWarn = 4"
| "level_int LevelError = 8"

datatype attr_value = VStr string | VInt int | VBool bool

type_synonym log_record = "slog_level \<times> string \<times> (string \<times> attr_value) list"

datatype log_format = JSONHandler | TextHandler

record Logger =
  log_level :: slog_level
  add_source :: bool
  log_format :: log_format

datatype log_error = UnknownLevel string | UnknownFormat string

definition parseLevel :: "string \<Rightarrow> log_error + slog_level" where
  "parseLevel level =
     (if level = ''debug'' then Inr LevelDebug
      else if level = ''info'' then Inr LevelInfo
      else if level = ''warn'' then Inr LevelWarn
      else if level = ''error'' then Inr LevelError
      else Inl (UnknownLevel level))"

definition New_logger :: "string \<Rightarrow> string \<Rightarrow> log_error + Logger" where
  "New_logger level format =
     (case parseLevel level of
        Inl e \<Rightarrow> Inl e
      | Inr l \<Rightarrow>
          if format = ''json'' then Inr \<lparr>log_level = l, add_source = (l = LevelDebug), log_format = JSONHandler\<rparr>
          else if format = ''text'' then Inr \<lparr>log_level = l, add_source = (l = LevelDebug), log_format = TextHandler\<rparr>
          else Inl (UnknownFormat format))"

text \<open>\<^verbatim>\<open>slog.Logger\<close>: a record below the handler's level is dropped.\<close>

definition emit :: "Logger \<Rightarrow> slog_level \<Rightarrow> string \<Rightarrow> (string \<times> attr_value) list \<Rightarrow> log_record list \<Rightarrow> log_record list" where
  "emit l lev msg attrs out = (if level_int (log_level l) \<le> level_int lev then out @ [(lev, msg, attrs)] else out)"

definition Info :: "Logger \<Rightarrow> string \<Rightarrow> (string \<times> attr_value) list \<Rightarrow> log_record list \<Rightarrow> log_record list" where
  "Info l = emit l LevelInfo"

definition Debug :: "Logger \<Rightarrow> string \<Rightarrow> (string \<times> attr_value) list \<Rightarrow> log_record list \<Rightarrow> log_record list" where
  "Debug l = emit l LevelDebug"

definition Warn :: "Logger \<Rightarrow> string \<Rightarrow> (string \<times> attr_value) list \<Rightarrow> log_record list \<Rightarrow> log_record list" where
  "Warn l = emit l LevelWarn"

definition Error :: "Logger \<Rightarrow> string \<Rightarrow> (string \<times> attr_value) list \<Rightarrow> log_record list \<Rightarrow> log_record list" where
  "Error l = emit l LevelError"

section \<open>Audit records\<close>

text \<open>\<^verbatim>\<open>Duration.Milliseconds\<close>: nanoseconds divided towards zero.\<close>

definition milliseconds :: "int \<Rightarrow> int" where
  "milliseconds d = (if d < 0 then - (- d div 1000000) else d div 1000000)"

definition AuditSign ::
    "Logger \<Rightarrow> string \<Rightarrow> bytes \<Rightarrow> string option \<Rightarrow> int \<Rightarrow> log_record list \<Rightarrow> log_record list" where
  "AuditSign l requestID msg err duration out =
     (let attrs =
        [(''event'', VStr ''sign''),
         (''request_id'', VStr requestID),
         (''msg_hash'', VStr (hex_encode (sha256 msg))),
         (''msg_len'', VInt (int (length msg))),
         (''duration_ms'', VInt (milliseconds duration))]
      in (case err of
            Some e \<Rightarrow> emit l LevelError ''sign request failed'' (attrs @ [(''error'', VStr e), (''success'', VBool False)]) out
          | None \<Rightarrow> emit l LevelInfo ''sign request completed'' (attrs @ [(''success'', VBool True)]) out))"

definition AuditStartup :: "Logger \<Rightarrow> string \<Rightarrow> string \<Rightarrow> log_record list \<Rightarrow> log_record list" where
  "AuditStartup l backend listenAddr out =
     emit l LevelInfo ''bridge-signer starting''
       [(''event'', VStr ''startup''), (''backend'', VStr backend), (''listen_addr'', VStr listenAddr)] out"

definition AuditGetPublicKey :: "Logger \<Rightarrow> string option \<Rightarrow> log_record list \<Rightarrow> log_record list" where
  "AuditGetPublicKey l err out =
     (case err of
        Some e \<Rightarrow>
          emit l LevelError ''get public key failed''
            [(''event'', VStr ''get_public_key''), (''error'', VStr e), (''success'', VBool False)] out
      | None \<Rightarrow>
          emit l LevelInfo ''get public key'' [(''event'', VStr ''get_public_key''), (''success'', VBool True)] out)"

definition AuditShutdown :: "Logger \<Rightarrow> log_record list \<Rightarrow> log_record list" where
  "AuditShutdown l out = emit l LevelInfo ''bridge-signer shutting down'' [(''event'', VStr ''shutdown'')] out"

definition AuditConnection :: "Logger \<Rightarrow> string \<Rightarrow> log_record list \<Rightarrow> log_record list" where
  "AuditConnection l remoteAddr out =
     emit l LevelDebug ''client connected'' [(''event'', VStr ''connection''), (''remote_addr'', VStr remoteAddr)] out"

section \<open>Lemmas\<close>

lemma New_logger_ok:
  "ok (New_logger level format) \<longleftrightarrow>
     level \<in> {''debug'', ''info'', ''warn'', ''error''} \<and> format \<in> {''json'', ''text''}"
  by (simp add: New_logger_def parseLevel_def)

lemma New_logger_level:
  "New_logger level format = Inr l \<Longrightarrow> parseLevel level = Inr (log_level l)"
  by (auto simp: New_logger_def split: sum.splits if_splits)

lemma emit_error: "emit l LevelError msg attrs out = out @ [(LevelError, msg, attrs)]"
  by (cases "log_level l") (simp_all add: emit_def)

section \<open>The audit trail\<close>

text \<open>The hash and the outcome an audit record of a signing request carries.\<close>

definition audit_outcome :: "log_record \<Rightarrow> (string \<times> string \<times> bool) option" where
  "audit_outcome r =
     (case r of (_, _, attrs) \<Rightarrow>
      (case (map_of attrs ''request_id'', map_of attrs ''msg_hash'', map_of attrs ''success'') of
         (Some (VStr i), Some (VStr h), Some (VBool b)) \<Rightarrow> Some (i, h, b)
       | _ \<Rightarrow> None))"

text \<open>The audit trail of signing.  A failed request always leaves exactly one record, at
  whatever level the logger is configured, and a completed one leaves exactly one unless the level is
  \<^verbatim>\<open>warn\<close> or \<^verbatim>\<open>error\<close>; the record carries the request id, the SHA-256 of the message and the
  outcome.\<close>

theorem audit_trail:
  assumes "New_logger level format = Inr l"
  shows "\<exists>rs. AuditSign l i msg err d out = out @ rs
    \<and> (if err \<noteq> None \<or> level \<in> {''debug'', ''info''}
       then map audit_outcome rs = [Some (i, hex_encode (sha256 msg), err = None)] else rs = [])"
proof (cases err)
  case None
  have "parseLevel level = Inr (log_level l)" using New_logger_level [OF assms] .
  with None show ?thesis
    by (auto simp: AuditSign_def Let_def emit_def audit_outcome_def parseLevel_def split: if_splits)
next
  case (Some e)
  then show ?thesis by (simp add: AuditSign_def Let_def emit_error audit_outcome_def)
qed

theorem audit_trail_witness:
  "\<exists>rs l. New_logger ''error'' ''text'' = Inr l
    \<and> AuditSign l ''r1'' [1] (Some ''device offline'') 1500000 [] = rs
    \<and> map audit_outcome rs = [Some (''r1'', hex_encode (sha256 [1]), False)]"
proof -
  have "New_logger ''error'' ''text'' = Inr \<lparr>log_level = LevelError, add_source = False, log_format = TextHandler\<rparr>"
    by (simp add: New_logger_def parseLevel_def)
  with audit_trail [OF this, of "''r1''" "[1]" "Some ''device offline''" 1500000 "[]"] show ?thesis by simp
qed

end
