(* ===== verification/Health.thy ===== *)
theory Health
  imports Bridge_Server Metrics Audit_Log
begin

text \<open>
  The HTTP endpoints (\<^verbatim>\<open>src/health/health.go\<close>).  A request is its cleaned path and the parsed query
  parameters; a response is the status code, the headers the handler sets and the body.  A handler
  takes and returns the world of the server and the log.  Rendering of the metrics registry is a
  parameter; listening is represented by the error it returns.
\<close>

section \<open>Responses\<close>

record http_response =
  Code :: nat
  Headers :: "(string \<times> string) list"
  Body :: string

definition StatusOK :: nat where "StatusOK = 200"

definition StatusInternalServerError :: nat where "StatusInternalServerError = 500"

definition StatusServiceUnavailable :: nat where "StatusServiceUnavailable = 503"

definition http_Error :: "string \<Rightarrow> nat \<Rightarrow> http_response" where
  "http_Error msg c =
     \<lparr>Code = c, Headers = [(''Content-Type'', ''text/plain; charset=utf-8''), (''X-Content-Type-Options'', ''nosniff'')],
      Body = msg @ [CHR 0x0A]\<rparr>"

text \<open>The string encoder of \<^verbatim>\<open>encoding/json\<close> with HTML escaping, byte by byte.\<close>

function json_string :: "string \<Rightarrow> string" where
  "json_string [] = []"
| "json_string (c # r) =
     (if code c < 0x80 then json_escape c @ json_string r
      else let n = utf8_len (c # r) in
        if n = 0 then CHR 0x5C # ''ufffd'' @ json_string r
        else if take 3 (c # r) = [CHR 0xE2, CHR 0x80, CHR 0xA8] then CHR 0x5C # ''u2028'' @ json_string (drop n (c # r))
        else if take 3 (c # r) = [CHR 0xE2, CHR 0x80, CHR 0xA9] then CHR 0x5C # ''u2029'' @ json_string (drop n (c # r))
        else take n (c # r) @ json_string (drop n (c # r)))"
  by pat_completeness auto
termination by (relation "measure length") auto

definition encode_address :: "string \<Rightarrow> string" where
  "encode_address addr = ''{'' @ json_quote ''address'' @ '':'' @ [CHR 0x22] @ json_string addr @ [CHR 0x22] @ ''}'' @ [CHR 0x0A]"

text \<open>The text of an error of \<open>Bech32Address\<close>.\<close>

fun address_text :: "address_error \<Rightarrow> string" where
  "address_text PrefixEmpty = ''prefix must not be empty''"
| "address_text (PubKeyErr e) = ''get public key: '' @ e"
| "address_text (PubKeyLength n) = ''invalid public key length '' @ format_nat n @ '', expected 33''"
| "address_text (Bech32Err e) = ''bech32 encode: '' @ e"

section \<open>Handlers\<close>

type_synonym health_state = "world \<times> log_record list"

definition query_get :: "(string \<times> string) list \<Rightarrow> string \<Rightarrow> string" where
  "query_get q k = (case map_of q k of None \<Rightarrow> '''' | Some v \<Rightarrow> v)"

definition address :: "'ty env \<Rightarrow> Logger \<Rightarrow> (string \<times> string) list \<Rightarrow> health_state \<Rightarrow> http_response \<times> health_state" where
  "address E l query st =
     (case st of (w, out) \<Rightarrow>
      let p = query_get query ''prefix'';
          prefix = (if p = '''' then ''tellor'' else p)
      in (case Bech32Address E prefix w of
            (Inl e, w1) \<Rightarrow>
              (http_Error (''derive address: '' @ address_text e) StatusInternalServerError,
               (w1, Error l ''address endpoint failed'' [(''error'', VStr (address_text e))] out))
          | (Inr addr, w1) \<Rightarrow>
              (\<lparr>Code = StatusOK, Headers = [(''Content-Type'', ''application/json'')], Body = encode_address addr\<rparr>, (w1, out))))"

definition liveness :: "health_state \<Rightarrow> http_response \<times> health_state" where
  "liveness st = (\<lparr>Code = StatusOK, Headers = [], Body = ''ok''\<rparr>, st)"

definition readiness :: "'ty env \<Rightarrow> Logger \<Rightarrow> health_state \<Rightarrow> http_response \<times> health_state" where
  "readiness E l st =
     (case st of (w, out) \<Rightarrow>
      case get_public_key E w of
        (Inl e, w1) \<Rightarrow>
          (http_Error (''signer not ready: '' @ e) StatusServiceUnavailable,
           (w1, Warn l ''readiness check failed'' [(''error'', VStr e)] out))
      | (Inr _, w1) \<Rightarrow> (\<lparr>Code = StatusOK, Headers = [], Body = ''ok''\<rparr>, (w1, out)))"

definition metricsHandler :: "(Metrics \<Rightarrow> http_response) \<Rightarrow> Metrics \<Rightarrow> health_state \<Rightarrow> http_response \<times> health_state" where
  "metricsHandler render m st = (render m, st)"

text \<open>The mux that \<^verbatim>\<open>New\<close> builds; the method of the request is not looked at.\<close>

definition health_mux ::
    "'ty env \<Rightarrow> Logger \<Rightarrow> (Metrics \<Rightarrow> http_response) \<Rightarrow> Metrics \<Rightarrow> string \<Rightarrow> (string \<times> string) list
      \<Rightarrow> health_state \<Rightarrow> http_response \<times> health_state" where
  "health_mux E l render m path query st =
     (if path = ''/healthz'' then liveness st
      else if path = ''/readyz'' then readiness E l st
      else if path = ''/metrics'' then metricsHandler render m st
      else if path = ''/address'' then address E l query st
      else (http_Error ''404 page not found'' 404, st))"

datatype listen_error = ErrServerClosed | ListenErr string

definition health_Start :: "Logger \<Rightarrow> string \<Rightarrow> listen_error option \<Rightarrow> log_record list \<Rightarrow> string option \<times> log_record list" where
  "health_Start l addr served out =
     (let out1 = Info l ''health check server listening'' [(''addr'', VStr addr)] out
      in (case served of
            Some (ListenErr e) \<Rightarrow> (Some (''health server error: '' @ e), out1)
          | _ \<Rightarrow> (None, out1)))"

section \<open>Lemmas\<close>

lemma Bech32Address_world:
  "Bech32Address E p w = (r, w') \<Longrightarrow> w_os w' = w_os w \<and> sign_log w' = sign_log w"
  by (auto simp: Bech32Address_def get_public_key_def split: if_splits sum.splits)

lemma json_string_plain: "list_all plain_char s \<Longrightarrow> json_string s = s"
  by (induction s) (simp_all add: json_escape_plain, simp add: plain_char_def)

lemma json_string_ascii: "list_all (\<lambda>c. code c < 0x80) s \<Longrightarrow> [CHR 0x22] @ json_string s @ [CHR 0x22] = json_quote s"
proof -
  assume "list_all (\<lambda>c. code c < 0x80) s"
  then have "json_string s = concat (map json_escape s)" by (induction s) simp_all
  then show ?thesis by (simp add: json_quote_def)
qed

section \<open>Properties\<close>

text \<open>Claim C35: the endpoints without authentication cannot sign.  Whatever path and query a client
  sends, nothing is handed to the backend for signing and no file changes; liveness never fails, and
  readiness is 200 exactly when the backend returns a public key and 503 otherwise.\<close>

theorem health_never_signs:
  assumes "health_mux E l render m path query (w, out) = (resp, (w', out'))"
  shows "sign_log w' = sign_log w \<and> w_os w' = w_os w
    \<and> (path = ''/healthz'' \<longrightarrow> Code resp = 200)
    \<and> (path = ''/readyz'' \<longrightarrow> Code resp = (if ok (backendPublicKey E (pub_calls w)) then 200 else 503))"
proof -
  consider (healthz) "path = ''/healthz''" | (readyz) "path = ''/readyz''" | (metrics) "path = ''/metrics''"
    | (addr) "path = ''/address''" | (none) "path \<notin> {''/healthz'', ''/readyz'', ''/metrics'', ''/address''}" by blast
  then show ?thesis
  proof cases
    case readyz
    with assms show ?thesis
      by (auto simp: health_mux_def readiness_def get_public_key_def http_Error_def StatusOK_def
          StatusServiceUnavailable_def split: sum.splits)
  next
    case addr
    with assms show ?thesis
      by (auto simp: health_mux_def address_def Let_def dest!: Bech32Address_world split: sum.splits prod.splits)
  qed (use assms in \<open>auto simp: health_mux_def liveness_def metricsHandler_def StatusOK_def\<close>)
qed

text \<open>The demo signer of the server answers with its key and its address.\<close>

definition demo_logger :: Logger where
  "demo_logger = \<lparr>log_level = LevelInfo, add_source = False, log_format = JSONHandler\<rparr>"

theorem health_never_signs_witness:
  "sign_log (fst (snd (health_mux demo_env demo_logger (\<lambda>m. http_Error '''' 200) init_metrics ''/readyz'' [] (demo_world, []))))
     = sign_log demo_world"
proof -
  obtain resp w' out' where r: "health_mux demo_env demo_logger (\<lambda>m. http_Error '''' 200) init_metrics ''/readyz'' [] (demo_world, [])
      = (resp, (w', out'))"
    by (metis prod.collapse)
  from health_never_signs [OF r] r show ?thesis by simp
qed

text \<open>\<^verbatim>\<open>/address\<close> and the RPC \<^verbatim>\<open>GetAddress\<close> serve the same value.  For a prefix that is given,
  the endpoint answers 200 exactly when the RPC succeeds, with the JSON encoding of the address the RPC
  returns, and otherwise 500; both leave the same world.\<close>

theorem address_endpoint_agrees:
  assumes "prefix \<noteq> ''''"
  shows "\<exists>resp res w'. fst (address E l [(''prefix'', prefix)] (w, out)) = resp
    \<and> fst (snd (address E l [(''prefix'', prefix)] (w, out))) = w'
    \<and> GetAddress E prefix (srv, w) = (res, (srv, w'))
    \<and> (case res of
         Returns (Inr (GetAddressResponse addr)) \<Rightarrow> Code resp = 200 \<and> Body resp = encode_address addr
       | _ \<Rightarrow> Code resp = 500)"
proof -
  obtain r w' where b: "Bech32Address E prefix w = (r, w')" by force
  show ?thesis
    using assms b
    by (cases r) (auto simp: address_def GetAddress_def query_get_def Let_def http_Error_def StatusOK_def
        StatusInternalServerError_def)
qed

theorem address_endpoint_agrees_witness:
  "\<exists>res w'. GetAddress demo_env ''tellor'' (demo_server, demo_world) = (res, (demo_server, w'))
    \<and> fst (snd (address demo_env demo_logger [(''prefix'', ''tellor'')] (demo_world, []))) = w'"
  using address_endpoint_agrees [of "''tellor''" demo_env demo_logger demo_world "[]" demo_server] by auto

end
