(* ===== verification/Transport.thy ===== *)
theory Transport
  imports Go_Os
begin

text \<open>
  Transport credentials (\<^verbatim>\<open>src/api/tls/tls.go\<close>) and what Go's \<^verbatim>\<open>crypto/tls\<close> documents about a
  server with such a configuration.  Parsing of keys and certificates and the verification of a
  chain against a pool are the parameters of \<open>x509\<close>; a pool is the list of certificates it holds.
\<close>

section \<open>Configurations\<close>

record ('cert, 'ca) x509 =
  x509KeyPair :: "string \<Rightarrow> string \<Rightarrow> string + 'cert"
  pemCerts :: "string \<Rightarrow> 'ca list"
  chainVerifies :: "'ca list \<Rightarrow> 'cert \<Rightarrow> bool"

datatype ClientAuthType =
    NoClientCert
  | RequestClientCert
  | RequireAnyClientCert
  | VerifyClientCertIfGiven
  | RequireAndVerifyClientCert

definition VersionTLS13 :: nat where
  "VersionTLS13 = 0x0304"

record ('cert, 'ca) tls_config =
  Certificates :: "'cert list"
  ClientAuth :: ClientAuthType
  ClientCAs :: "'ca list option"
  RootCAs :: "'ca list option"
  ServerName :: string
  MinVersion :: nat

datatype tls_error =
    KeyPairRead os_error
  | KeyPairParse string
  | CARead os_error
  | CAEmpty string
  | ServerNameEmpty

text \<open>\<^verbatim>\<open>tls.LoadX509KeyPair\<close>.\<close>

definition LoadX509KeyPair ::
    "('cert, 'ca) x509 \<Rightarrow> string \<Rightarrow> string \<Rightarrow> 'a os_scheme \<Rightarrow> (tls_error + 'cert) \<times> 'a os_scheme" where
  "LoadX509KeyPair X certFile keyFile s =
     (case os_read_file certFile s of
        (Inl e, s1) \<Rightarrow> (Inl (KeyPairRead e), s1)
      | (Inr certPEM, s1) \<Rightarrow>
          (case os_read_file keyFile s1 of
             (Inl e, s2) \<Rightarrow> (Inl (KeyPairRead e), s2)
           | (Inr keyPEM, s2) \<Rightarrow>
               (case x509KeyPair X certPEM keyPEM of
                  Inl e \<Rightarrow> (Inl (KeyPairParse e), s2)
                | Inr c \<Rightarrow> (Inr c, s2))))"

definition loadCACert :: "('cert, 'ca) x509 \<Rightarrow> string \<Rightarrow> 'a os_scheme \<Rightarrow> (tls_error + 'ca list) \<times> 'a os_scheme" where
  "loadCACert X path s =
     (case os_read_file path s of
        (Inl e, s1) \<Rightarrow> (Inl (CARead e), s1)
      | (Inr caPEM, s1) \<Rightarrow>
          (let pool = pemCerts X caPEM
           in if pool = [] then (Inl (CAEmpty path), s1) else (Inr pool, s1)))"

text \<open>
  \<^verbatim>\<open>credentials.NewTLS\<close> hands the configuration on to \<^verbatim>\<open>crypto/tls\<close>; the result here is that configuration.  What
  gRPC adds to the handshake by itself, the ALPN protocol \<^verbatim>\<open>h2\<close>, is not part of the decision modelled below.
\<close>

definition NewServerCredentials ::
    "('cert, 'ca) x509 \<Rightarrow> string \<Rightarrow> string \<Rightarrow> string \<Rightarrow> 'a os_scheme
      \<Rightarrow> (tls_error + ('cert, 'ca) tls_config) \<times> 'a os_scheme" where
  "NewServerCredentials X caCertPath serverCertPath serverKeyPath s =
     (case LoadX509KeyPair X serverCertPath serverKeyPath s of
        (Inl e, s1) \<Rightarrow> (Inl e, s1)
      | (Inr serverCert, s1) \<Rightarrow>
          (case loadCACert X caCertPath s1 of
             (Inl e, s2) \<Rightarrow> (Inl e, s2)
           | (Inr caPool, s2) \<Rightarrow>
               (Inr \<lparr>Certificates = [serverCert], ClientAuth = RequireAndVerifyClientCert, ClientCAs = Some caPool,
                     RootCAs = None, ServerName = '''', MinVersion = VersionTLS13\<rparr>, s2)))"

definition NewClientCredentials ::
    "('cert, 'ca) x509 \<Rightarrow> string \<Rightarrow> string \<Rightarrow> string \<Rightarrow> string \<Rightarrow> 'a os_scheme
      \<Rightarrow> (tls_error + ('cert, 'ca) tls_config) \<times> 'a os_scheme" where
  "NewClientCredentials X caCertPath clientCertPath clientKeyPath serverName s =
     (case LoadX509KeyPair X clientCertPath clientKeyPath s of
        (Inl e, s1) \<Rightarrow> (Inl e, s1)
      | (Inr clientCert, s1) \<Rightarrow>
          (case loadCACert X caCertPath s1 of
             (Inl e, s2) \<Rightarrow> (Inl e, s2)
           | (Inr caPool, s2) \<Rightarrow>
               if serverName = '''' then (Inl ServerNameEmpty, s2)
               else
                 (Inr \<lparr>Certificates = [clientCert], ClientAuth = NoClientCert, ClientCAs = None,
                       RootCAs = Some caPool, ServerName = serverName, MinVersion = VersionTLS13\<rparr>, s2)))"

section \<open>The handshake\<close>

text \<open>
  What a server with a configuration accepts, as documented for \<^verbatim>\<open>tls.ClientAuthType\<close> and
  \<^verbatim>\<open>tls.Config.MinVersion\<close>: a version both sides support, not below the minimum, and the demanded
  client certificate.  No roots stand for the host's own, whose verdict is \<open>hostRoots\<close>.
\<close>

record 'cert client_side =
  offeredVersions :: "nat list"
  clientCert :: "'cert option"

definition cert_verifies :: "('cert, 'ca) x509 \<Rightarrow> ('cert \<Rightarrow> bool) \<Rightarrow> 'ca list option \<Rightarrow> 'cert \<Rightarrow> bool" where
  "cert_verifies X hostRoots pool c = (case pool of None \<Rightarrow> hostRoots c | Some cas \<Rightarrow> chainVerifies X cas c)"

definition client_auth_ok ::
    "('cert, 'ca) x509 \<Rightarrow> ('cert \<Rightarrow> bool) \<Rightarrow> ('cert, 'ca) tls_config \<Rightarrow> 'cert option \<Rightarrow> bool" where
  "client_auth_ok X hostRoots cfg cert =
     (case ClientAuth cfg of
        NoClientCert \<Rightarrow> True
      | RequestClientCert \<Rightarrow> True
      | RequireAnyClientCert \<Rightarrow> cert \<noteq> None
      | VerifyClientCertIfGiven \<Rightarrow> (case cert of None \<Rightarrow> True | Some c \<Rightarrow> cert_verifies X hostRoots (ClientCAs cfg) c)
      | RequireAndVerifyClientCert \<Rightarrow> (case cert of None \<Rightarrow> False | Some c \<Rightarrow> cert_verifies X hostRoots (ClientCAs cfg) c))"

definition server_accepts ::
    "('cert, 'ca) x509 \<Rightarrow> ('cert \<Rightarrow> bool) \<Rightarrow> ('cert, 'ca) tls_config \<Rightarrow> 'cert client_side \<Rightarrow> bool" where
  "server_accepts X hostRoots cfg cl \<longleftrightarrow>
     list_ex (\<lambda>v. MinVersion cfg \<le> v \<and> v \<le> VersionTLS13) (offeredVersions cl)
   \<and> client_auth_ok X hostRoots cfg (clientCert cl)"

section \<open>Lemmas\<close>

lemma LoadX509KeyPair_files: "LoadX509KeyPair X c k s = (r, s') \<Longrightarrow> files s' = files s"
  by (auto simp: LoadX509KeyPair_def os_read_file_def split: if_splits sum.splits prod.splits)

lemma NewServerCredentials_config:
  assumes "NewServerCredentials X ca c k s = (Inr cfg, s')"
  obtains d where "content_at ca s = Some d" "pemCerts X d \<noteq> []" "ClientAuth cfg = RequireAndVerifyClientCert"
    "ClientCAs cfg = Some (pemCerts X d)" "MinVersion cfg = VersionTLS13"
proof -
  obtain sc s1 pool where s1: "LoadX509KeyPair X c k s = (Inr sc, s1)" and p: "loadCACert X ca s1 = (Inr pool, s')"
      and cfg: "cfg = \<lparr>Certificates = [sc], ClientAuth = RequireAndVerifyClientCert, ClientCAs = Some pool,
                     RootCAs = None, ServerName = '''', MinVersion = VersionTLS13\<rparr>"
    using assms by (auto simp: NewServerCredentials_def split: sum.splits prod.splits)
  from p obtain d s2 where d: "os_read_file ca s1 = (Inr d, s2)" "pool = pemCerts X d" "pool \<noteq> []"
    by (auto simp: loadCACert_def Let_def split: if_splits sum.splits prod.splits)
  have "content_at ca s1 = content_at ca s" using LoadX509KeyPair_files [OF s1] by (simp add: content_at_def)
  with d(1) [unfolded os_read_file_Inr] d(2,3) cfg that [of d] show ?thesis by simp
qed

section \<open>Property\<close>

text \<open>Claim C34: a server with these credentials talks only to clients of the CA.  If the credentials
  could be built, the pool is the non-empty list of certificates in the CA file, and a handshake is
  accepted exactly when the client offers TLS 1.3 and presents a certificate that verifies against
  that pool.\<close>

theorem mtls_required:
  assumes "NewServerCredentials X ca c k s = (Inr cfg, s')"
  shows "\<exists>d. content_at ca s = Some d \<and> pemCerts X d \<noteq> []
    \<and> (\<forall>cl. server_accepts X hostRoots cfg cl \<longleftrightarrow>
          VersionTLS13 \<in> set (offeredVersions cl) \<and> (\<exists>cert. clientCert cl = Some cert \<and> chainVerifies X (pemCerts X d) cert))"
proof -
  obtain d where d: "content_at ca s = Some d" "pemCerts X d \<noteq> []" "ClientAuth cfg = RequireAndVerifyClientCert"
      "ClientCAs cfg = Some (pemCerts X d)" "MinVersion cfg = VersionTLS13"
    using assms by (rule NewServerCredentials_config)
  have "server_accepts X hostRoots cfg cl \<longleftrightarrow>
      VersionTLS13 \<in> set (offeredVersions cl) \<and> (\<exists>cert. clientCert cl = Some cert \<and> chainVerifies X (pemCerts X d) cert)" for cl
    using d by (auto simp: server_accepts_def client_auth_ok_def cert_verifies_def list_ex_iff split: option.splits)
  with d(1,2) show ?thesis by blast
qed

definition demo_x509 :: "(nat, nat) x509" where
  "demo_x509 =
     \<lparr>x509KeyPair = (\<lambda>c k. if c = ''crt'' \<and> k = ''key'' then Inr 1 else Inl ''mismatch''),
      pemCerts = (\<lambda>d. if d = ''ca'' then [10] else []), chainVerifies = (\<lambda>cas c. (c + 8) \<in> set cas)\<rparr>"

definition demo_tls_os :: os where
  "demo_tls_os =
     \<lparr>files = [''ca.pem'' \<mapsto> FileNode perm_0600 ''ca'', ''s.pem'' \<mapsto> FileNode perm_0600 ''crt'', ''s.key'' \<mapsto> FileNode perm_0600 ''key''],
      faults = (\<lambda>_. False), short = (\<lambda>_. 0), rnd = (\<lambda>_. 0), tick = 0\<rparr>"

theorem mtls_required_witness:
  "\<exists>cfg s'. NewServerCredentials demo_x509 ''ca.pem'' ''s.pem'' ''s.key'' demo_tls_os = (Inr cfg, s')
    \<and> server_accepts demo_x509 (\<lambda>_. True) cfg \<lparr>offeredVersions = [0x0303, 0x0304], clientCert = Some 2\<rparr>
    \<and> \<not> server_accepts demo_x509 (\<lambda>_. True) cfg \<lparr>offeredVersions = [0x0304], clientCert = None\<rparr>
    \<and> \<not> server_accepts demo_x509 (\<lambda>_. True) cfg \<lparr>offeredVersions = [0x0303], clientCert = Some 2\<rparr>"
proof -
  obtain cfg s' where cfg: "NewServerCredentials demo_x509 ''ca.pem'' ''s.pem'' ''s.key'' demo_tls_os = (Inr cfg, s')"
    by (simp add: NewServerCredentials_def LoadX509KeyPair_def loadCACert_def os_read_file_def demo_tls_os_def demo_x509_def
        fails_def step_def Let_def)
  from mtls_required [OF this, of "\<lambda>_. True"] cfg show ?thesis
    by (auto simp: demo_tls_os_def content_at_def demo_x509_def VersionTLS13_def)
qed

end
