(* ===== verification/Daemon.thy ===== *)
theory Daemon
  imports Interleaving Privval Key_Files State_Files Health Transport
begin

text \<open>
  The program (\<^verbatim>\<open>src/cmd/bridge-signer\<close>): the command tree with its checks before a command runs
  (\<^verbatim>\<open>cmd_root.go\<close>), the start of the daemon, which wires the components together, and its shutdown
  (\<^verbatim>\<open>cmd_start.go\<close>), and the exit status (\<^verbatim>\<open>main.go\<close>).

  \<open>platform\<close> collects what lies outside the repository.  The signals and the ends of the servers
  are arguments: which of the channels a \<^verbatim>\<open>select\<close> found ready.  The interference of a signal with
  the construction of the backend shows as an error the backend returns.
\<close>

section \<open>The command tree\<close>

text \<open>A command is the list of names from itself up to the root.\<close>

definition needsKeyringDir :: "string list \<Rightarrow> bool" where
  "needsKeyringDir names = (\<not> list_ex (\<lambda>n. n = ''start'' \<or> n = ''init-state'') names)"

text \<open>\<open>None\<close>: the command has no such flag; the flag of the backend carries whether it was given.\<close>

record cmd_flags =
  keyringBackendFlag :: "(string \<times> bool) option"
  keyringDirFlag :: "string option"

datatype cmd_error = BackendUnsupported string | NoKeyringDirFlag | KeyringDirRequired

definition PersistentPreRunE :: "string list \<Rightarrow> cmd_flags \<Rightarrow> cmd_error + cmd_flags" where
  "PersistentPreRunE names fl =
     (let checked =
        (case keyringBackendFlag fl of
           None \<Rightarrow> Inr fl
         | Some (v, changed) \<Rightarrow>
             if changed \<and> v \<noteq> ''file'' then Inl (BackendUnsupported v)
             else Inr (fl\<lparr>keyringBackendFlag := Some (''file'', changed)\<rparr>))
      in (case checked of
            Inl e \<Rightarrow> Inl e
          | Inr fl' \<Rightarrow>
              if needsKeyringDir names then
                (case keyringDirFlag fl' of
                   None \<Rightarrow> Inl NoKeyringDirFlag
                 | Some d \<Rightarrow> if d = '''' then Inl KeyringDirRequired else Inr fl')
              else Inr fl'))"

text \<open>The subcommands of \<^verbatim>\<open>keys\<close>, from those of the SDK, and of the root.\<close>

definition bridgeSignerKeysCmd :: "string list \<Rightarrow> string list" where
  "bridgeSignerKeysCmd subs = filter (\<lambda>n. n \<notin> {''export'', ''import'', ''migrate''}) subs"

definition newRootCmd :: "string list \<Rightarrow> (string \<times> string list) list" where
  "newRootCmd subs = [(''keys'', bridgeSignerKeysCmd subs @ [''export'']), (''start'', []), (''init-state'', [])]"

section \<open>Start\<close>

record ('ty, 'key, 'kr, 'any, 'ck, 'cert, 'ca) platform =
  yamlUnmarshal :: "string \<Rightarrow> string + AppConfig"
  libraries :: "'ty env"
  backends :: "('key, 'kr, 'any) backend_env"
  isCanceled :: "key_error \<Rightarrow> bool"
  signErrorText :: "sign_error \<Rightarrow> string"
  addressHex :: "bytes \<Rightarrow> string"
  keyDecoder :: key_decoder
  freshConnKey :: bytes
  pvLib :: "'ck pv_lib"
  cometLib :: "'ck FilePV cmt"
  x509Lib :: "('cert, 'ca) x509"

datatype start_error =
    LoadConfig config_error
  | InitLogger log_error
  | InitSigner key_error
  | GetPubKeyErr string
  | DecompressErr string
  | ConnKeyErr conn_error
  | StateFileErr state_error
  | ValidatorKey pv_error
  | ValidatorAddr string
  | FailoverErr config_error
  | TLSCredentials tls_error
  | BuildServer new_error

record 'ck consensus_setup =
  connKey :: bytes
  valAddr :: bytes
  targets :: "string list"
  consensus_state :: "'ck FilePV consensus"

datatype ('cert, 'ca) transport = InsecureTransport | TLSTransport "('cert, 'ca) tls_config"

record ('key, 'ck, 'cert, 'ca) daemon =
  d_config :: AppConfig
  d_logger :: Logger
  d_signer :: "'key Signer"
  d_consensus :: "'ck consensus_setup option"
  d_transport :: "('cert, 'ca) transport"
  d_server :: Server

datatype 'd startup = StartPanics | StartCanceled | StartFails start_error | Started 'd

definition on_os :: "(os \<Rightarrow> 'r \<times> os) \<Rightarrow> world \<Rightarrow> 'r \<times> world" where
  "on_os f w = (case f (w_os w) of (r, o') \<Rightarrow> (r, w\<lparr>w_os := o'\<rparr>))"

text \<open>The server's view of the backend behind the \<^verbatim>\<open>Signer\<close> interface.\<close>

definition signer_env :: "('ty, 'key, 'kr, 'any, 'ck, 'cert, 'ca) platform \<Rightarrow> 'key Signer \<Rightarrow> 'ty env" where
  "signer_env P bk =
     (libraries P)\<lparr>backendPublicKey := \<lambda>_. Inr (Signer_GetPublicKey bk),
       backendSignRaw := \<lambda>n d.
         (case Signer_SignRaw (backends P) n bk d of
            Panics \<Rightarrow> Panics
          | Returns (Inl e) \<Rightarrow> Returns (Inl (signErrorText P e))
          | Returns (Inr sg) \<Rightarrow> Returns (Inr sg))\<rparr>"

definition open_signer ::
    "('ty, 'key, 'kr, 'any, 'ck, 'cert, 'ca) platform \<Rightarrow> AppConfig \<Rightarrow> os \<Rightarrow> (key_error + 'key Signer) go \<times> os" where
  "open_signer P cfg s =
     (case init_registry of
        Panics \<Rightarrow> (Panics, s)
      | Returns reg \<Rightarrow> NewSigner reg (Backend (SignerCfg cfg)) (backends P) (ToMap (SignerCfg cfg)) s)"

definition load_validator ::
    "('ty, 'key, 'kr, 'any, 'ck, 'cert, 'ca) platform \<Rightarrow> ConsensusConfig \<Rightarrow> os
      \<Rightarrow> (start_error + bytes \<times> 'ck FilePV) \<times> os" where
  "load_validator P c s =
     (case GenOrLoadConnKey (keyDecoder P) (freshConnKey P) (ConnKeyFile c) s of
        (Inl e, s1) \<Rightarrow> (Inl (ConnKeyErr e), s1)
      | (Inr key, s1) \<Rightarrow>
          (case RequireStateFile (StateFile c) s1 of
             (Inl e, s2) \<Rightarrow> (Inl (StateFileErr e), s2)
           | (Inr _, s2) \<Rightarrow>
               (case LoadCometFilePV (pvLib P) (KeyFile c) (StateFile c) s2 of
                  (Inl e, s3) \<Rightarrow> (Inl (ValidatorKey e), s3)
                | (Inr pv, s3) \<Rightarrow> (Inr (key, pv), s3))))"

definition start_arbiter :: "ConsensusConfig \<Rightarrow> int \<Rightarrow> PrimaryArbiter option" where
  "start_arbiter c failoverTimeout =
     (if failoverTimeout > 0
      then Some (NewPreferringPrimaryArbiter failoverTimeout (if PreferTargetOrder c then TargetList c else []))
      else None)"

definition start_consensus ::
    "('ty, 'key, 'kr, 'any, 'ck, 'cert, 'ca) platform \<Rightarrow> AppConfig \<Rightarrow> os
      \<Rightarrow> (start_error + 'ck consensus_setup option) \<times> os" where
  "start_consensus P cfg s =
     (let c = Consensus cfg in
      if \<not> Enabled c then (Inr None, s)
      else
        (case load_validator P c s of
           (Inl e, s1) \<Rightarrow> (Inl e, s1)
         | (Inr (key, pv), s1) \<Rightarrow>
             (case ValidatorAddressForHandler (cometLib P) (inner (NewLockedPrivValidator pv)) of
                Inl e \<Rightarrow> (Inl (ValidatorAddr e), s1)
              | Inr addr \<Rightarrow>
                  (case FailoverTimeout c of
                     Inl e \<Rightarrow> (Inl (FailoverErr e), s1)
                   | Inr t \<Rightarrow>
                       (Inr (Some \<lparr>connKey = key, valAddr = addr, targets = TargetList c,
                          consensus_state = \<lparr>arbiter = start_arbiter c t, gauges = init_metrics,
                            pval = inner (NewLockedPrivValidator pv)\<rparr>\<rparr>), s1)))))"

definition build_transport ::
    "('ty, 'key, 'kr, 'any, 'ck, 'cert, 'ca) platform \<Rightarrow> TLSConfig \<Rightarrow> os
      \<Rightarrow> (start_error + ('cert, 'ca) transport) \<times> os" where
  "build_transport P t s =
     (if Insecure t then (Inr InsecureTransport, s)
      else
        (case NewServerCredentials (x509Lib P) (CACert t) (ServerCert t) (ServerKey t) s of
           (Inl e, s1) \<Rightarrow> (Inl (TLSCredentials e), s1)
         | (Inr tc, s1) \<Rightarrow> (Inr (TLSTransport tc), s1)))"

definition server_config :: "AppConfig \<Rightarrow> Config" where
  "server_config cfg =
     \<lparr>AllowedMsgTypes = CfgAllowedMsgTypes (ServerCfg cfg), ConfigChainID = CfgChainID cfg,
      CheckpointGuardStatePath = GuardStatePath cfg, EnabledRPCs = EnabledRPCsFromConfig (CfgEnabledRPCs (ServerCfg cfg))\<rparr>"

text \<open>The messages about consensus signing; a duration is logged as its number of nanoseconds here.\<close>

definition consensus_log :: "Logger \<Rightarrow> AppConfig \<Rightarrow> 'ck consensus_setup option \<Rightarrow> log_record list \<Rightarrow> log_record list" where
  "consensus_log l cfg cs out =
     (case cs of
        None \<Rightarrow> out
      | Some st \<Rightarrow>
          (let out1 =
             (case arbiter (consensus_state st) of
                None \<Rightarrow> out
              | Some a \<Rightarrow>
                  Info l ''consensus primary election enabled (active-passive)''
                    [(''failover_timeout'', VInt (timeout a)),
                     (''prefer_target_order'', VBool (PreferTargetOrder (Consensus cfg)))] out)
           in Info l ''consensus signer started''
                [(''chain_id'', VStr (CfgChainID cfg)), (''targets'', VStr (Targets (Consensus cfg)))] out1))"

text \<open>\<^verbatim>\<open>primaryHost\<close>, which the gate of the gRPC server asks during each call.\<close>

definition primary_host_of :: "'ck consensus_setup option \<Rightarrow> string option" where
  "primary_host_of cs = (case cs of None \<Rightarrow> None | Some st \<Rightarrow> map_option PrimaryHost (arbiter (consensus_state st)))"

text \<open>From the transport credentials to the built server; the log is returned beside the world.\<close>

definition start_server ::
    "('ty, 'key, 'kr, 'any, 'ck, 'cert, 'ca) platform \<Rightarrow> AppConfig \<Rightarrow> Logger \<Rightarrow> 'key Signer \<Rightarrow> 'ck consensus_setup option
      \<Rightarrow> log_record list \<Rightarrow> world \<Rightarrow> ('key, 'ck, 'cert, 'ca) daemon startup \<times> world \<times> log_record list" where
  "start_server P cfg l bk cs out w =
     (case on_os (build_transport P (TLS cfg)) w of
        (Inl e, w1) \<Rightarrow> (StartFails e, w1, out)
      | (Inr creds, w1) \<Rightarrow>
          (case New (signer_env P bk) (server_config cfg) w1 of
             (Inl e, w2) \<Rightarrow> (StartFails (BuildServer e), w2, out)
           | (Inr srv, w2) \<Rightarrow>
               (Started \<lparr>d_config = cfg, d_logger = l, d_signer = bk, d_consensus = cs, d_transport = creds, d_server = srv\<rparr>,
                w2, AuditStartup l (Backend (SignerCfg cfg)) (ListenAddr (ServerCfg cfg)) out)))"

definition start_with ::
    "('ty, 'key, 'kr, 'any, 'ck, 'cert, 'ca) platform \<Rightarrow> AppConfig \<Rightarrow> Logger \<Rightarrow> 'key Signer
      \<Rightarrow> world \<Rightarrow> ('key, 'ck, 'cert, 'ca) daemon startup \<times> world \<times> log_record list" where
  "start_with P cfg l bk w =
     (case get_public_key (signer_env P bk) w of
        (Inl e, w1) \<Rightarrow> (StartFails (GetPubKeyErr e), w1, [])
      | (Inr pk, w1) \<Rightarrow>
          (case decompressPubkey (libraries P) pk of
             Inl e \<Rightarrow> (StartFails (DecompressErr e), w1, [])
           | Inr ecdsaPub \<Rightarrow>
               (let ethAddr = addressHex P (pubkeyToAddress (libraries P) ecdsaPub);
                    out = Info l ''signer initialized''
                      [(''backend'', VStr (Backend (SignerCfg cfg))), (''eth_address'', VStr ethAddr)] []
                in (case on_os (start_consensus P cfg) w1 of
                      (Inl e, w2) \<Rightarrow> (StartFails e, w2, out)
                    | (Inr cs, w2) \<Rightarrow> start_server P cfg l bk cs (consensus_log l cfg cs out) w2))))"

definition runDaemon_start ::
    "('ty, 'key, 'kr, 'any, 'ck, 'cert, 'ca) platform \<Rightarrow> string
      \<Rightarrow> world \<Rightarrow> ('key, 'ck, 'cert, 'ca) daemon startup \<times> world \<times> log_record list" where
  "runDaemon_start P configPath w =
     (case on_os (Load (yamlUnmarshal P) configPath) w of
        (Inl e, w1) \<Rightarrow> (StartFails (LoadConfig e), w1, [])
      | (Inr cfg, w1) \<Rightarrow>
          (case New_logger (Level (Log cfg)) (Format (Log cfg)) of
             Inl e \<Rightarrow> (StartFails (InitLogger e), w1, [])
           | Inr l \<Rightarrow>
               (case on_os (open_signer P cfg) w1 of
                  (Panics, w2) \<Rightarrow> (StartPanics, w2, [])
                | (Returns (Inl e), w2) \<Rightarrow>
                    if isCanceled P e then (StartCanceled, w2, Info l ''startup canceled'' [] [])
                    else (StartFails (InitSigner e), w2, [])
                | (Returns (Inr bk), w2) \<Rightarrow> start_with P cfg l bk w2)))"

section \<open>Serving and shutdown\<close>

text \<open>\<open>listen\<close> and \<open>served\<close> are the errors of \<^verbatim>\<open>net.Listen\<close> and \<^verbatim>\<open>grpcServer.Serve\<close>.\<close>

definition ServeOn :: "string option \<Rightarrow> string option" where
  "ServeOn served = (case served of Some e \<Rightarrow> Some (''gRPC server exited with error: '' @ e) | None \<Rightarrow> None)"

definition Start :: "Logger \<Rightarrow> string \<Rightarrow> string option \<Rightarrow> string option \<Rightarrow> log_record list \<Rightarrow> string option \<times> log_record list" where
  "Start l addr listen served out =
     (case listen of
        Some e \<Rightarrow> (Some (''failed to listen on '' @ [CHR 0x22] @ addr @ [CHR 0x22] @ '': '' @ e), out)
      | None \<Rightarrow>
          (let out1 = Info l ''gRPC server listening'' [(''addr'', VStr addr)] out in
           (case served of
              Some e \<Rightarrow> (Some (''gRPC server exited with error: '' @ e), out1)
            | None \<Rightarrow> (None, out1))))"

definition Stop :: "Logger \<Rightarrow> log_record list \<Rightarrow> log_record list" where
  "Stop l out = AuditShutdown l out"

datatype exit_event = GotSignal string | ServerExit string "string option"

text \<open>How the shutdown ended; a second signal may come before the stopping goroutine has logged.\<close>

datatype stop_event = StopsDone | StopTimeout | SecondSignal string bool

text \<open>From the first event to the return value: the consensus goroutines have ended before the servers are stopped.\<close>

definition shutdown :: "Logger \<Rightarrow> exit_event \<Rightarrow> stop_event \<Rightarrow> log_record list \<Rightarrow> string option \<times> log_record list" where
  "shutdown l ev fin out =
     (let (reason, out1) =
        (case ev of
           GotSignal sig \<Rightarrow> (None, Info l ''received signal, shutting down'' [(''signal'', VStr sig)] out)
         | ServerExit nm (Some e) \<Rightarrow>
             (Some (nm @ '' server: '' @ e),
              Error l ''server exited unexpectedly, shutting down'' [(''server'', VStr nm), (''error'', VStr e)] out)
         | ServerExit nm None \<Rightarrow>
             (None, Info l ''server exited cleanly, shutting down'' [(''server'', VStr nm)] out));
          out2 = (case fin of SecondSignal _ False \<Rightarrow> out1 | _ \<Rightarrow> Stop l out1)
      in (case fin of
            StopsDone \<Rightarrow> (reason, Info l ''shutdown complete'' [] out2)
          | StopTimeout \<Rightarrow> (reason, Warn l ''shutdown timeout exceeded; exiting'' [(''timeout'', VInt 5000000000)] out2)
          | SecondSignal sig _ \<Rightarrow>
              (Some ''forced exit on second signal'', Warn l ''second signal received; forcing exit'' [(''signal'', VStr sig)] out2)))"

text \<open>The exit status of the process; a panic at start ends it with status 2.\<close>

definition exit_status ::
    "('ty, 'key, 'kr, 'any, 'ck, 'cert, 'ca) platform \<Rightarrow> string \<Rightarrow> exit_event \<Rightarrow> stop_event \<Rightarrow> world \<Rightarrow> nat" where
  "exit_status P configPath ev fin w =
     (case runDaemon_start P configPath w of
        (StartPanics, _) \<Rightarrow> 2
      | (StartCanceled, _) \<Rightarrow> 0
      | (StartFails _, _) \<Rightarrow> 1
      | (Started d, _, out) \<Rightarrow> (case fst (shutdown (d_logger d) ev fin out) of None \<Rightarrow> 0 | Some _ \<Rightarrow> 1))"

section \<open>Files during the start\<close>

lemma BuildPasswordReader_files: "BuildPasswordReader t p s = (r, s') \<Longrightarrow> files s' = files s"
  by (auto simp: BuildPasswordReader_def buildFilePasswordReader_def os_stat_def os_read_file_def Let_def
      split: if_splits sum.splits prod.splits)

lemma NewFileSigner_files: "NewFileSigner C K t d k p s = (r, s') \<Longrightarrow> files s' = files s"
  by (auto simp: NewFileSigner_def dest!: BuildPasswordReader_files split: if_splits sum.splits prod.splits)

lemma open_signer_files: "open_signer P cfg s = (r, s') \<Longrightarrow> files s' = files s"
  by (auto simp: open_signer_def init_registry_eq NewSigner_def getBackendFactory_def newFileSignerFromConfig_def
      newFortanixDSMSignerFromConfig_def Let_def dest!: NewFileSigner_files
      split: if_splits sum.splits prod.splits go.splits)

lemma write_file_other: "os_write_file p d m s = (r, s') \<Longrightarrow> q \<noteq> p \<Longrightarrow> files s' q = files s q"
  by (auto simp: os_write_file_def f_write_def split: if_splits option.splits node.splits)

lemma GenOrLoadConnKey_other: "GenOrLoadConnKey J pk p s = (r, s') \<Longrightarrow> q \<noteq> p \<Longrightarrow> files s' q = files s q"
  by (auto simp: GenOrLoadConnKey_def LoadEd25519PrivKey_def os_stat_def os_read_file_def dest!: write_file_other
      split: if_splits sum.splits prod.splits option.splits)

section \<open>What a started daemon is made of\<close>

lemma on_os_eq: "on_os f w = (r, w') \<longleftrightarrow> (\<exists>o'. f (w_os w) = (r, o') \<and> w' = w\<lparr>w_os := o'\<rparr>)"
  by (auto simp: on_os_def split: prod.splits)

lemma start_server_Started:
  assumes "start_server P cfg l bk cs out w = (Started d, w', out')"
  obtains w1 w2 where "on_os (build_transport P (TLS cfg)) w = (Inr (d_transport d), w1)"
    "New (signer_env P bk) (server_config cfg) w1 = (Inr (d_server d), w2)"
    "d_config d = cfg" "d_signer d = bk" "d_consensus d = cs"
  using assms that by (auto simp: start_server_def split: sum.splits prod.splits)

lemma start_with_Started:
  assumes "start_with P cfg l bk w = (Started d, w', out)"
  obtains s1 w2 out1 where "start_consensus P cfg (w_os w) = (Inr (d_consensus d), s1)"
    "start_server P cfg l bk (d_consensus d) out1 w2 = (Started d, w', out)" "w_os w2 = s1"
proof -
  obtain cs w2 out1 where cs: "on_os (start_consensus P cfg) (snd (get_public_key (signer_env P bk) w)) = (Inr cs, w2)"
      and s: "start_server P cfg l bk cs out1 w2 = (Started d, w', out)"
    using assms by (auto simp: start_with_def Let_def get_public_key_def split: sum.splits prod.splits)
  from s have "d_consensus d = cs" by (rule start_server_Started)
  with cs s that show ?thesis by (auto simp: on_os_eq get_public_key_def)
qed

lemma runDaemon_Started:
  assumes "runDaemon_start P path w = (Started d, w', out)"
  obtains s1 s2 w2 where "Load (yamlUnmarshal P) path (w_os w) = (Inr (d_config d), s1)"
    "New_logger (Level (Log (d_config d))) (Format (Log (d_config d))) = Inr (d_logger d)"
    "open_signer P (d_config d) s1 = (Returns (Inr (d_signer d)), s2)" "w_os w2 = s2"
    "start_with P (d_config d) (d_logger d) (d_signer d) w2 = (Started d, w', out)"
proof -
  obtain cfg w1 l bk w2 where st: "on_os (Load (yamlUnmarshal P) path) w = (Inr cfg, w1)"
      "New_logger (Level (Log cfg)) (Format (Log cfg)) = Inr l"
      "on_os (open_signer P cfg) w1 = (Returns (Inr bk), w2)" "start_with P cfg l bk w2 = (Started d, w', out)"
    using assms by (auto simp: runDaemon_start_def split: sum.splits prod.splits go.splits if_splits)
  moreover have "d_config d = cfg" "d_logger d = l" "d_signer d = bk"
    using st(4) by (auto simp: start_with_def start_server_def Let_def split: sum.splits prod.splits)
  ultimately show ?thesis using that [of "w_os w1" "w_os w2" w2] by (auto simp: on_os_eq)
qed

section \<open>Lemmas for the composition\<close>

lemma load_validator_state:
  assumes "load_validator P c s = (Inr (key, pv), s')" "ConnKeyFile c \<noteq> StateFile c"
  shows "\<exists>d. content_at (StateFile c) s = Some d \<and> unmarshalState (pvLib P) d = Inr (LastSign pv)"
proof -
  obtain s1 s2 where g: "GenOrLoadConnKey (keyDecoder P) (freshConnKey P) (ConnKeyFile c) s = (Inr key, s1)"
      and r: "RequireStateFile (StateFile c) s1 = (Inr (), s2)"
      and l: "LoadCometFilePV (pvLib P) (KeyFile c) (StateFile c) s2 = (Inr pv, s')"
    using assms(1) by (auto simp: load_validator_def split: sum.splits prod.splits)
  have "content_at (StateFile c) s1 = content_at (StateFile c) s"
    using GenOrLoadConnKey_other [OF g, of "StateFile c"] assms(2) by (simp add: content_at_def)
  with require_then_load [OF r l] show ?thesis by simp
qed

lemma start_consensus_Some:
  assumes "start_consensus P cfg s = (Inr (Some cs), s')"
  obtains key pv t where "load_validator P (Consensus cfg) s = (Inr (key, pv), s')"
    "pval (consensus_state cs) = pv" "FailoverTimeout (Consensus cfg) = Inr t"
    "arbiter (consensus_state cs) = start_arbiter (Consensus cfg) t"
  using assms that
  by (auto simp: start_consensus_def Let_def NewLockedPrivValidator_def split: if_splits sum.splits prod.splits)

lemma signed_by_backend:
  assumes "sys_step E cfg s (EvSign self r c (Some sg)) s'"
  shows "length sg = 64 \<and> (\<exists>n. backendSignRaw E n (sha256 c) = Returns (Inr sg))"
  using assms
proof (cases rule: sys_step.cases)
  case (run srv as r' pc bs pc' srv' w')
  have "pc = SignIt c \<and> (\<exists>c'. pc' = Record c' sg)"
    using run(1) by (cases "(selfEVMAddr srv, r', pc, pc')" rule: step_event.cases) auto
  then obtain c' where pc: "pc = SignIt c" "pc' = Record c' sg" by blast
  then obtain w1 where "checked_sign E '''' (sha256 c) (wld s) = (Returns (Inr sg), w1)"
    using run(5) by (auto split: prod.splits go.splits sum.splits)
  then show ?thesis
    by (auto simp: checked_sign_def sign_raw_def split: go.splits sum.splits if_splits)
qed

lemma exec_signed_by_backend:
  assumes "sys_exec E cfg w evs s" "EvSign self r c (Some sg) \<in> set evs"
  shows "length sg = 64 \<and> (\<exists>n. backendSignRaw E n (sha256 c) = Returns (Inr sg))"
  using assms
proof (induction rule: sys_exec.induct)
  case (exec_step evs s ev s')
  then show ?case using signed_by_backend [of E cfg s self r c sg s'] by auto
qed simp

lemma signer_env_SignRaw:
  "backendSignRaw (signer_env P bk) n d = Returns (Inr sg) \<Longrightarrow> Signer_SignRaw (backends P) n bk d = Returns (Inr sg)"
  by (auto simp: signer_env_def split: go.splits sum.splits)

lemma loaded_wf: "Load y p s = (Inr c, s') \<Longrightarrow> config_wf c"
  by (erule Load_Inr) (erule validate_wf)

text \<open>A configuration that was accepted gives the factories every setting they ask for.\<close>

lemma raw_string_ToMap:
  "raw_string (ToMap c) ''keyring_dir'' = KeyringDir c" "raw_string (ToMap c) ''key_name'' = SignerKeyName c"
  "raw_string (ToMap c) ''password_file'' = PasswordFile c"
  "raw_string (ToMap c) ''dsm_api_endpoint'' = DSMAPIEndpoint c" "raw_string (ToMap c) ''dsm_api_key'' = DSMAPIKey c"
  "raw_string (ToMap c) ''dsm_key_id'' = DSMKeyID c" "raw_string (ToMap c) ''dsm_key_name'' = DSMKeyName c"
  by (simp_all add: raw_string_def ToMap_def)

fun config_fault :: "key_error \<Rightarrow> bool" where
  "config_fault (UnknownBackend _ _) = True"
| "config_fault (MissingSetting _) = True"
| "config_fault _ = False"

lemma ExtractSecp_fault: "ExtractSecpPrivKeyBytes K r = Inl e \<Longrightarrow> \<not> config_fault e"
  by (auto simp: ExtractSecpPrivKeyBytes_def split: option.splits sum.splits priv_key.splits if_splits)

lemma BuildPassword_fault: "BuildPasswordReader t p s = (Inl e, s') \<Longrightarrow> \<not> config_fault e"
  by (auto simp: BuildPasswordReader_def buildFilePasswordReader_def Let_def split: if_splits sum.splits prod.splits)

lemma NewFileSigner_fault:
  "NewFileSigner C K t d k p s = (Inl e, s') \<Longrightarrow> d \<noteq> '''' \<Longrightarrow> k \<noteq> '''' \<Longrightarrow> \<not> config_fault e"
  by (auto simp: NewFileSigner_def dest: BuildPassword_fault ExtractSecp_fault split: if_splits sum.splits prod.splits)

lemma parseSpki_fault: "parseSpkiToSecp256k1 C der = Returns (Inl e) \<Longrightarrow> \<not> config_fault e"
  by (auto simp: parseSpkiToSecp256k1_def split: sum.splits prod.splits if_splits go.splits)

lemma fetchDSM_fault: "fetchDSMPublicKey C D desc = Returns (Inl e) \<Longrightarrow> \<not> config_fault e"
  by (auto simp: fetchDSMPublicKey_def dest: parseSpki_fault split: sum.splits if_splits option.splits)

lemma NewDSM_fault:
  assumes "NewFortanixDSMSigner C D c = Returns (Inl e)" "APIEndpoint c \<noteq> ''''" "APIKey c \<noteq> ''''" "KeyID c \<noteq> '''' \<or> KeyName c \<noteq> ''''"
  shows "\<not> config_fault e"
proof -
  from assms have "\<exists>desc. fetchDSMPublicKey C D desc = Returns (Inl e)"
    by (auto simp: NewFortanixDSMSigner_def Let_def split: go.splits sum.splits if_splits)
  then show ?thesis using fetchDSM_fault by blast
qed

lemma open_signer_fault:
  assumes "signer_cfg_wf (SignerCfg cfg)" "open_signer P cfg s = (Returns (Inl e), s')"
  shows "\<not> config_fault e"
proof (cases "Backend (SignerCfg cfg) = ''file''")
  case True
  with assms show ?thesis
    by (auto simp: open_signer_def init_registry_eq NewSigner_def getBackendFactory_def newFileSignerFromConfig_def
        raw_string_ToMap Let_def signer_cfg_wf_def dest: NewFileSigner_fault split: sum.splits prod.splits)
next
  case False
  with assms(1) have dsm: "Backend (SignerCfg cfg) = ''fortanixdsm''" "DSMAPIEndpoint (SignerCfg cfg) \<noteq> ''''"
      "DSMAPIKey (SignerCfg cfg) \<noteq> ''''" "DSMKeyID (SignerCfg cfg) \<noteq> '''' \<or> DSMKeyName (SignerCfg cfg) \<noteq> ''''"
    by (auto simp: signer_cfg_wf_def)
  with assms(2) show ?thesis
    by (auto simp: open_signer_def init_registry_eq NewSigner_def getBackendFactory_def newFortanixDSMSignerFromConfig_def
        raw_string_ToMap Let_def dest!: NewDSM_fault split: sum.splits go.splits if_splits)
qed

text \<open>Errors that a validated configuration rules out.\<close>

fun config_error_of :: "start_error \<Rightarrow> bool" where
  "config_error_of (InitLogger _) = True"
| "config_error_of (InitSigner e) = config_fault e"
| "config_error_of (FailoverErr _) = True"
| "config_error_of _ = False"

lemma start_consensus_error:
  assumes "config_wf cfg" "start_consensus P cfg s = (Inl e, s')"
  shows "\<not> config_error_of e"
proof -
  have en: "Enabled (Consensus cfg)" using assms(2) by (auto simp: start_consensus_def Let_def split: if_splits)
  then obtain t where "FailoverTimeout (Consensus cfg) = Inr t" using assms(1) by (auto simp: config_wf_def)
  with en assms(2) show ?thesis
    by (auto simp: start_consensus_def load_validator_def Let_def split: sum.splits prod.splits)
qed

lemma start_with_error:
  assumes "config_wf cfg" "start_with P cfg l bk w = (StartFails e, w', out)"
  shows "\<not> config_error_of e"
  using assms start_consensus_error [OF assms(1)]
  by (auto simp: start_with_def start_server_def build_transport_def on_os_eq Let_def
      split: sum.splits prod.splits if_splits)

section \<open>A concrete platform\<close>

definition demo_daemon_config :: AppConfig where
  "demo_daemon_config =
     \<lparr>CfgChainID = ''layer-1'',
      Consensus = \<lparr>KeyFile = ''/k'', StateFile = ''/d/s'', ConnKeyFile = ''/d/c'', Targets = ''tcp://10.0.0.1:26659'',
        PrimaryFailoverTimeout = ''60s'', PreferTargetOrder = False\<rparr>,
      SignerCfg = \<lparr>Backend = ''file'', KeyringDir = ''keys'', SignerKeyName = ''val'', PasswordFile = ''pw.txt'',
        DSMAPIEndpoint = '''', DSMAPIKey = '''', DSMKeyID = '''', DSMKeyName = ''''\<rparr>,
      ServerCfg = \<lparr>ListenAddr = '':9191'', HealthAddr = '':9192'', RequestTimeout = 2000000000, MaxRecvMsgSize = 1024,
        CfgAllowedMsgTypes = [], CheckpointGuardStateFile = ''/d/guard.json'', CfgEnabledRPCs = [], EnableReflection = False\<rparr>,
      TLS = \<lparr>Insecure = True, CACert = '''', ServerCert = '''', ServerKey = ''''\<rparr>,
      Log = \<lparr>Level = ''info'', Format = ''json''\<rparr>\<rparr>"

definition demo_daemon_os :: os where
  "demo_daemon_os =
     \<lparr>files = [''c.yaml'' \<mapsto> FileNode perm_0600 '''', ''keys'' \<mapsto> DirNode, ''/d'' \<mapsto> DirNode, ''/'' \<mapsto> DirNode,
        ''pw.txt'' \<mapsto> FileNode perm_0600 (''pw'' @ [CHR 0x0d, CHR 0x0a]), ''/k'' \<mapsto> FileNode perm_0600 ''key'',
        ''/d/s'' \<mapsto> FileNode perm_0600 ''h7''],
      faults = (\<lambda>_. False), short = (\<lambda>_. 0), rnd = (\<lambda>_. 0), tick = 0\<rparr>"

definition demo_daemon_world :: world where
  "demo_daemon_world = \<lparr>w_os = demo_daemon_os, sign_log = [], pub_calls = 0\<rparr>"

definition demo_daemon_cmt :: "nat FilePV cmt" where
  "demo_daemon_cmt =
     \<lparr>IsVoteTypeValid = IsVoteTypeValid demo_cmt, BlockIDFromProto = BlockIDFromProto demo_cmt, IsZero = IsZero demo_cmt,
      IsComplete = IsComplete demo_cmt, MaxVoteExtensionSize = MaxVoteExtensionSize demo_cmt,
      PrecommitType = PrecommitType demo_cmt, ProposalType = ProposalType demo_cmt,
      DefaultHandler = (\<lambda>pv m cid. (Returns (PingResponse, None), pv)), pvAddress = (\<lambda>_. Inr demo_addr),
      PubKeyFromProto = PubKeyFromProto demo_cmt\<rparr>"

definition demo_platform :: "(string, nat, unit, bytes, nat, nat, nat) platform" where
  "demo_platform =
     \<lparr>yamlUnmarshal = (\<lambda>_. Inr demo_daemon_config), libraries = demo_env\<lparr>pubkeyToAddress := \<lambda>_. demo_self\<rparr>, backends = demo_backend, isCanceled = (\<lambda>_. False),
      signErrorText = (\<lambda>_. ''sign''), addressHex = hex_encode, keyDecoder = demo_decoder, freshConnKey = replicate 64 3,
      pvLib = demo_pv_lib, cometLib = demo_daemon_cmt, x509Lib = demo_x509\<rparr>"

definition demo_signer :: "nat Signer" where
  "demo_signer = FileBackend \<lparr>privateKey = 77, fileCompressedPubKey = 2 # be 32 5\<rparr>"

lemma demo_daemon_defaults: "applyDefaults demo_daemon_config = demo_daemon_config"
  by (simp add: applyDefaults_def server_defaults_def consensus_defaults_def demo_daemon_config_def or_default_def Enabled_def)

lemma demo_daemon_Load:
  "Load (yamlUnmarshal demo_platform) ''c.yaml'' demo_daemon_os = (Inr demo_daemon_config, demo_daemon_os\<lparr>tick := 2\<rparr>)"
proof -
  let ?s = "step demo_daemon_os"
  have "validate_signer (SignerCfg demo_daemon_config) ?s = (None, step ?s)"
    by (simp add: validate_signer_def then_check_def pure_check_def require_def stat_check_def os_stat_def fails_def
        demo_daemon_config_def) (simp add: demo_daemon_os_def step_def pure_check_def)
  moreover have "validate_guard demo_daemon_config = None"
    by (simp add: validate_guard_def GuardStatePath_def demo_daemon_config_def)
  moreover have "validate_consensus demo_daemon_config = None"
    by (simp add: validate_consensus_def FailoverTimeout_def demo_timeout demo_daemon_config_def Enabled_def)
  moreover have "validate_server (ServerCfg demo_daemon_config) = None" "validate_log (Log demo_daemon_config) = None"
      "validate_rpcs (CfgEnabledRPCs (ServerCfg demo_daemon_config)) = None"
    by (simp_all add: validate_server_def validate_log_def validate_rpcs_def demo_daemon_config_def)
  moreover have "validate_tls (TLS demo_daemon_config) s = (None, s)" for s :: os
    by (simp add: validate_tls_def pure_check_def demo_daemon_config_def)
  ultimately have "validate demo_daemon_config ?s = (None, step ?s)"
    by (simp add: validate_def then_check_def pure_check_def)
  moreover have "os_read_file ''c.yaml'' demo_daemon_os = (Inr '''', ?s)"
    by (simp add: os_read_file_def fails_def) (simp add: demo_daemon_os_def)
  ultimately show ?thesis
    by (simp add: Load_def demo_platform_def demo_daemon_defaults Let_def) (simp add: step_def demo_daemon_os_def)
qed

lemma demo_daemon_signer:
  "open_signer demo_platform demo_daemon_config (demo_daemon_os\<lparr>tick := 2\<rparr>) = (Returns (Inr demo_signer), demo_daemon_os\<lparr>tick := 4\<rparr>)"
proof -
  have "BuildPasswordReader False ''pw.txt'' (demo_daemon_os\<lparr>tick := 2\<rparr>) =
      (Inr (Repeating \<lparr>line = bytes_of ''pw'' @ [0x0a], off = 0\<rparr>), demo_daemon_os\<lparr>tick := 4\<rparr>)"
    by (simp add: BuildPasswordReader_def buildFilePasswordReader_def os_stat_def os_read_file_def demo_daemon_os_def
        fails_def step_def perm_bits_def trim_newlines_def bytes_of_def byte_of_def Let_def)
  then show ?thesis
    by (simp add: open_signer_def init_registry_eq NewSigner_def getBackendFactory_def newFileSignerFromConfig_def
        NewFileSigner_def raw_string_ToMap demo_daemon_config_def demo_platform_def demo_backend_def demo_keyring_def
        ExtractSecpPrivKeyBytes_def secp256k1KeyLen_def demo_secp_def be_nat_be demo_signer_def)
qed

lemma demo_path_dir_c: "path_dir ''/d/c'' = ''/d''"
  by (simp add: path_dir_def path_clean_def)

lemma demo_guard_dir: "path_dir ''/d/guard.json'' = ''/d''" "ancestors 2 ''/d'' = [''/d'', ''/'']"
  by (simp_all add: path_dir_def path_clean_def numeral_2_eq_2)

lemma demo_daemon_healthy:
  assumes "files s = (files demo_daemon_os)(''/d/c'' \<mapsto> FileNode m b)" and "faults s = (\<lambda>_. False)"
  shows "files s ''/d/guard.json'' = None \<and> healthy ''/d/guard.json'' s"
proof -
  note dir = demo_guard_dir
  have tmp: "files s (temp_name ''/d'' ''.ckpt-hw-'' n) = None" for n
    using temp_name_ends [of "''/d''" "''.ckpt-hw-''" n] assms(1) by (auto simp: demo_daemon_os_def ends_tmp_def)
  show ?thesis
    using tmp assms unfolding healthy_def dir by (simp add: dir numeral_2_eq_2 [symmetric] demo_daemon_os_def ends_tmp_def)
qed

lemma demo_daemon_consensus:
  "\<exists>cs s'. start_consensus demo_platform demo_daemon_config (demo_daemon_os\<lparr>tick := 4\<rparr>) = (Inr (Some cs), s')
    \<and> files s' ''/d/guard.json'' = None \<and> healthy ''/d/guard.json'' s'"
proof -
  have "GenOrLoadConnKey demo_decoder (replicate 64 3) ''/d/c'' (demo_daemon_os\<lparr>tick := 4\<rparr>) =
     (Inr (replicate 64 3), set_node ''/d/c'' (Some (FileNode perm_0600 (marshal_node_key (fresh_node_key (replicate 64 3)))))
        (demo_daemon_os\<lparr>tick := 7\<rparr>))"
    by (simp add: GenOrLoadConnKey_def os_stat_def os_write_file_def f_write_def demo_path_dir_c demo_daemon_os_def
        fails_def step_def set_node_def)
  then have "\<exists>pv s'. load_validator demo_platform (Consensus demo_daemon_config) (demo_daemon_os\<lparr>tick := 4\<rparr>) =
      (Inr (replicate 64 3, pv), s') \<and> (\<exists>m b. files s' = (files demo_daemon_os)(''/d/c'' \<mapsto> FileNode m b)) \<and> faults s' = (\<lambda>_. False)"
    by (simp add: load_validator_def demo_platform_def demo_daemon_config_def RequireStateFile_def os_stat_def fails_def)
       (simp add: LoadCometFilePV_def load_state_def os_read_file_def demo_pv_lib_def freshStateJSON_def
          demo_daemon_os_def fails_def step_def set_node_def, blast)
  moreover have "FailoverTimeout (Consensus demo_daemon_config) = Inr 60000000000" "Enabled (Consensus demo_daemon_config)"
    by (simp_all add: FailoverTimeout_def demo_timeout Enabled_def demo_daemon_config_def)
  moreover have "ValidatorAddressForHandler (cometLib demo_platform) pv = Inr demo_addr" for pv
    by (simp add: ValidatorAddressForHandler_def demo_daemon_cmt_def demo_platform_def)
  ultimately show ?thesis using demo_daemon_healthy by (fastforce simp: start_consensus_def Let_def)
qed

lemma demo_daemon_started:
  "\<exists>d w' out. runDaemon_start demo_platform ''c.yaml'' demo_daemon_world = (Started d, w', out)
    \<and> d_config d = demo_daemon_config \<and> d_signer d = demo_signer \<and> d_consensus d \<noteq> None
    \<and> healthy ''/d/guard.json'' (w_os w') \<and> sign_log w' = [] \<and> highWater (checkpointGuard (d_server d)) = 0
    \<and> selfEVMAddr (d_server d) = demo_self"
proof -
  obtain cs s' where cs: "start_consensus demo_platform demo_daemon_config (demo_daemon_os\<lparr>tick := 4\<rparr>) = (Inr (Some cs), s')"
      "files s' ''/d/guard.json'' = None" "healthy ''/d/guard.json'' s'"
    using demo_daemon_consensus by blast
  have key: "length (Signer_GetPublicKey demo_signer) = 33" by (simp add: demo_signer_def Signer_GetPublicKey_def)
  then have lib: "decompressPubkey (libraries demo_platform) (Signer_GetPublicKey demo_signer) = Inr (Signer_GetPublicKey demo_signer)"
    by (simp add: demo_platform_def demo_env_def)
  have log: "\<exists>l. New_logger (Level (Log demo_daemon_config)) (Format (Log demo_daemon_config)) = Inr l"
    by (simp add: New_logger_def parseLevel_def demo_daemon_config_def)
  have guard: "\<exists>g o'. newCheckpointReplayGuard ''/d/guard.json'' s' = (Inr g, o') \<and> highWater g = 0 \<and> healthy ''/d/guard.json'' o'"
    using cs(2,3) by (simp add: newCheckpointReplayGuard_def os_read_file_def healthy_def Let_def step_def)
  have cfg: "Insecure (TLS demo_daemon_config)" "CheckpointGuardStatePath (server_config demo_daemon_config) = ''/d/guard.json''"
    by (simp_all add: server_config_def GuardStatePath_def demo_daemon_config_def)
  have env: "backendPublicKey (signer_env demo_platform demo_signer) n = Inr (Signer_GetPublicKey demo_signer)"
      "decompressPubkey (signer_env demo_platform demo_signer) = decompressPubkey (libraries demo_platform)"
      "pubkeyToAddress (signer_env demo_platform demo_signer) k = demo_self" for n k
    by (simp_all add: signer_env_def demo_platform_def)
  from log obtain l where l: "New_logger (Level (Log demo_daemon_config)) (Format (Log demo_daemon_config)) = Inr l" by blast
  from guard obtain g o' where g: "newCheckpointReplayGuard ''/d/guard.json'' s' = (Inr g, o')" "highWater g = 0" "healthy ''/d/guard.json'' o'"
    by blast
  show ?thesis
    by (simp add: runDaemon_start_def on_os_def demo_daemon_world_def demo_daemon_Load l demo_daemon_signer start_with_def
        get_public_key_def env lib cs(1) start_server_def build_transport_def cfg New_def g Let_def)
qed

text \<open>The same machine with a DSM backend, no consensus key and \<^verbatim>\<open>sign_tx\<close> switched off; the device holds the point (5, 6).\<close>

definition demo_spki :: bytes where
  "demo_spki = [0x30, 0x56, 0x30, 0x10, 0x06, 0x07, 0x2a, 0x86, 0x48, 0xce, 0x3d, 0x02, 0x01, 0x06, 0x05, 0x2b, 0x81, 0x04, 0x00, 0x0a,
     0x03, 0x42, 0x00, 0x04] @ be 32 5 @ be 32 6"

definition demo_dsm_config :: AppConfig where
  "demo_dsm_config = demo_daemon_config
     \<lparr>Consensus := \<lparr>KeyFile = '''', StateFile = '''', ConnKeyFile = '''', Targets = '''', PrimaryFailoverTimeout = '''',
        PreferTargetOrder = False\<rparr>,
      SignerCfg := \<lparr>Backend = ''fortanixdsm'', KeyringDir = '''', SignerKeyName = '''', PasswordFile = '''',
        DSMAPIEndpoint = ''https://dsm'', DSMAPIKey = ''key'', DSMKeyID = ''k'', DSMKeyName = ''''\<rparr>,
      ServerCfg := (ServerCfg demo_daemon_config)\<lparr>CfgEnabledRPCs := [(''sign_tx'', False)]\<rparr>\<rparr>"

definition demo_dsm_platform :: "(string, nat, unit, bytes, nat, nat, nat) platform" where
  "demo_dsm_platform = demo_platform
     \<lparr>yamlUnmarshal := (\<lambda>_. Inr demo_dsm_config),
      backends := demo_backend\<lparr>dsm_of := demo_dsm\<lparr>dsmGetSobject := \<lambda>_. Inr
        \<lparr>ObjType = ''EC'', EllipticCurve = Some ''SecP256K1'', PubKey = Some demo_spki\<rparr>\<rparr>\<rparr>\<rparr>"

lemma demo_spki_point: "unmarshal_spki demo_spki = Inr (4 # be 32 5 @ be 32 6, [])"
  by (simp add: unmarshal_spki_def field_def parse_header_def parse_length_def spki_fields_def algorithm_id_def parse_oid_def
      parse_oid_rest.simps raw_optional_def parse_bit_string_def demo_spki_def Let_def)

abbreviation demo_dsm_backend :: "nat Signer" where
  "demo_dsm_backend \<equiv> DSMBackend demo_dsm_signer"

lemma demo_dsm_Load:
  "Load (yamlUnmarshal demo_dsm_platform) ''c.yaml'' demo_daemon_os = (Inr demo_dsm_config, step demo_daemon_os)"
proof -
  have d: "applyDefaults demo_dsm_config = demo_dsm_config"
    by (simp add: applyDefaults_def server_defaults_def consensus_defaults_def demo_dsm_config_def demo_daemon_config_def or_default_def Enabled_def)
  have "validate_signer (SignerCfg demo_dsm_config) s = (None, s)" "validate_tls (TLS demo_dsm_config) s = (None, s)" for s :: os
    by (simp_all add: validate_signer_def validate_tls_def then_check_def pure_check_def require_def demo_dsm_config_def demo_daemon_config_def)
  moreover have "validate_guard demo_dsm_config = None"
    by (simp add: validate_guard_def GuardStatePath_def demo_dsm_config_def demo_daemon_config_def)
  moreover have "validate_consensus demo_dsm_config = None"
    by (simp add: validate_consensus_def demo_dsm_config_def Enabled_def)
  moreover have "validate_server (ServerCfg demo_dsm_config) = None" "validate_log (Log demo_dsm_config) = None"
      "validate_rpcs (CfgEnabledRPCs (ServerCfg demo_dsm_config)) = None"
    by (simp_all add: validate_server_def validate_log_def validate_rpcs_def knownRPCShortNames_def demo_dsm_config_def
        demo_daemon_config_def)
  ultimately have "validate demo_dsm_config s = (None, s)" for s :: os
    by (simp add: validate_def then_check_def pure_check_def)
  moreover have "os_read_file ''c.yaml'' demo_daemon_os = (Inr '''', step demo_daemon_os)"
    by (simp add: os_read_file_def fails_def) (simp add: demo_daemon_os_def)
  ultimately show ?thesis by (simp add: Load_def demo_dsm_platform_def d Let_def)
qed

lemma demo_dsm_open: "open_signer demo_dsm_platform demo_dsm_config s = (Returns (Inr demo_dsm_backend), s)"
proof -
  have "parseSpkiToSecp256k1 demo_secp demo_spki = Returns (Inr (2 # be 32 5))"
    by (simp add: parseSpkiToSecp256k1_def demo_spki_point MarshalCompressed_def be_nat_be) (simp add: demo_secp_def)
  then show ?thesis
    by (simp add: open_signer_def init_registry_eq NewSigner_def getBackendFactory_def newFortanixDSMSignerFromConfig_def
        NewFortanixDSMSigner_def fetchDSMPublicKey_def raw_string_ToMap demo_dsm_config_def demo_dsm_platform_def demo_backend_def
        demo_dsm_def demo_dsm_signer_def)
qed

abbreviation demo_dsm_env :: "string env" where
  "demo_dsm_env \<equiv> signer_env demo_dsm_platform demo_dsm_backend"

lemma demo_dsm_guard: "files demo_daemon_os ''/d/guard.json'' = None \<and> healthy ''/d/guard.json'' (step demo_daemon_os)"
proof -
  note dir = demo_guard_dir
  have tmp: "files demo_daemon_os (temp_name ''/d'' ''.ckpt-hw-'' n) = None" for n
    using temp_name_ends [of "''/d''" "''.ckpt-hw-''" n] by (auto simp: demo_daemon_os_def ends_tmp_def)
  show ?thesis
    using tmp unfolding healthy_def dir by (simp add: dir numeral_2_eq_2 [symmetric] demo_daemon_os_def ends_tmp_def step_def)
qed

lemma demo_dsm_New:
  "\<exists>srv w'. New demo_dsm_env (server_config demo_dsm_config) (demo_daemon_world\<lparr>w_os := step demo_daemon_os, pub_calls := k\<rparr>) = (Inr srv, w')
    \<and> selfEVMAddr srv = demo_self \<and> highWater (checkpointGuard srv) = 0 \<and> statePath (checkpointGuard srv) = ''/d/guard.json''
    \<and> healthy ''/d/guard.json'' (w_os w')"
proof -
  have "\<exists>g o'. newCheckpointReplayGuard ''/d/guard.json'' (step demo_daemon_os) = (Inr g, o') \<and> highWater g = 0
      \<and> statePath g = ''/d/guard.json'' \<and> healthy ''/d/guard.json'' o'"
    using demo_dsm_guard by (simp add: newCheckpointReplayGuard_def os_read_file_def healthy_def Let_def step_def)
  then obtain g o' where g: "newCheckpointReplayGuard ''/d/guard.json'' (step demo_daemon_os) = (Inr g, o')"
      "highWater g = 0" "statePath g = ''/d/guard.json''" "healthy ''/d/guard.json'' o'" by blast
  have cfg: "CheckpointGuardStatePath (server_config demo_dsm_config) = ''/d/guard.json''"
    by (simp add: server_config_def GuardStatePath_def demo_dsm_config_def demo_daemon_config_def)
  have "length (Signer_GetPublicKey demo_dsm_backend) = 33"
    by (simp add: demo_dsm_signer_def Signer_GetPublicKey_def DSM_GetPublicKey_def)
  then have env: "backendPublicKey demo_dsm_env n = Inr (Signer_GetPublicKey demo_dsm_backend)"
      "decompressPubkey demo_dsm_env (Signer_GetPublicKey demo_dsm_backend) = Inr (Signer_GetPublicKey demo_dsm_backend)"
      "pubkeyToAddress demo_dsm_env key = demo_self" for n key
    by (simp_all add: signer_env_def demo_dsm_platform_def demo_platform_def demo_env_def)
  show ?thesis by (simp add: New_def get_public_key_def env cfg g Let_def demo_daemon_world_def)
qed

lemma demo_dsm_started:
  "\<exists>d w' out. runDaemon_start demo_dsm_platform ''c.yaml'' demo_daemon_world = (Started d, w', out)
    \<and> d_config d = demo_dsm_config \<and> d_signer d = demo_dsm_backend"
proof -
  have "\<exists>l. New_logger (Level (Log demo_dsm_config)) (Format (Log demo_dsm_config)) = Inr l"
    by (simp add: New_logger_def parseLevel_def demo_dsm_config_def demo_daemon_config_def)
  then obtain l where l: "New_logger (Level (Log demo_dsm_config)) (Format (Log demo_dsm_config)) = Inr l" by blast
  obtain srv w' where n: "New demo_dsm_env (server_config demo_dsm_config)
      (demo_daemon_world\<lparr>w_os := step demo_daemon_os, pub_calls := Suc 0\<rparr>) = (Inr srv, w')"
    using demo_dsm_New [of "Suc 0"] by blast
  have cfg: "Insecure (TLS demo_dsm_config)" "\<not> Enabled (Consensus demo_dsm_config)"
    by (simp_all add: demo_dsm_config_def demo_daemon_config_def Enabled_def)
  have env: "backendPublicKey demo_dsm_env n = Inr (Signer_GetPublicKey demo_dsm_backend)" for n
    by (simp add: signer_env_def)
  have lib: "decompressPubkey (libraries demo_dsm_platform) (Signer_GetPublicKey demo_dsm_backend) = Inr (Signer_GetPublicKey demo_dsm_backend)"
    by (simp add: demo_dsm_platform_def demo_platform_def demo_env_def demo_dsm_signer_def Signer_GetPublicKey_def DSM_GetPublicKey_def)
  show ?thesis
    using n unfolding One_nat_def
    by (simp add: runDaemon_start_def on_os_def demo_daemon_world_def demo_dsm_Load l demo_dsm_open start_with_def
        get_public_key_def env lib start_consensus_def start_server_def build_transport_def cfg Let_def)
qed

definition demo_dsm_trace :: "event list" where
  "demo_dsm_trace = (let r = demo_request demo_valset 5 9 in
     [EvStart, EvArrive r, EvTau, EvTau,
      EvSign demo_self r (ExpectedCheckpoint r) (Some (left_pad 32 (nat_bytes 7) @ left_pad 32 (nat_bytes 9)))])"

lemma demo_dsm_exec:
  "\<exists>w s. sys_exec demo_dsm_env (server_config demo_dsm_config) w demo_dsm_trace s"
proof -
  let ?r = "demo_request demo_valset 5 9"
  let ?c = "ExpectedCheckpoint ?r" and ?w = "demo_daemon_world\<lparr>w_os := step demo_daemon_os, pub_calls := 0\<rparr>"
  obtain srv w1 where n: "New demo_dsm_env (server_config demo_dsm_config) ?w = (Inr srv, w1)"
      and srv: "selfEVMAddr srv = demo_self" "highWater (checkpointGuard srv) = 0" "statePath (checkpointGuard srv) = ''/d/guard.json''"
        "healthy ''/d/guard.json'' (w_os w1)"
    using demo_dsm_New [of 0] by blast
  have v: "verify_checkpoint demo_dsm_env (selfEVMAddr srv) ?r = Inr ?c"
    using demo_verify [of 9] verify_checkpoint_cong [of demo_dsm_env demo_env] srv(1)
    by (simp add: signer_env_def demo_dsm_platform_def demo_platform_def)
  have "ValidatorTimestamp ?r = 9" by (simp add: demo_request_def Let_def)
  with signing_exec [OF n v] srv obtain o2 srv' where
    4: "sys_exec demo_dsm_env (server_config demo_dsm_config) ?w [EvStart, EvArrive ?r, EvTau, EvTau]
       \<lparr>running = Some srv', wld = w1\<lparr>w_os := o2\<rparr>, threads = [(?r, SignIt ?c)]\<rparr>" and self: "selfEVMAddr srv' = demo_self"
    by fastforce
  have "backendSignRaw demo_dsm_env k (sha256 ?c) = Returns (Inr (left_pad 32 (nat_bytes 7) @ left_pad 32 (nat_bytes 9)))" for k
    using length_nat_bytes [of 7 32] length_nat_bytes [of 9 32]
    by (simp add: signer_env_def Signer_SignRaw_def demo_dsm_platform_def demo_backend_def DSM_SignRaw_def demo_dsm_def
        demo_dsm_signer_def demo_derToEthSig convert_sig_def length_left_pad)
  then have "\<exists>w2. ckpt_step demo_dsm_env ?r (SignIt ?c) (srv', w1\<lparr>w_os := o2\<rparr>)
      = (Record ?c (left_pad 32 (nat_bytes 7) @ left_pad 32 (nat_bytes 9)), (srv', w2))"
    using length_nat_bytes [of 7 32] length_nat_bytes [of 9 32] by (simp add: checked_sign_def sign_raw_def length_left_pad)
  then obtain w2 where "ckpt_step demo_dsm_env ?r (SignIt ?c) (srv', w1\<lparr>w_os := o2\<rparr>)
      = (Record ?c (left_pad 32 (nat_bytes 7) @ left_pad 32 (nat_bytes 9)), (srv', w2))" by blast
  from exec_single [where as = "[]", simplified, OF 4 this] self show ?thesis unfolding demo_dsm_trace_def Let_def by auto
qed

section \<open>Properties\<close>

text \<open>Claim C5: a running daemon never signs two checkpoints of one timestamp.  For every platform, if
  the daemon starts from its configuration file with the checkpoint RPC enabled, then in every later
  execution with its signer and its server configuration, with any concurrency, crashes, restarts and
  file-system failures, each timestamp is signed at most once; every signature it makes has 64 bytes,
  and with the DSM backend it verifies for the checkpoint under the key fetched at the start.\<close>

theorem daemon_never_signs_twice:
  assumes "runDaemon_start P path w0 = (Started d, w1, out)"
    and "checkpoint_enabled (d_config d)" "\<not> ends_tmp (GuardStatePath (d_config d))"
    and "sys_exec (signer_env P (d_signer d)) (server_config (d_config d)) w evs s"
  shows "distinct (signed_ts evs)
    \<and> (\<forall>self r c sg. EvSign self r c (Some sg) \<in> set evs \<longrightarrow> length sg = 64
        \<and> (\<forall>ds. d_signer d = DSMBackend ds \<longrightarrow>
             (\<exists>v. v \<in> {0, 1} \<and> verifies (secp_of (backends P)) (sha256 c) (dsmCompressedPubKey ds) sg v)))"
proof (intro conjI allI impI)
  obtain s1 where "Load (yamlUnmarshal P) path (w_os w0) = (Inr (d_config d), s1)"
    using assms(1) by (rule runDaemon_Started)
  from loaded_wf [OF this] assms(2) have "GuardStatePath (d_config d) \<noteq> ''''" by (simp add: config_wf_def)
  with assms(3) have "CheckpointGuardStatePath (server_config (d_config d)) \<noteq> ''''"
      "\<not> ends_tmp (CheckpointGuardStatePath (server_config (d_config d)))"
    by (simp_all add: server_config_def)
  from gate_inv_exec [OF assms(4) durable_zero [OF this]] show "distinct (signed_ts evs)" by (simp add: gate_inv_def)
next
  fix self r c sg assume ev: "EvSign self r c (Some sg) \<in> set evs"
  note b = exec_signed_by_backend [OF assms(4) ev]
  then show "length sg = 64" by simp
  fix ds assume "d_signer d = DSMBackend ds"
  with b signer_env_SignRaw [of P "d_signer d"] obtain n where
    "DSM_SignRaw (secp_of (backends P)) (dsm_of (backends P)) n ds (sha256 c) = Returns (Inr sg)"
    by (auto simp: Signer_SignRaw_def)
  then show "\<exists>v. v \<in> {0, 1} \<and> verifies (secp_of (backends P)) (sha256 c) (dsmCompressedPubKey ds) sg v"
    by (rule DSM_SignRaw_verifies)
qed

theorem daemon_never_signs_twice_witness:
  "\<exists>w s v. sys_exec demo_dsm_env (server_config demo_dsm_config) w demo_dsm_trace s \<and> distinct (signed_ts demo_dsm_trace)
     \<and> signed_ts demo_dsm_trace = [9]
     \<and> verifies demo_secp (sha256 (ExpectedCheckpoint (demo_request demo_valset 5 9))) (2 # be 32 5)
         (left_pad 32 (nat_bytes 7) @ left_pad 32 (nat_bytes 9)) v"
proof -
  let ?r = "demo_request demo_valset 5 9" and ?sg = "left_pad 32 (nat_bytes 7) @ left_pad 32 (nat_bytes 9)"
  obtain d w1 out where d: "runDaemon_start demo_dsm_platform ''c.yaml'' demo_daemon_world = (Started d, w1, out)"
      "d_config d = demo_dsm_config" "d_signer d = demo_dsm_backend"
    using demo_dsm_started by blast
  obtain w s where e: "sys_exec demo_dsm_env (server_config demo_dsm_config) w demo_dsm_trace s" using demo_dsm_exec by blast
  have c: "checkpoint_enabled (d_config d)" "\<not> ends_tmp (GuardStatePath (d_config d))"
    unfolding d(2) by (simp_all add: checkpoint_enabled_def GuardStatePath_def demo_dsm_config_def demo_daemon_config_def ends_tmp_def)
  note t = daemon_never_signs_twice [OF d(1) c, unfolded d(2,3), OF e]
  have ev: "EvSign demo_self ?r (ExpectedCheckpoint ?r) (Some ?sg) \<in> set demo_dsm_trace" by (simp add: demo_dsm_trace_def Let_def)
  obtain v where "verifies (secp_of (backends demo_dsm_platform)) (sha256 (ExpectedCheckpoint ?r)) (dsmCompressedPubKey demo_dsm_signer) ?sg v"
    using t ev by blast
  then have "verifies demo_secp (sha256 (ExpectedCheckpoint ?r)) (2 # be 32 5) ?sg v"
    by (simp add: demo_dsm_platform_def demo_backend_def demo_dsm_signer_def)
  moreover have "signed_ts demo_dsm_trace = [9]"
    by (simp add: signed_ts_def demo_dsm_trace_def Let_def) (simp add: demo_request_def Let_def)
  ultimately show ?thesis using t e by blast
qed

text \<open>Claim C11: a daemon that signs for consensus resumes from the recorded last signature.  If it
  starts with consensus signing, the state file was there before the start and the last-sign state is
  its decoded content, unless the connection key is configured to the same path; the election runs
  exactly if a failover timeout is configured.\<close>

theorem daemon_resumes_last_sign_state:
  assumes "runDaemon_start P path w0 = (Started d, w1, out)" "d_consensus d = Some cs"
    and "ConnKeyFile (Consensus (d_config d)) \<noteq> StateFile (Consensus (d_config d))"
  shows "(\<exists>data. content_at (StateFile (Consensus (d_config d))) (w_os w0) = Some data
        \<and> unmarshalState (pvLib P) data = Inr (LastSign (pval (consensus_state cs))))
    \<and> (arbiter (consensus_state cs) \<noteq> None \<longleftrightarrow> PrimaryFailoverTimeout (Consensus (d_config d)) \<noteq> '''')"
proof -
  let ?c = "Consensus (d_config d)"
  obtain s1 s2 w2 where l: "Load (yamlUnmarshal P) path (w_os w0) = (Inr (d_config d), s1)"
      and o: "open_signer P (d_config d) s1 = (Returns (Inr (d_signer d)), s2)" "w_os w2 = s2"
      and st: "start_with P (d_config d) (d_logger d) (d_signer d) w2 = (Started d, w1, out)"
    using assms(1) by (rule runDaemon_Started)
  from st obtain s3 where "start_consensus P (d_config d) (w_os w2) = (Inr (Some cs), s3)"
    unfolding assms(2) [symmetric] by (rule start_with_Started)
  then obtain key pv t where v: "load_validator P ?c (w_os w2) = (Inr (key, pv), s3)" "pval (consensus_state cs) = pv"
      "FailoverTimeout ?c = Inr t" "arbiter (consensus_state cs) = start_arbiter ?c t"
    by (rule start_consensus_Some)
  have "content_at (StateFile ?c) (w_os w2) = content_at (StateFile ?c) (w_os w0)"
    using Load_files [OF l] open_signer_files [OF o(1)] o(2) by (simp add: content_at_def)
  moreover have "t > 0 \<longleftrightarrow> PrimaryFailoverTimeout ?c \<noteq> ''''"
    using v(3) by (auto simp: FailoverTimeout_def split: if_splits option.splits)
  ultimately show ?thesis
    using load_validator_state [OF v(1) assms(3)] v(2,4) by (simp add: start_arbiter_def)
qed

theorem daemon_resumes_last_sign_state_witness:
  "\<exists>d w1 out cs. runDaemon_start demo_platform ''c.yaml'' demo_daemon_world = (Started d, w1, out) \<and> d_consensus d = Some cs
    \<and> Height (LastSign (pval (consensus_state cs))) = 7 \<and> arbiter (consensus_state cs) \<noteq> None"
proof -
  obtain d w1 out cs where d: "runDaemon_start demo_platform ''c.yaml'' demo_daemon_world = (Started d, w1, out)"
      "d_config d = demo_daemon_config" "d_consensus d = Some cs"
    using demo_daemon_started by blast
  have f: "ConnKeyFile (Consensus demo_daemon_config) = ''/d/c''" "StateFile (Consensus demo_daemon_config) = ''/d/s''"
      "PrimaryFailoverTimeout (Consensus demo_daemon_config) = ''60s''" "content_at ''/d/s'' (w_os demo_daemon_world) = Some ''h7''"
    by (simp_all add: demo_daemon_config_def demo_daemon_world_def demo_daemon_os_def content_at_def)
  have "unmarshalState (pvLib demo_platform) ''h7'' = Inr (zero_state\<lparr>Height := 7, Step := 3\<rparr>)"
    by (simp add: demo_platform_def demo_pv_lib_def freshStateJSON_def)
  with daemon_resumes_last_sign_state [OF d(1,3), unfolded d(2) f]
  have "LastSign (pval (consensus_state cs)) = zero_state\<lparr>Height := 7, Step := 3\<rparr>" "arbiter (consensus_state cs) \<noteq> None"
    by auto
  with d(1,3) show ?thesis by simp
qed

text \<open>Claim C36: validation covers the start.  No start fails because of the logger, an unknown backend, a
  missing backend setting or the failover timeout: what could be wrong with these in the file has been
  reported when it was loaded.\<close>

theorem start_never_misconfigured:
  "runDaemon_start P path w = (StartFails e, w', out) \<Longrightarrow> \<not> config_error_of e"
proof -
  assume a: "runDaemon_start P path w = (StartFails e, w', out)"
  obtain r w1 where l: "on_os (Load (yamlUnmarshal P) path) w = (r, w1)" by force
  show ?thesis
  proof (cases r)
    case (Inl x)
    with a l show ?thesis by (auto simp: runDaemon_start_def)
  next
    case (Inr cfg)
    with l obtain s1 where "Load (yamlUnmarshal P) path (w_os w) = (Inr cfg, s1)" by (auto simp: on_os_eq)
    then have wf: "config_wf cfg" by (rule loaded_wf)
    then have "ok (New_logger (Level (Log cfg)) (Format (Log cfg)))" unfolding New_logger_ok config_wf_def by blast
    then obtain lg where lg: "New_logger (Level (Log cfg)) (Format (Log cfg)) = Inr lg"
      by (cases "New_logger (Level (Log cfg)) (Format (Log cfg))") auto
    have "signer_cfg_wf (SignerCfg cfg)" using wf by (simp add: config_wf_def)
    with a l Inr lg start_with_error [OF wf] open_signer_fault [of cfg P] show ?thesis
      by (auto simp: runDaemon_start_def on_os_eq split: prod.splits go.splits sum.splits if_splits) blast
  qed
qed

theorem start_never_misconfigured_witness:
  "runDaemon_start demo_platform '''' demo_daemon_world = (StartFails (LoadConfig EmptyConfigPath), demo_daemon_world, [])
   \<and> \<not> config_error_of (LoadConfig EmptyConfigPath)"
proof -
  have "runDaemon_start demo_platform '''' demo_daemon_world = (StartFails (LoadConfig EmptyConfigPath), demo_daemon_world, [])"
    by (simp add: runDaemon_start_def on_os_def Load_def)
  with start_never_misconfigured [OF this] show ?thesis by blast
qed

text \<open>The key commands are confined to the file keyring.  A command that touches the keyring
  runs only with the file backend and a keyring directory; of the SDK's own commands neither the export
  nor the import nor the migration is left, and the only \<^verbatim>\<open>export\<close> is the program's own.\<close>

theorem key_commands_confined:
  assumes "PersistentPreRunE names fl = Inr fl'" "''keys'' \<in> set names" "''start'' \<notin> set names" "''init-state'' \<notin> set names"
  shows "(\<exists>dir. keyringDirFlag fl' = Some dir \<and> dir \<noteq> '''')
    \<and> (\<forall>v changed. keyringBackendFlag fl' = Some (v, changed) \<longrightarrow> v = ''file'')
    \<and> (\<exists>keys. map_of (newRootCmd subs) ''keys'' = Some keys
        \<and> ''import'' \<notin> set keys \<and> ''migrate'' \<notin> set keys \<and> count_list keys ''export'' = 1)"
proof -
  have need: "needsKeyringDir names" using assms(3,4) by (auto simp: needsKeyringDir_def list_ex_iff)
  then have "(\<exists>dir. keyringDirFlag fl' = Some dir \<and> dir \<noteq> '''')
      \<and> (\<forall>v changed. keyringBackendFlag fl' = Some (v, changed) \<longrightarrow> v = ''file'')"
    using assms(1) by (auto simp: PersistentPreRunE_def Let_def split: option.splits if_splits)
  moreover have "count_list (bridgeSignerKeysCmd subs) ''export'' = 0"
    by (simp add: bridgeSignerKeysCmd_def count_list_0_iff)
  ultimately show ?thesis by (simp add: newRootCmd_def) (simp add: bridgeSignerKeysCmd_def)
qed

theorem key_commands_confined_witness:
  "\<exists>fl'. PersistentPreRunE [''add'', ''keys'', ''bridge-signer'']
      \<lparr>keyringBackendFlag = Some (''os'', False), keyringDirFlag = Some ''/keys''\<rparr> = Inr fl'
    \<and> keyringBackendFlag fl' = Some (''file'', False)
    \<and> (\<exists>keys. map_of (newRootCmd [''add'', ''export'', ''import'']) ''keys'' = Some keys \<and> count_list keys ''export'' = 1)"
proof -
  have "PersistentPreRunE [''add'', ''keys'', ''bridge-signer'']
      \<lparr>keyringBackendFlag = Some (''os'', False), keyringDirFlag = Some ''/keys''\<rparr>
      = Inr \<lparr>keyringBackendFlag = Some (''file'', False), keyringDirFlag = Some ''/keys''\<rparr>"
    by (simp add: PersistentPreRunE_def needsKeyringDir_def)
  with key_commands_confined [OF this, of "[''add'', ''export'', ''import'']"] show ?thesis by simp blast
qed

text \<open>
  Without a failover timeout there is no election, and the primary gate of the gRPC server refuses
  nobody.
\<close>

lemma no_election_no_gate:
  assumes "runDaemon_start P path w0 = (Started d, w1, out)" "PrimaryFailoverTimeout (Consensus (d_config d)) = ''''"
  shows "\<not> gate_refuses \<lparr>peer = p, primaryHost = primary_host_of (d_consensus d)\<rparr> m"
proof (cases "d_consensus d")
  case None
  then show ?thesis by (simp add: gate_refuses_def primary_host_of_def)
next
  case (Some cs)
  obtain w2 where "start_with P (d_config d) (d_logger d) (d_signer d) w2 = (Started d, w1, out)"
    using assms(1) by (rule runDaemon_Started)
  then obtain s3 where "start_consensus P (d_config d) (w_os w2) = (Inr (Some cs), s3)"
    unfolding Some [symmetric] by (rule start_with_Started)
  then obtain t where "FailoverTimeout (Consensus (d_config d)) = Inr t" "arbiter (consensus_state cs) = start_arbiter (Consensus (d_config d)) t"
    by (rule start_consensus_Some)
  with assms(2) have "arbiter (consensus_state cs) = None" by (auto simp: FailoverTimeout_def start_arbiter_def)
  with Some show ?thesis by (simp add: gate_refuses_def primary_host_of_def)
qed

text \<open>
  The process reports a failure exactly when the start failed, a server ended with an error or a
  second signal cut the shutdown short.
\<close>

lemma exit_status_Started:
  "runDaemon_start P path w = (Started d, w', out) \<Longrightarrow>
     exit_status P path ev fin w = (if (\<exists>nm e. ev = ServerExit nm (Some e)) \<or> (\<exists>sig b. fin = SecondSignal sig b) then 1 else 0)"
  by (cases fin; cases ev)
     (auto simp: exit_status_def shutdown_def Let_def split: option.splits)

end
