(* ===== verification/Server_Log.thy ===== *)
theory Server_Log
  imports Interleaving Audit_Log "HOL-Library.Sublist"
begin

text \<open>
  The handlers and interceptors of the gRPC server (\<^verbatim>\<open>src/server/server.go\<close>) with what they log.

  Each definition follows its handler line by line and threads the log beside the state of
  \<open>Bridge_Server\<close>.  The first result is that leaving the log out gives back the handlers there, so that
  every theorem about them is one about these; the second is about the audit records.  How an error, a
  panic value or an address is printed is a parameter of \<open>log_env\<close>, as is the time a call took.
\<close>

section \<open>Surroundings of a log line\<close>

record log_env =
  logger :: Logger
  guardErrorText :: "guard_error \<Rightarrow> string"
  panicText :: string
  evmHex :: "bytes \<Rightarrow> string"
  elapsed :: int

type_synonym logged_state = "state \<times> log_record list"

definition VNat :: "u64 \<Rightarrow> attr_value" where
  "VNat n = VInt (uint n)"

definition peerAddr :: "call_ctx \<Rightarrow> string" where
  "peerAddr ctx = (case peer ctx of Some a \<Rightarrow> a | None \<Rightarrow> ''unknown'')"

section \<open>Handlers\<close>

definition log_GetPublicKey :: "'ty env \<Rightarrow> log_env \<Rightarrow> logged_state \<Rightarrow> response result \<times> logged_state" where
  "log_GetPublicKey E V lst =
     (case lst of ((srv, w), out) \<Rightarrow>
      case get_public_key E w of
        (Inl e, w1) \<Rightarrow>
          (Returns (Inl (Status Internal (PublicKeyFailed e))), ((srv, w1), AuditGetPublicKey (logger V) (Some e) out))
      | (Inr pubKey, w1) \<Rightarrow>
          (let out1 = AuditGetPublicKey (logger V) None out in
           if length pubKey \<noteq> 33 then (Returns (Inl (Status Internal (PublicKeyLength (length pubKey)))), ((srv, w1), out1))
           else (Returns (Inr (GetPublicKeyResponse pubKey)), ((srv, w1), out1))))"

definition log_SignInitial ::
    "'ty env \<Rightarrow> log_env \<Rightarrow> string \<Rightarrow> string \<Rightarrow> logged_state \<Rightarrow> response result \<times> logged_state" where
  "log_SignInitial E V operatorAddress requestId lst =
     (case lst of ((srv, w), out) \<Rightarrow>
      if operatorAddress = '''' then (Returns (Inl (Status InvalidArgument OperatorAddressEmpty)), lst)
      else case bech32Decode E operatorAddress of
        Inl e \<Rightarrow> (Returns (Inl (Status InvalidArgument (OperatorAddressInvalid e))), lst)
      | Inr (_, addrBytes) \<Rightarrow>
          if addrBytes \<noteq> selfCosmosAddr srv then
            (Returns (Inl (Status PermissionDenied OperatorAddressForeign)),
             ((srv, w), Error (logger V) ''SignInitial rejected: operator_address does not match signer key''
                [(''request_id'', VStr requestId), (''operator_address'', VStr operatorAddress)] out))
          else
            (case initialRegistrationMessages operatorAddress of (msgA, msgB) \<Rightarrow>
             case checked_sign E ''A'' (initialSigningDigest msgA) w of
               (Panics, w1) \<Rightarrow> (Panics, ((srv, w1), out))
             | (Returns (Inl e), w1) \<Rightarrow> (Returns (Inl e), ((srv, w1), out))
             | (Returns (Inr sigA), w1) \<Rightarrow>
                 (case checked_sign E ''B'' (initialSigningDigest msgB) w1 of
                    (Panics, w2) \<Rightarrow> (Panics, ((srv, w2), out))
                  | (Returns (Inl e), w2) \<Rightarrow> (Returns (Inl e), ((srv, w2), out))
                  | (Returns (Inr sigB), w2) \<Rightarrow>
                      (Returns (Inr (SignInitialResponse sigA sigB)),
                       ((srv, w2), Info (logger V) ''SignInitial completed''
                          [(''event'', VStr ''sign_initial''), (''request_id'', VStr requestId),
                           (''operator_address'', VStr operatorAddress), (''success'', VBool True)] out)))))"

definition log_SignTx :: "'ty env \<Rightarrow> log_env \<Rightarrow> bytes \<Rightarrow> string \<Rightarrow> logged_state \<Rightarrow> response result \<times> logged_state" where
  "log_SignTx E V signDoc requestId lst =
     (case lst of ((srv, w), out) \<Rightarrow>
      case check_tx E (allowedMsgTypes srv) signDoc of
        Inl (Status c (MessageNotAllowed t)) \<Rightarrow>
          (Returns (Inl (Status c (MessageNotAllowed t))),
           ((srv, w), Error (logger V) ''SignTx rejected: message type not on allowlist''
              [(''type_url'', VStr t), (''request_id'', VStr requestId)] out))
      | Inl e \<Rightarrow> (Returns (Inl e), lst)
      | Inr _ \<Rightarrow>
          (case sign_raw E (sha256 signDoc) w of
             (Panics, w1) \<Rightarrow> (Panics, ((srv, w1), out))
           | (Returns (Inl e), w1) \<Rightarrow> (Returns (Inl (Status Internal (SigningFailed '''' e))), ((srv, w1), out))
           | (Returns (Inr sig), w1) \<Rightarrow>
               (Returns (Inr (SignTxResponse sig)), ((srv, w1), AuditSign (logger V) requestId (sha256 signDoc) None 0 out))))"

text \<open>Steps (1) to (6) of \<^verbatim>\<open>SignBridgeCheckpoint\<close>.\<close>

definition log_verify_checkpoint ::
    "'ty env \<Rightarrow> log_env \<Rightarrow> bytes \<Rightarrow> SignBridgeCheckpointRequest \<Rightarrow> log_record list \<Rightarrow> (status + bytes) \<times> log_record list" where
  "log_verify_checkpoint E V self req out =
     (case checkpoint_format req of
        Inl e \<Rightarrow> (Inl e, out)
      | Inr copied \<Rightarrow>
          let vs = sortBridgeValidators copied in
          (case encodeAndHashValidatorSet (eth E) vs of
             Inl e \<Rightarrow> (Inl (Status Internal (EncodeFailed e)), out)
           | Inr (_, valsetHash) \<Rightarrow>
               if valsetHash \<noteq> ValidatorSetHash req then
                 (Inl (Status InvalidArgument ValidatorSetHashMismatch),
                  Error (logger V) ''SignBridgeCheckpoint rejected: validator_set_hash mismatch''
                    [(''request_id'', VStr (CheckpointRequestId req)), (''computed'', VStr (hex_encode valsetHash)),
                     (''claimed'', VStr (hex_encode (ValidatorSetHash req)))] out)
               else if power_threshold vs \<noteq> PowerThreshold req then
                 (Inl (Status InvalidArgument (ThresholdMismatch (power_threshold vs) (PowerThreshold req))), out)
               else
                 (case computeDomainSeparator (eth E) (ChainId req) of
                    Inl e \<Rightarrow> (Inl (Status Internal (EncodeFailed e)), out)
                  | Inr domainSep \<Rightarrow>
                      if domainSep \<noteq> DomainSeparator req then
                        (Inl (Status InvalidArgument (DomainSeparatorMismatch (ChainId req))), out)
                      else if \<not> is_member E self vs then
                        (Inl (Status PermissionDenied NotMember),
                         Error (logger V) ''SignBridgeCheckpoint rejected: signer not a member of validator_set''
                           [(''request_id'', VStr (CheckpointRequestId req)), (''self_evm_addr'', VStr (evmHex V self))] out)
                      else
                        (case encodeValsetCheckpoint (eth E) domainSep (PowerThreshold req)
                                (ValidatorTimestamp req) valsetHash of
                           Inl e \<Rightarrow> (Inl (Status Internal (EncodeFailed e)), out)
                         | Inr checkpoint \<Rightarrow>
                             if checkpoint \<noteq> ExpectedCheckpoint req then
                               (Inl (Status InvalidArgument CheckpointMismatch),
                                Error (logger V) ''SignBridgeCheckpoint rejected: checkpoint mismatch''
                                  [(''request_id'', VStr (CheckpointRequestId req)), (''computed'', VStr (hex_encode checkpoint)),
                                   (''expected'', VStr (hex_encode (ExpectedCheckpoint req)))] out)
                             else (Inr checkpoint, out)))))"

text \<open>The backend call of the two vote-extension handlers, followed by its audit record.\<close>

definition audited_sign ::
    "'ty env \<Rightarrow> log_env \<Rightarrow> string \<Rightarrow> bytes \<Rightarrow> world \<Rightarrow> log_record list \<Rightarrow> bytes result \<times> world \<times> log_record list" where
  "audited_sign E V requestId digest w out =
     (case sign_raw E digest w of
        (Panics, w1) \<Rightarrow> (Panics, w1, out)
      | (Returns (Inl e), w1) \<Rightarrow>
          (Returns (Inl (Status Internal (SigningFailed '''' e))), w1,
           AuditSign (logger V) requestId digest (Some e) (elapsed V) out)
      | (Returns (Inr sig), w1) \<Rightarrow>
          (let out1 = AuditSign (logger V) requestId digest None (elapsed V) out in
           if length sig \<noteq> 64 then (Returns (Inl (Status Internal (SignatureLength '''' (length sig)))), w1, out1)
           else (Returns (Inr sig), w1, out1)))"

definition log_guard_answer ::
    "log_env \<Rightarrow> SignBridgeCheckpointRequest \<Rightarrow> bytes \<Rightarrow> guard_error \<Rightarrow> Server \<Rightarrow> log_record list
      \<Rightarrow> response result \<times> log_record list" where
  "log_guard_answer V req checkpoint e srv out =
     (let attrs = [(''request_id'', VStr (CheckpointRequestId req)), (''validator_timestamp'', VNat (ValidatorTimestamp req))];
          refusal = Returns (Inl (Status FailedPrecondition (ReplayGuard e)))
      in (case e of
            ErrReplayGuardRejected _ _ \<Rightarrow>
              (case CachedSignature (checkpointGuard srv) (ValidatorTimestamp req) checkpoint of
                 Some sig \<Rightarrow>
                   (Returns (Inr (SignBridgeCheckpointResponse sig checkpoint)),
                    Debug (logger V) ''SignBridgeCheckpoint replay guard: repeat checkpoint, returning memoized signature'' attrs out)
               | None \<Rightarrow>
                   (refusal,
                    Debug (logger V)
                      ''SignBridgeCheckpoint replay guard: repeat checkpoint, not re-signing (expected until the valset changes)''
                      attrs out))
          | _ \<Rightarrow>
              (refusal,
               Error (logger V) ''SignBridgeCheckpoint replay guard failure'' (attrs @ [(''error'', VStr (guardErrorText V e))]) out)))"

definition log_guard_record ::
    "log_env \<Rightarrow> SignBridgeCheckpointRequest \<Rightarrow> bytes \<Rightarrow> bytes \<Rightarrow> state \<Rightarrow> log_record list \<Rightarrow> logged_state" where
  "log_guard_record V req checkpoint sig st out =
     (case st of (srv, w) \<Rightarrow>
      case RecordSignature (checkpointGuard srv) (ValidatorTimestamp req) checkpoint sig (w_os w) of
        (r, g', o') \<Rightarrow>
          ((srv\<lparr>checkpointGuard := g'\<rparr>, w\<lparr>w_os := o'\<rparr>),
           (case r of
              Inl e \<Rightarrow>
                Error (logger V)
                  ''SignBridgeCheckpoint: failed to memoize signature; a repeat of this checkpoint will be rejected''
                  [(''request_id'', VStr (CheckpointRequestId req)), (''validator_timestamp'', VNat (ValidatorTimestamp req)),
                   (''error'', VStr (guardErrorText V e))] out
            | Inr _ \<Rightarrow> out)))"

definition log_SignBridgeCheckpoint ::
    "'ty env \<Rightarrow> log_env \<Rightarrow> call_ctx \<Rightarrow> SignBridgeCheckpointRequest \<Rightarrow> logged_state \<Rightarrow> response result \<times> logged_state" where
  "log_SignBridgeCheckpoint E V ctx req lst =
     (case lst of (st, out) \<Rightarrow>
      case log_verify_checkpoint E V (selfEVMAddr (fst st)) req out of
        (Inl e, out1) \<Rightarrow> (Returns (Inl e), (st, out1))
      | (Inr checkpoint, out1) \<Rightarrow>
          (case guard_advance (ValidatorTimestamp req) st of
             (Inl e, st1) \<Rightarrow>
               (case log_guard_answer V req checkpoint e (fst st1) out1 of (res, out2) \<Rightarrow> (res, (st1, out2)))
           | (Inr _, (srv, w)) \<Rightarrow>
               (case audited_sign E V (CheckpointRequestId req) (sha256 checkpoint) w out1 of
                  (Panics, w1, out2) \<Rightarrow> (Panics, ((srv, w1), out2))
                | (Returns (Inl e), w1, out2) \<Rightarrow> (Returns (Inl e), ((srv, w1), out2))
                | (Returns (Inr sig), w1, out2) \<Rightarrow>
                    (case log_guard_record V req checkpoint sig (srv, w1) out2 of
                       (st2, out3) \<Rightarrow>
                         (Returns (Inr (SignBridgeCheckpointResponse sig checkpoint)),
                          (st2, Info (logger V) ''SignBridgeCheckpoint completed''
                             [(''event'', VStr ''sign_bridge_checkpoint''), (''request_id'', VStr (CheckpointRequestId req)),
                              (''remote_addr'', VStr (peerAddr ctx)), (''chain_id'', VStr (ChainId req)),
                              (''block_height'', VNat (BlockHeight req)), (''checkpoint_index'', VNat (CheckpointIndex req)),
                              (''validator_timestamp'', VNat (ValidatorTimestamp req)),
                              (''checkpoint'', VStr (hex_encode checkpoint)), (''success'', VBool True)] out3))))))"

definition log_verify_attestation ::
    "'ty env \<Rightarrow> log_env \<Rightarrow> SignOracleAttestationRequest \<Rightarrow> log_record list \<Rightarrow> (status + bytes) \<times> log_record list" where
  "log_verify_attestation E V req out =
     (if QueryId req = [] \<or> length (QueryId req) > 32 then
        (Inl (Status InvalidArgument (FieldLength ''query_id'' (length (QueryId req)))), out)
      else if length (ValsetCheckpoint req) \<noteq> 32 then
        (Inl (Status InvalidArgument (FieldLength ''valset_checkpoint'' (length (ValsetCheckpoint req)))), out)
      else if length (ExpectedSnapshot req) \<noteq> 32 then
        (Inl (Status InvalidArgument (FieldLength ''expected_snapshot'' (length (ExpectedSnapshot req)))), out)
      else case encodeOracleAttestation (eth E) (request_attestation req) of
             Inl e \<Rightarrow> (Inl (Status Internal (EncodeFailed e)), out)
           | Inr snapshot \<Rightarrow>
               if snapshot \<noteq> ExpectedSnapshot req then
                 (Inl (Status InvalidArgument SnapshotMismatch),
                  Error (logger V) ''SignOracleAttestation rejected: snapshot mismatch''
                    [(''request_id'', VStr (AttestationRequestId req)), (''computed'', VStr (hex_encode snapshot)),
                     (''expected'', VStr (hex_encode (ExpectedSnapshot req)))] out)
               else (Inr snapshot, out))"

definition log_SignOracleAttestation ::
    "'ty env \<Rightarrow> log_env \<Rightarrow> call_ctx \<Rightarrow> SignOracleAttestationRequest \<Rightarrow> logged_state \<Rightarrow> response result \<times> logged_state" where
  "log_SignOracleAttestation E V ctx req lst =
     (case lst of ((srv, w), out) \<Rightarrow>
      case log_verify_attestation E V req out of
        (Inl e, out1) \<Rightarrow> (Returns (Inl e), ((srv, w), out1))
      | (Inr snapshot, out1) \<Rightarrow>
          (case audited_sign E V (AttestationRequestId req) (sha256 snapshot) w out1 of
             (Panics, w1, out2) \<Rightarrow> (Panics, ((srv, w1), out2))
           | (Returns (Inl e), w1, out2) \<Rightarrow> (Returns (Inl e), ((srv, w1), out2))
           | (Returns (Inr sig), w1, out2) \<Rightarrow>
               (Returns (Inr (SignOracleAttestationResponse sig snapshot)),
                ((srv, w1), Info (logger V) ''SignOracleAttestation completed''
                   [(''event'', VStr ''sign_oracle_attestation''), (''request_id'', VStr (AttestationRequestId req)),
                    (''remote_addr'', VStr (peerAddr ctx)), (''timestamp'', VNat (Timestamp req)),
                    (''aggregate_power'', VNat (AggregatePower req)), (''snapshot'', VStr (hex_encode snapshot)),
                    (''success'', VBool True)] out2))))"

text \<open>A handler that logs nothing.\<close>

definition silently :: "(state \<Rightarrow> response result \<times> state) \<Rightarrow> logged_state \<Rightarrow> response result \<times> logged_state" where
  "silently h lst = (case h (fst lst) of (res, st') \<Rightarrow> (res, (st', snd lst)))"

fun log_handler :: "'ty env \<Rightarrow> log_env \<Rightarrow> call_ctx \<Rightarrow> logged_state handler" where
  "log_handler E V ctx (SignRequest _ _) lst = silently Sign lst"
| "log_handler E V ctx GetPublicKeyRequest lst = log_GetPublicKey E V lst"
| "log_handler E V ctx (SignRawRequest _ _) lst = silently SignRaw lst"
| "log_handler E V ctx (GetAddressRequest pfx) lst = silently (GetAddress E pfx) lst"
| "log_handler E V ctx (SignTxRequest signDoc requestId) lst = log_SignTx E V signDoc requestId lst"
| "log_handler E V ctx GetChainIDRequest lst = silently GetChainID lst"
| "log_handler E V ctx (CheckpointRequest req) lst = log_SignBridgeCheckpoint E V ctx req lst"
| "log_handler E V ctx (AttestationRequest req) lst = log_SignOracleAttestation E V ctx req lst"
| "log_handler E V ctx (SignInitialRequest operatorAddress requestId) lst = log_SignInitial E V operatorAddress requestId lst"

section \<open>Interceptors\<close>

definition log_UnaryInterceptor :: "log_env \<Rightarrow> logged_state interceptor" where
  "log_UnaryInterceptor V = (\<lambda>ctx req info handler lst.
     let lst1 = (case peer ctx of None \<Rightarrow> lst | Some a \<Rightarrow> (fst lst, AuditConnection (logger V) a (snd lst)))
     in (case handler req lst1 of
           (Panics, (st', out')) \<Rightarrow>
             (Returns (Inl (Status Internal InternalServerError)),
              (st', Error (logger V) ''panic recovered in gRPC handler''
                 [(''method'', VStr info), (''panic'', VStr (panicText V))] out'))
         | (Returns r, lst') \<Rightarrow> (Returns r, lst')))"

definition log_PrimaryGateInterceptor :: "log_env \<Rightarrow> logged_state interceptor" where
  "log_PrimaryGateInterceptor V = (\<lambda>ctx req info handler lst.
     case primaryHost ctx of
       None \<Rightarrow> handler req lst
     | Some want \<Rightarrow>
         if info \<notin> set primaryGatedRPCs then handler req lst
         else if want = '''' then handler req lst
         else case peer ctx of
                None \<Rightarrow> handler req lst
              | Some addr \<Rightarrow>
                  if HostOf addr = want then handler req lst
                  else
                    (Returns (Inl (Status FailedPrecondition NotPrimary)),
                     (fst lst, Debug (logger V) ''refusing vote-extension sign request from non-primary node''
                        [(''method'', VStr info), (''from'', VStr (HostOf addr)), (''primary'', VStr want)] (snd lst))))"

definition log_serve :: "'ty env \<Rightarrow> log_env \<Rightarrow> call_ctx \<Rightarrow> request \<Rightarrow> logged_state \<Rightarrow> response result \<times> logged_state" where
  "log_serve E V ctx req lst =
     unary_call
       (chainUnaryInterceptors
          [Some (log_UnaryInterceptor V), Some (newEnabledRPCInterceptor (enabledRPCs (fst (fst lst)))),
           Some (log_PrimaryGateInterceptor V)])
       ctx (log_handler E V ctx) req lst"

section \<open>Leaving the log out\<close>

text \<open>
  \<open>erases lh h\<close>: the call \<open>lh\<close> answers like \<open>h\<close>, changes the state like \<open>h\<close>, and only appends to the
  log.
\<close>

definition erases :: "(logged_state \<Rightarrow> 'r \<times> logged_state) \<Rightarrow> (state \<Rightarrow> 'r \<times> state) \<Rightarrow> bool" where
  "erases lh h \<longleftrightarrow>
     (\<forall>st out. fst (lh (st, out)) = fst (h st) \<and> fst (snd (lh (st, out))) = snd (h st) \<and> prefix out (snd (snd (lh (st, out)))))"

named_theorems log_defs

lemmas log_line_defs [log_defs] = Info_def Debug_def Error_def AuditSign_def AuditGetPublicKey_def AuditConnection_def emit_def

lemma erases_GetPublicKey: "erases (log_GetPublicKey E V) (GetPublicKey E)"
  by (auto simp: erases_def log_GetPublicKey_def GetPublicKey_def Let_def log_defs split: prod.splits sum.splits)

lemma erases_SignInitial: "erases (log_SignInitial E V op i) (SignInitial E op)"
  by (auto simp: erases_def log_SignInitial_def SignInitial_def log_defs split: prod.splits sum.splits go.splits)

lemma erases_SignTx: "erases (log_SignTx E V doc i) (SignTx E doc)"
  by (auto simp: erases_def log_SignTx_def SignTx_def log_defs
      split: prod.splits sum.splits go.splits status.splits reason.splits)

lemma erases_silently: "erases (silently h) h"
  by (simp add: erases_def silently_def split: prod.splits)

lemma log_verify_checkpoint_fst: "fst (log_verify_checkpoint E V self req out) = verify_checkpoint E self req"
  by (simp add: log_verify_checkpoint_def verify_checkpoint_def Let_def split: sum.splits prod.splits)

lemma log_verify_checkpoint_prefix: "prefix out (snd (log_verify_checkpoint E V self req out))"
  by (simp add: log_verify_checkpoint_def Let_def log_defs split: sum.splits prod.splits)

lemma log_verify_attestation_fst: "fst (log_verify_attestation E V req out) = verify_attestation E req"
  by (simp add: log_verify_attestation_def verify_attestation_def split: sum.splits)

lemma log_verify_attestation_prefix: "prefix out (snd (log_verify_attestation E V req out))"
  by (simp add: log_verify_attestation_def log_defs split: sum.splits)

lemma audited_sign_fst:
  "fst (audited_sign E V i d w out) = fst (checked_sign E '''' d w)"
  "fst (snd (audited_sign E V i d w out)) = snd (checked_sign E '''' d w)"
  by (simp_all add: audited_sign_def checked_sign_def Let_def split: prod.splits go.splits sum.splits)

lemma audited_sign_prefix: "prefix out (snd (snd (audited_sign E V i d w out)))"
  by (simp add: audited_sign_def Let_def log_defs split: prod.splits go.splits sum.splits option.splits)

lemma log_guard_answer_fst: "fst (log_guard_answer V req c e srv out) = guard_answer (ValidatorTimestamp req) c e srv"
  by (simp add: log_guard_answer_def guard_answer_def Let_def split: guard_error.splits option.splits)

lemma log_guard_answer_prefix: "prefix out (snd (log_guard_answer V req c e srv out))"
  by (simp add: log_guard_answer_def Let_def log_defs split: guard_error.splits option.splits)

lemma log_guard_record_fst: "fst (log_guard_record V req c sig st out) = guard_record (ValidatorTimestamp req) c sig st"
  by (simp add: log_guard_record_def guard_record_def split: prod.splits)

lemma log_guard_record_prefix: "prefix out (snd (log_guard_record V req c sig st out))"
  by (simp add: log_guard_record_def log_defs split: prod.splits sum.splits)

lemma erases_SignBridgeCheckpoint: "erases (log_SignBridgeCheckpoint E V ctx req) (SignBridgeCheckpoint E req)"
  unfolding erases_def
proof (intro allI)
  fix st :: state and out
  obtain r out1 where v: "log_verify_checkpoint E V (selfEVMAddr (fst st)) req out = (r, out1)" by fastforce
  have r: "verify_checkpoint E (selfEVMAddr (fst st)) req = r" and p1: "prefix out out1"
    using log_verify_checkpoint_fst [of E V "selfEVMAddr (fst st)" req out]
      log_verify_checkpoint_prefix [of out E V "selfEVMAddr (fst st)" req] v by simp_all
  have p2: "prefix out (snd (log_guard_answer V req c e srv out1))"
    and p3: "prefix out (snd (snd (audited_sign E V i d w out1)))" for c e srv i d w
    using p1 log_guard_answer_prefix audited_sign_prefix prefix_order.trans by blast+
  have p4: "guard_record (ValidatorTimestamp req) c sig st2 = st3 \<and> prefix out out3"
    if "log_guard_record V req c sig st2 out2 = (st3, out3)" "prefix out out2" for c sig st2 st3 out2 out3
    using that log_guard_record_prefix [of out2 V req c sig st2] log_guard_record_fst [of V req c sig st2 out2]
      prefix_order.trans by auto
  show "fst (log_SignBridgeCheckpoint E V ctx req (st, out)) = fst (SignBridgeCheckpoint E req st)
    \<and> fst (snd (log_SignBridgeCheckpoint E V ctx req (st, out))) = snd (SignBridgeCheckpoint E req st)
    \<and> prefix out (snd (snd (log_SignBridgeCheckpoint E V ctx req (st, out))))"
  proof (cases r)
    case (Inl e)
    then show ?thesis using v r p1 by (simp add: log_SignBridgeCheckpoint_def SignBridgeCheckpoint_def)
  next
    case (Inr c)
    obtain a srv w where a: "guard_advance (ValidatorTimestamp req) st = (a, (srv, w))" by (metis prod.collapse)
    note step = log_SignBridgeCheckpoint_def SignBridgeCheckpoint_def v r Inr a
    show ?thesis
    proof (cases a)
      case (Inl e)
      then show ?thesis using p2 [of c e srv] log_guard_answer_fst [of V req c e srv out1]
        by (auto simp: step split: prod.splits)
    next
      case (Inr u)
      obtain s w1 out2 where s: "audited_sign E V (CheckpointRequestId req) (sha256 c) w out1 = (s, w1, out2)"
        by (metis prod.collapse)
      have cs: "checked_sign E '''' (sha256 c) w = (s, w1)" and q: "prefix out out2"
        using audited_sign_fst [of E V "CheckpointRequestId req" "sha256 c" w out1]
          p3 [of "CheckpointRequestId req" "sha256 c" w] s by (simp_all add: prod_eq_iff)
      show ?thesis using q
        by (auto simp: step Inr s cs Info_def emit_def split: prod.splits go.splits sum.splits dest!: p4)
    qed
  qed
qed

lemma erases_SignOracleAttestation: "erases (log_SignOracleAttestation E V ctx req) (SignOracleAttestation E req)"
  unfolding erases_def
proof (intro allI)
  fix st :: state and out
  obtain srv w where st: "st = (srv, w)" by fastforce
  obtain r out1 where v: "log_verify_attestation E V req out = (r, out1)" by fastforce
  have r: "verify_attestation E req = r" and p1: "prefix out out1"
    using log_verify_attestation_fst [of E V req out] log_verify_attestation_prefix [of out E V req] v by simp_all
  obtain s w1 out2 where s: "audited_sign E V (AttestationRequestId req) (sha256 (projr r)) w out1 = (s, w1, out2)"
    by (metis prod.collapse)
  have cs: "checked_sign E '''' (sha256 (projr r)) w = (s, w1)" and q: "prefix out out2"
    using audited_sign_fst [of E V "AttestationRequestId req" "sha256 (projr r)" w out1]
      audited_sign_prefix [of out1 E V "AttestationRequestId req" "sha256 (projr r)" w] s p1 prefix_order.trans
    by (auto simp: prod_eq_iff)
  show "fst (log_SignOracleAttestation E V ctx req (st, out)) = fst (SignOracleAttestation E req st)
    \<and> fst (snd (log_SignOracleAttestation E V ctx req (st, out))) = snd (SignOracleAttestation E req st)
    \<and> prefix out (snd (snd (log_SignOracleAttestation E V ctx req (st, out))))"
    using p1 q s cs
    by (auto simp: log_SignOracleAttestation_def SignOracleAttestation_def st v r log_defs
        split: sum.splits go.splits)
qed

lemmas erases_handlers =
  erases_GetPublicKey erases_SignInitial erases_SignTx erases_silently erases_SignBridgeCheckpoint erases_SignOracleAttestation

lemma erases_handler: "erases (log_handler E V ctx req) (bridge_handler E req)"
  using erases_handlers unfolding erases_def by (cases req) simp_all

section \<open>The interceptor chain\<close>

definition connection_logged :: "log_env \<Rightarrow> call_ctx \<Rightarrow> log_record list \<Rightarrow> log_record list" where
  "connection_logged V ctx out = (case peer ctx of None \<Rightarrow> out | Some a \<Rightarrow> AuditConnection (logger V) a out)"

definition panic_logged :: "log_env \<Rightarrow> string \<Rightarrow> response result \<Rightarrow> log_record list \<Rightarrow> log_record list" where
  "panic_logged V m res out =
     (case res of
        Panics \<Rightarrow> out @ [(LevelError, ''panic recovered in gRPC handler'', [(''method'', VStr m), (''panic'', VStr (panicText V))])]
      | Returns _ \<Rightarrow> out)"

lemma log_gate:
  "\<exists>out'. log_PrimaryGateInterceptor V ctx req m h (st, out) =
     (if gate_refuses ctx m then (Returns (Inl (Status FailedPrecondition NotPrimary)), (st, out')) else h req (st, out))
     \<and> (out' = out \<or> (\<exists>attrs. out' = out @ [(LevelDebug, ''refusing vote-extension sign request from non-primary node'',
          (''method'', VStr m) # attrs)] \<and> set (map fst attrs) \<subseteq> {''from'', ''primary''}))"
  by (auto simp: log_PrimaryGateInterceptor_def gate_refuses_def log_defs split: option.splits)

lemma log_serve_cases:
  "\<exists>out1. log_serve E V ctx req ((srv, w), out) =
     (let m = full_method req; out0 = connection_logged V ctx out in
      if enabledRPCs srv m = Some False then (Returns (Inl (Status Unimplemented (MethodDisabled m))), ((srv, w), out0))
      else if gate_refuses ctx m then (Returns (Inl (Status FailedPrecondition NotPrimary)), ((srv, w), out1))
      else (case log_handler E V ctx req ((srv, w), out0) of
              (res, (st', out')) \<Rightarrow> (recovered res, (st', panic_logged V m res out'))))
     \<and> (out1 = connection_logged V ctx out \<or> (\<exists>attrs. out1 = connection_logged V ctx out @
          [(LevelDebug, ''refusing vote-extension sign request from non-primary node'',
            (''method'', VStr (full_method req)) # attrs)] \<and> set (map fst attrs) \<subseteq> {''from'', ''primary''}))"
proof -
  let ?m = "full_method req" and ?out0 = "connection_logged V ctx out"
  obtain out1 where gate: "log_PrimaryGateInterceptor V ctx req ?m (log_handler E V ctx) ((srv, w), ?out0) =
       (if gate_refuses ctx ?m then (Returns (Inl (Status FailedPrecondition NotPrimary)), ((srv, w), out1))
        else log_handler E V ctx req ((srv, w), ?out0))"
    and out1: "out1 = ?out0 \<or> (\<exists>attrs. out1 = ?out0 @ [(LevelDebug, ''refusing vote-extension sign request from non-primary node'',
          (''method'', VStr ?m) # attrs)] \<and> set (map fst attrs) \<subseteq> {''from'', ''primary''})"
    using log_gate by blast
  have start: "(case peer ctx of None \<Rightarrow> ((srv, w), out)
      | Some a \<Rightarrow> (fst ((srv, w), out), AuditConnection (logger V) a (snd ((srv, w), out)))) = ((srv, w), ?out0)"
    by (simp add: connection_logged_def split: option.splits)
  show ?thesis
    using out1
    by (intro exI [of _ out1])
      (simp add: log_serve_def unary_call_def chainUnaryInterceptors_def log_UnaryInterceptor_def start gate
        newEnabledRPCInterceptor_def Let_def panic_logged_def Error_def emit_error split: prod.splits go.splits)
qed

lemma connection_logged_prefix: "prefix out (connection_logged V ctx out)"
  by (simp add: connection_logged_def log_defs split: option.splits)

lemma panic_logged_prefix: "prefix out out' \<Longrightarrow> prefix out (panic_logged V m res out')"
  by (simp add: panic_logged_def split: go.splits)

lemma log_serve_erases: "erases (log_serve E V ctx req) (serve E ctx req)"
  unfolding erases_def
proof (intro allI)
  fix st :: state and out
  obtain srv w where st: "st = (srv, w)" by fastforce
  let ?out0 = "connection_logged V ctx out"
  obtain res st' out' where h: "log_handler E V ctx req ((srv, w), ?out0) = (res, (st', out'))" by (metis prod.collapse)
  have e: "bridge_handler E req (srv, w) = (res, st')" "prefix ?out0 out'"
    using erases_handler [of E V ctx req] h unfolding erases_def by (metis fst_conv snd_conv prod.collapse)+
  have p: "prefix out ?out0" "prefix out out'"
    using connection_logged_prefix e(2) prefix_order.trans by blast+
  show "fst (log_serve E V ctx req (st, out)) = fst (serve E ctx req st)
    \<and> fst (snd (log_serve E V ctx req (st, out))) = snd (serve E ctx req st)
    \<and> prefix out (snd (snd (log_serve E V ctx req (st, out))))"
    using log_serve_cases [of E V ctx req srv w out] p panic_logged_prefix [OF p(2)]
    by (auto simp: st serve_cases Let_def h e)
qed

lemma log_serve_answers:
  assumes "serve E ctx req st = (res, st')"
  shows "\<exists>out'. log_serve E V ctx req (st, out) = (res, (st', out')) \<and> prefix out out'"
  using log_serve_erases [of E V ctx req] assms unfolding erases_def by (metis fst_conv snd_conv prod.collapse)

section \<open>The audit trail of the server\<close>

definition audits :: "log_record list \<Rightarrow> (string \<times> string \<times> bool) list" where
  "audits out = List.map_filter audit_outcome out"

lemma audits_append: "audits (xs @ ys) = audits xs @ audits ys"
  by (simp add: audits_def map_filter_def)

lemma audits_single: "audits [r] = (case audit_outcome r of None \<Rightarrow> [] | Some a \<Rightarrow> [a])"
  by (simp add: audits_def map_filter_def split: option.splits)

lemma audits_emit:
  assumes "map_of attrs ''msg_hash'' = None"
  shows "audits (emit l lev msg attrs out) = audits out"
  using assms by (simp add: emit_def audits_append audits_single audit_outcome_def split: option.splits attr_value.splits)

lemma audits_AuditSign:
  assumes "level_int (log_level l) \<le> level_int LevelInfo"
  shows "audits (AuditSign l i d err t out) = audits out @ [(i, hex_encode (sha256 d), err = None)]"
  using assms by (simp add: AuditSign_def Let_def emit_def audits_append audits_single audit_outcome_def split: option.splits)

lemmas audits_lines = audits_emit Info_def Debug_def Error_def AuditGetPublicKey_def AuditConnection_def

text \<open>The audit records a backend call is to leave.\<close>

definition backend_audit :: "'ty env \<Rightarrow> string \<Rightarrow> nat \<Rightarrow> bytes \<Rightarrow> (string \<times> string \<times> bool) list" where
  "backend_audit E i n d =
     (case backendSignRaw E n d of Panics \<Rightarrow> [] | Returns r \<Rightarrow> [(i, hex_encode (sha256 d), ok r)])"

lemma audited_sign_audits:
  assumes "level_int (log_level (logger V)) \<le> level_int LevelInfo"
  shows "audits (snd (snd (audited_sign E V i d w out))) = audits out @ backend_audit E i (length (sign_log w)) d"
  using audits_AuditSign [OF assms]
  by (simp add: audited_sign_def sign_raw_def backend_audit_def Let_def split: go.splits sum.splits)

lemma log_verify_checkpoint_audits: "audits (snd (log_verify_checkpoint E V self req out)) = audits out"
  by (simp add: log_verify_checkpoint_def Let_def audits_lines split: sum.splits prod.splits)

lemma log_verify_attestation_audits: "audits (snd (log_verify_attestation E V req out)) = audits out"
  by (simp add: log_verify_attestation_def audits_lines split: sum.splits)

lemma log_guard_answer_audits: "audits (snd (log_guard_answer V req c e srv out)) = audits out"
  by (simp add: log_guard_answer_def Let_def audits_lines split: guard_error.splits option.splits)

lemma log_guard_record_audits: "audits (snd (log_guard_record V req c sig st out)) = audits out"
  by (simp add: log_guard_record_def audits_lines split: prod.splits sum.splits)

lemma log_serve_audits:
  assumes "log_serve E V ctx req ((srv, w), out) = (res, (st', out'))"
  shows "(st' = (srv, w) \<and> audits out' = audits out)
    \<or> (\<exists>res0 out0 out1. audits out0 = audits out \<and> audits out' = audits out1
         \<and> log_handler E V ctx req ((srv, w), out0) = (res0, (st', out1)))"
proof -
  have c: "audits (connection_logged V ctx out) = audits out"
    by (simp add: connection_logged_def audits_lines split: option.splits)
  have p: "audits (panic_logged V m r o') = audits o'" for m r o'
    by (simp add: panic_logged_def audits_append audits_single audit_outcome_def split: go.splits)
  have g: "audits (xs @ [(l, t, (''method'', VStr m) # attrs)]) = audits xs"
    if "set (map fst attrs) \<subseteq> {''from'', ''primary''}" for xs l t m attrs
  proof -
    have "map_of attrs ''msg_hash'' = None" using that by (auto simp: map_of_eq_None_iff)
    then show ?thesis by (simp add: audits_append audits_single audit_outcome_def split: option.splits attr_value.splits)
  qed
  show ?thesis
    using log_serve_cases [of E V ctx req srv w out] assms c g
    by (auto simp: Let_def p split: if_splits prod.splits)
qed

text \<open>One call: it leaves exactly the audit record of the backend call it made, if it made one.\<close>

definition one_audit :: "'ty env \<Rightarrow> string \<Rightarrow> world \<Rightarrow> log_record list \<Rightarrow> world \<Rightarrow> log_record list \<Rightarrow> bool" where
  "one_audit E i w out w' out' \<longleftrightarrow>
     sign_log w' = sign_log w \<and> audits out' = audits out
     \<or> (\<exists>d. sign_log w' = sign_log w @ [d] \<and> audits out' = audits out @ backend_audit E i (length (sign_log w)) d)"

fun RequestIdOf :: "request \<Rightarrow> string" where
  "RequestIdOf (SignRequest _ i) = i"
| "RequestIdOf (SignRawRequest _ i) = i"
| "RequestIdOf (SignTxRequest _ i) = i"
| "RequestIdOf (CheckpointRequest r) = CheckpointRequestId r"
| "RequestIdOf (AttestationRequest r) = AttestationRequestId r"
| "RequestIdOf (SignInitialRequest _ i) = i"
| "RequestIdOf _ = ''''"

text \<open>
  The calls whose backend calls are audited whatever the backend answers; \<^verbatim>\<open>SignTx\<close> is one only if the
  backend does not fail, \<^verbatim>\<open>SignInitial\<close> never is.
\<close>

fun audited_request :: "'ty env \<Rightarrow> request \<Rightarrow> bool" where
  "audited_request E (SignInitialRequest _ _) = False"
| "audited_request E (SignTxRequest _ _) = (\<forall>n d. \<exists>sig. backendSignRaw E n d = Returns (Inr sig))"
| "audited_request E _ = True"

lemma guard_advance_sign_log: "guard_advance ts (srv, w) = (r, (srv', w')) \<Longrightarrow> sign_log w' = sign_log w"
  by (auto simp: guard_advance_def split: prod.splits)

lemma guard_record_sign_log: "sign_log (snd (guard_record ts c sig (srv, w))) = sign_log w"
  by (simp add: guard_record_def split: prod.splits)

lemma checkpoint_audited:
  assumes lev: "level_int (log_level (logger V)) \<le> level_int LevelInfo"
    and run: "log_SignBridgeCheckpoint E V ctx req ((srv, w), out) = (res, ((srv', w'), out'))"
  shows "one_audit E (CheckpointRequestId req) w out w' out'"
proof -
  obtain r out1 where v: "log_verify_checkpoint E V (selfEVMAddr srv) req out = (r, out1)" by fastforce
  have o1: "audits out1 = audits out" using log_verify_checkpoint_audits [of E V "selfEVMAddr srv" req out] v by simp
  show ?thesis
  proof (cases r)
    case (Inl e)
    then show ?thesis using run v o1 by (simp add: log_SignBridgeCheckpoint_def one_audit_def)
  next
    case (Inr c)
    obtain a srv1 w1 where a: "guard_advance (ValidatorTimestamp req) (srv, w) = (a, (srv1, w1))" by (metis prod.collapse)
    note w1 = guard_advance_sign_log [OF a]
    note step = log_SignBridgeCheckpoint_def v Inr a
    show ?thesis
    proof (cases a)
      case (Inl e)
      then show ?thesis using run w1 o1 log_guard_answer_audits [of V req c e srv1 out1]
        by (auto simp: step one_audit_def split: prod.splits)
    next
      case (Inr u)
      obtain s w2 out2 where s: "audited_sign E V (CheckpointRequestId req) (sha256 c) w1 out1 = (s, w2, out2)"
        by (metis prod.collapse)
      have w2: "sign_log w2 = sign_log w @ [sha256 c]"
        using audited_sign_fst(2) [of E V "CheckpointRequestId req" "sha256 c" w1 out1] s w1 by simp
      have o2: "audits out2 = audits out @ backend_audit E (CheckpointRequestId req) (length (sign_log w)) (sha256 c)"
        using audited_sign_audits [OF lev, of E "CheckpointRequestId req" "sha256 c" w1 out1] s w1 o1 by simp
      have "sign_log w' = sign_log w2 \<and> audits out' = audits out2"
        using run guard_record_sign_log [of _ c _ srv1 w2] log_guard_record_fst [of V req c _ "(srv1, w2)" out2]
          log_guard_record_audits [of V req c _ "(srv1, w2)" out2]
        by (auto simp: step Inr s audits_lines split: go.splits sum.splits prod.splits) (metis fst_conv snd_conv)+
      then show ?thesis using w2 o2 by (auto simp: one_audit_def)
    qed
  qed
qed

lemma attestation_audited:
  assumes lev: "level_int (log_level (logger V)) \<le> level_int LevelInfo"
    and run: "log_SignOracleAttestation E V ctx req ((srv, w), out) = (res, ((srv', w'), out'))"
  shows "one_audit E (AttestationRequestId req) w out w' out'"
proof -
  obtain r out1 where v: "log_verify_attestation E V req out = (r, out1)" by fastforce
  have o1: "audits out1 = audits out" using log_verify_attestation_audits [of E V req out] v by simp
  show ?thesis
  proof (cases r)
    case (Inl e)
    then show ?thesis using run v o1 by (simp add: log_SignOracleAttestation_def one_audit_def)
  next
    case (Inr c)
    obtain s w2 out2 where s: "audited_sign E V (AttestationRequestId req) (sha256 c) w out1 = (s, w2, out2)"
      by (metis prod.collapse)
    have w2: "sign_log w2 = sign_log w @ [sha256 c]"
      using audited_sign_fst(2) [of E V "AttestationRequestId req" "sha256 c" w out1] s by simp
    have o2: "audits out2 = audits out @ backend_audit E (AttestationRequestId req) (length (sign_log w)) (sha256 c)"
      using audited_sign_audits [OF lev, of E "AttestationRequestId req" "sha256 c" w out1] s o1 by simp
    have "w' = w2 \<and> audits out' = audits out2"
      using run by (auto simp: log_SignOracleAttestation_def v Inr s audits_lines split: go.splits sum.splits)
    then show ?thesis using w2 o2 by (auto simp: one_audit_def)
  qed
qed

lemma signtx_audited:
  assumes lev: "level_int (log_level (logger V)) \<le> level_int LevelInfo"
    and nofail: "\<forall>n d. \<exists>sig. backendSignRaw E n d = Returns (Inr sig)"
    and run: "log_SignTx E V doc i ((srv, w), out) = (res, ((srv', w'), out'))"
  shows "one_audit E i w out w' out'"
proof (cases "check_tx E (allowedMsgTypes srv) doc")
  case (Inl e)
  then show ?thesis using run
    by (auto simp: log_SignTx_def one_audit_def audits_lines split: status.splits reason.splits)
next
  case (Inr u)
  obtain sig where sig: "backendSignRaw E (length (sign_log w)) (sha256 doc) = Returns (Inr sig)" using nofail by blast
  have "w' = w\<lparr>sign_log := sign_log w @ [sha256 doc]\<rparr> \<and> out' = AuditSign (logger V) i (sha256 doc) None 0 out"
    using run by (simp add: log_SignTx_def Inr sign_raw_def sig)
  then show ?thesis using audits_AuditSign [OF lev] by (simp add: one_audit_def backend_audit_def sig)
qed

lemma handler_audited:
  assumes lev: "level_int (log_level (logger V)) \<le> level_int LevelInfo" and aud: "audited_request E req"
    and run: "log_handler E V ctx req ((srv, w), out) = (res, ((srv', w'), out'))"
  shows "one_audit E (RequestIdOf req) w out w' out'"
proof -
  have silent: "one_audit E i w out w' out'"
    if "silently h ((srv, w), out) = (res, ((srv', w'), out'))" "sign_log (snd (snd (h (srv, w)))) = sign_log w" for h i
    using that by (auto simp: silently_def one_audit_def split: prod.splits)
  show ?thesis
  proof (cases req)
    case (GetAddressRequest p)
    have "sign_log (snd (snd (GetAddress E p (srv, w)))) = sign_log w"
      by (simp add: GetAddress_def Bech32Address_def get_public_key_def split: sum.splits)
    then show ?thesis using silent run GetAddressRequest by simp
  next
    case GetPublicKeyRequest
    then show ?thesis using run
      by (auto simp: log_GetPublicKey_def get_public_key_def one_audit_def audits_lines Let_def split: sum.splits if_splits)
  next
    case (SignTxRequest doc i)
    then show ?thesis using signtx_audited [OF lev, of E doc i] aud run by auto
  next
    case (CheckpointRequest r)
    then show ?thesis using checkpoint_audited [OF lev] run by auto
  next
    case (AttestationRequest r)
    then show ?thesis using attestation_audited [OF lev] run by auto
  next
    case (SignInitialRequest op i)
    then show ?thesis using aud by simp
  qed (use silent run in \<open>simp_all add: Sign_def SignRaw_def GetChainID_def\<close>)
qed

lemma serve_audited:
  assumes "level_int (log_level (logger V)) \<le> level_int LevelInfo" and "audited_request E req"
    and "log_serve E V ctx req ((srv, w), out) = (res, ((srv', w'), out'))"
  shows "one_audit E (RequestIdOf req) w out w' out'"
  using log_serve_audits [OF assms(3)] handler_audited [OF assms(1,2)]
  by (fastforce simp: one_audit_def)

text \<open>A sequence of calls, and what the audit trail should say of the digests the backend was given.\<close>

fun log_calls :: "'ty env \<Rightarrow> log_env \<Rightarrow> (call_ctx \<times> request) list \<Rightarrow> logged_state \<Rightarrow> logged_state" where
  "log_calls E V [] lst = lst"
| "log_calls E V ((ctx, req) # cs) lst = log_calls E V cs (snd (log_serve E V ctx req lst))"

definition digest_outcome :: "'ty env \<Rightarrow> nat \<times> bytes \<Rightarrow> string \<times> bool" where
  "digest_outcome E nd =
     (hex_encode (sha256 (snd nd)), (case backendSignRaw E (fst nd) (snd nd) of Returns r \<Rightarrow> ok r | Panics \<Rightarrow> False))"

lemma backend_audit_snd:
  assumes "\<forall>n d. backendSignRaw E n d \<noteq> Panics"
  shows "backend_audit E i n d = [(i, digest_outcome E (n, d))]"
  using assms by (simp add: backend_audit_def digest_outcome_def split: go.splits)

lemma calls_audited:
  assumes lev: "level_int (log_level (logger V)) \<le> level_int LevelInfo" and np: "\<forall>n d. backendSignRaw E n d \<noteq> Panics"
    and "\<forall>c\<in>set calls. audited_request E (snd c)"
    and "log_calls E V calls ((srv, w), out) = ((srv', w'), out')"
  shows "\<exists>ds as. sign_log w' = sign_log w @ ds \<and> audits out' = audits out @ as
    \<and> map snd as = map (digest_outcome E) (enumerate (length (sign_log w)) ds)
    \<and> subseq (map fst as) (map (\<lambda>c. RequestIdOf (snd c)) calls)"
  using assms(3,4)
proof (induction calls arbitrary: srv w out)
  case Nil
  then show ?case by auto
next
  case (Cons c cs)
  obtain ctx req where c: "c = (ctx, req)" by fastforce
  obtain res srv1 w1 out1 where s: "log_serve E V ctx req ((srv, w), out) = (res, ((srv1, w1), out1))"
    by (metis prod.collapse)
  have one: "one_audit E (RequestIdOf req) w out w1 out1" using serve_audited [OF lev _ s] Cons.prems(1) c by simp
  have "log_calls E V cs ((srv1, w1), out1) = ((srv', w'), out')" using Cons.prems(2) c s by simp
  then obtain ds as where ih: "sign_log w' = sign_log w1 @ ds" "audits out' = audits out1 @ as"
      "map snd as = map (digest_outcome E) (enumerate (length (sign_log w1)) ds)"
      "subseq (map fst as) (map (\<lambda>c. RequestIdOf (snd c)) cs)"
    using Cons.IH [of srv1 w1 out1] Cons.prems(1) by auto
  from one [unfolded one_audit_def] show ?case
  proof (elim disjE exE conjE)
    assume "sign_log w1 = sign_log w" "audits out1 = audits out"
    with ih show ?thesis by (intro exI [of _ ds] exI [of _ as]) auto
  next
    fix d
    assume d: "sign_log w1 = sign_log w @ [d]"
      "audits out1 = audits out @ backend_audit E (RequestIdOf req) (length (sign_log w)) d"
    with ih show ?thesis unfolding backend_audit_snd [OF np]
      by (intro exI [of _ "d # ds"] exI [of _ "(RequestIdOf req, digest_outcome E (length (sign_log w), d)) # as"])
        (simp add: c)
  qed
qed

text \<open>Claim C13: the audit trail is complete and truthful.  With a logger configured at level \<^verbatim>\<open>debug\<close> or \<^verbatim>\<open>info\<close>
  and a backend that does not panic, after any sequence of calls other than \<^verbatim>\<open>SignInitial\<close> (and \<^verbatim>\<open>SignTx\<close> only if the
  backend does not fail), the audit records appended to the log are, in order and one for one, those of the
  digests the backend was given: each has the hash of its digest and whether the backend signed it, and their
  request ids come from the calls, in the order of the calls.\<close>

theorem audit_trail_complete:
  assumes "New_logger level format = Inr (logger V)" and "level \<in> {''debug'', ''info''}"
    and "\<forall>n d. backendSignRaw E n d \<noteq> Panics"
    and "\<forall>c\<in>set calls. audited_request E (snd c)"
    and "log_calls E V calls ((srv, w), out) = ((srv', w'), out')"
  shows "\<exists>ds as. sign_log w' = sign_log w @ ds \<and> audits out' = audits out @ as
    \<and> map snd as = map (digest_outcome E) (enumerate (length (sign_log w)) ds)
    \<and> subseq (map fst as) (map (\<lambda>c. RequestIdOf (snd c)) calls)"
proof -
  have "level_int (log_level (logger V)) \<le> level_int LevelInfo"
    using New_logger_level [OF assms(1)] assms(2) by (auto simp: parseLevel_def)
  then show ?thesis by (rule calls_audited [OF _ assms(3-5)])
qed

definition demo_log :: log_env where
  "demo_log =
     \<lparr>logger = \<lparr>log_level = LevelInfo, add_source = False, log_format = JSONHandler\<rparr>, guardErrorText = (\<lambda>_. ''guard''),
      panicText = ''panic'', evmHex = hex_encode, elapsed = 1500000\<rparr>"

definition demo_ctx :: call_ctx where
  "demo_ctx = \<lparr>peer = Some ''10.0.0.1:4000'', primaryHost = None\<rparr>"

lemma demo_served:
  "\<exists>srv' w' out'. log_calls demo_env demo_log [(demo_ctx, CheckpointRequest (demo_request demo_valset 5 9))] ((demo_server, demo_world), [])
      = ((srv', w'), out') \<and> sign_log w' = [sha256 (ExpectedCheckpoint (demo_request demo_valset 5 9))]"
proof -
  let ?r = "demo_request demo_valset 5 9"
  obtain o1 where o1: "CheckAndAdvance demo_guard 9 demo_os = (Inr (), demo_guard\<lparr>highWater := 9\<rparr>, o1)" using demo_sign by blast
  have ts: "ValidatorTimestamp ?r = 9" by (simp add: demo_request_def Let_def)
  have "sign_log (snd (snd (SignBridgeCheckpoint demo_env ?r (demo_server, demo_world)))) = [sha256 (ExpectedCheckpoint ?r)]"
    using demo_verify [of 9] o1
    by (simp add: SignBridgeCheckpoint_def demo_server_def demo_world_def ts guard_advance_def checked_sign_def demo_env_def
        guard_record_sign_log [unfolded prod.collapse])
  then have "sign_log (snd (snd (serve demo_env demo_ctx (CheckpointRequest ?r) (demo_server, demo_world)))) = [sha256 (ExpectedCheckpoint ?r)]"
    by (simp add: serve_cases demo_server_def demo_ctx_def gate_refuses_def)
  then show ?thesis using log_serve_erases [of demo_env demo_log demo_ctx "CheckpointRequest ?r"] unfolding erases_def
    by (metis log_calls.simps prod.collapse)
qed

theorem audit_trail_complete_witness:
  "\<exists>st' out'. log_calls demo_env demo_log [(demo_ctx, CheckpointRequest (demo_request demo_valset 5 9))] ((demo_server, demo_world), [])
      = (st', out')
    \<and> audits out' = [('''', hex_encode (sha256 (sha256 (ExpectedCheckpoint (demo_request demo_valset 5 9)))), True)]"
proof -
  let ?r = "demo_request demo_valset 5 9"
  obtain srv' w' out' where run: "log_calls demo_env demo_log [(demo_ctx, CheckpointRequest ?r)] ((demo_server, demo_world), [])
      = ((srv', w'), out')" and ds: "sign_log w' = [sha256 (ExpectedCheckpoint ?r)]" using demo_served by blast
  have l: "New_logger ''info'' ''json'' = Inr (logger demo_log)" by (simp add: New_logger_def parseLevel_def demo_log_def)
  obtain as where as: "audits out' = as" "map snd as = [digest_outcome demo_env (0, sha256 (ExpectedCheckpoint ?r))]"
      "subseq (map fst as) ['''']"
    using audit_trail_complete [OF l _ _ _ run] ds by (auto simp: demo_world_def demo_env_def audits_def demo_request_def Let_def map_filter_def)
  then obtain i where i: "as = [(i, digest_outcome demo_env (0, sha256 (ExpectedCheckpoint ?r)))]"
    by (cases as) auto
  with as(3) have "i = ''''" by (auto split: if_splits)
  with i as(1) run show ?thesis by (auto simp: digest_outcome_def demo_env_def)
qed

lemma failed_handler_silent:
  assumes "log_handler E V ctx req ((srv, w), out) = (res, ((srv', w'), out'))"
    and "req = SignTxRequest doc i \<or> req = SignInitialRequest op i"
    and "sign_log w' \<noteq> sign_log w" and "\<forall>resp. res \<noteq> Returns (Inr resp)"
  shows "out' = out \<and> res \<noteq> Returns (Inl (Status Internal InternalServerError))"
  using assms
  by (auto simp: log_SignTx_def log_SignInitial_def checked_sign_def
      split: if_splits sum.splits prod.splits go.splits status.splits reason.splits)

text \<open>Claim C38: what the log misses.  If a \<^verbatim>\<open>SignTx\<close> or \<^verbatim>\<open>SignInitial\<close> call reaches the backend and is answered with an
  error, the whole handler chain logs the peer's connection (a record of level debug) and, if the backend panicked, the
  recovered panic with the method's name, and nothing else at any level: neither the digests handed to the backend nor that
  signing failed, not even when the backend had already signed the first of the two registration messages.\<close>

theorem failed_signing_unlogged:
  assumes "log_serve E V ctx req ((srv, w), out) = (Returns (Inl e), ((srv', w'), out'))"
    and "req = SignTxRequest doc i \<or> req = SignInitialRequest op i"
    and "sign_log w' \<noteq> sign_log w"
  shows "out' = connection_logged V ctx out @
    (if e = Status Internal InternalServerError
     then [(LevelError, ''panic recovered in gRPC handler'', [(''method'', VStr (full_method req)), (''panic'', VStr (panicText V))])]
     else [])"
proof -
  obtain res out1 where h: "log_handler E V ctx req ((srv, w), connection_logged V ctx out) = (res, ((srv', w'), out1))"
    and r: "recovered res = Returns (Inl e)" "out' = panic_logged V (full_method req) res out1"
    using log_serve_cases [of E V ctx req srv w out] assms(1,3)
    by (auto simp: Let_def split: if_splits prod.splits)
  have "\<forall>resp. res \<noteq> Returns (Inr resp)" using r(1) by auto
  with failed_handler_silent [OF h assms(2,3)] r show ?thesis
    by (cases res) (auto simp: panic_logged_def)
qed

definition failing_env :: "string env" where
  "failing_env = demo_env\<lparr>backendSignRaw := \<lambda>n d. if n = 0 then Returns (Inr (d @ d)) else Returns (Inl ''offline'')\<rparr>"

definition demo_operator :: string where
  "demo_operator = string_of (replicate 20 1)"

theorem failed_signing_unlogged_witness:
  "\<exists>srv' w'. log_serve failing_env demo_log demo_ctx (SignInitialRequest demo_operator ''r1'') ((demo_server, demo_world), [])
      = (Returns (Inl (Status Internal (SigningFailed ''B'' ''offline''))), ((srv', w'), []))
    \<and> sign_log w' = [initialSigningDigest (fst (initialRegistrationMessages demo_operator)),
         initialSigningDigest (snd (initialRegistrationMessages demo_operator))]"
proof -
  let ?req = "SignInitialRequest demo_operator ''r1''"
  obtain a b where m: "initialRegistrationMessages demo_operator = (a, b)" by force
  have op: "demo_operator \<noteq> ''''" "bech32Decode failing_env demo_operator = Inr ([], replicate 20 1)"
    by (simp_all add: demo_operator_def failing_env_def demo_env_def string_of_def bytes_of_def)
  have "\<exists>srv' w'. serve failing_env demo_ctx ?req (demo_server, demo_world)
      = (Returns (Inl (Status Internal (SigningFailed ''B'' ''offline''))), (srv', w'))
    \<and> sign_log w' = [initialSigningDigest a, initialSigningDigest b]"
    using op by (simp add: serve_cases gate_refuses_def demo_ctx_def SignInitial_def m demo_server_def demo_world_def
        checked_sign_def failing_env_def initialSigningDigest_def)
  then obtain srv' w' out' where run: "log_serve failing_env demo_log demo_ctx ?req ((demo_server, demo_world), [])
      = (Returns (Inl (Status Internal (SigningFailed ''B'' ''offline''))), ((srv', w'), out'))"
    and w': "sign_log w' = [initialSigningDigest a, initialSigningDigest b]"
    using log_serve_answers [of failing_env demo_ctx ?req "(demo_server, demo_world)"] by blast
  have "out' = connection_logged demo_log demo_ctx []"
    using failed_signing_unlogged [OF run] w' by (simp add: demo_world_def)
  also have "\<dots> = []" by (simp add: connection_logged_def demo_ctx_def demo_log_def log_defs)
  finally show ?thesis using run w' m by simp
qed

end
