(* ===== verification/Daemon_Service.thy ===== *)
theory Daemon_Service
  imports Daemon Server_Log
begin

text \<open>
  The started daemon at work: from the configuration file and the start in \<open>Daemon\<close> to an answered
  checkpoint request of the logged server in \<open>Server_Log\<close>.
\<close>

section \<open>The server of a started daemon\<close>

lemma enabled_entry:
  assumes "EnabledRPCsFromConfig cfg full = Some b"
  shows "\<exists>name. (name, b) \<in> set cfg \<and> map_of shortRPCNameToFullMethod name = Some full"
proof -
  let ?f = "\<lambda>out (name, enabled). case map_of shortRPCNameToFullMethod name of Some full \<Rightarrow> out(full \<mapsto> enabled) | None \<Rightarrow> out"
  have "foldl ?f acc cfg full = Some b \<Longrightarrow>
      acc full = Some b \<or> (\<exists>name. (name, b) \<in> set cfg \<and> map_of shortRPCNameToFullMethod name = Some full)" for acc
    by (induction cfg arbitrary: acc) (fastforce split: option.splits if_splits)+
  from this [of Map.empty] assms show ?thesis by (auto simp: EnabledRPCsFromConfig_def split: if_splits)
qed

lemma checkpoint_rpc_on:
  assumes "checkpoint_enabled c" "distinct (map fst (CfgEnabledRPCs (ServerCfg c)))"
  shows "EnabledRPCsFromConfig (CfgEnabledRPCs (ServerCfg c)) (full_method (CheckpointRequest r)) \<noteq> Some False"
proof
  assume "EnabledRPCsFromConfig (CfgEnabledRPCs (ServerCfg c)) (full_method (CheckpointRequest r)) = Some False"
  from enabled_entry [OF this] obtain name where n: "(name, False) \<in> set (CfgEnabledRPCs (ServerCfg c))"
      "map_of shortRPCNameToFullMethod name = Some (full_method (CheckpointRequest r))" by blast
  then have "name = ''sign_bridge_checkpoint''"
    by (auto simp: shortRPCNameToFullMethod_def split: if_splits)
  with n(1) assms show False by (simp add: checkpoint_enabled_def)
qed

lemma healthy_checkpoint:
  assumes c: "verify_checkpoint E (selfEVMAddr srv) req = Inr c" and l: "loaded (checkpointGuard srv)"
    and fresh: "highWater (checkpointGuard srv) < ValidatorTimestamp req"
    and fs: "healthy (statePath (checkpointGuard srv)) (w_os w)"
    and sg: "backendSignRaw E (length (sign_log w)) (sha256 c) = Returns (Inr sg)" "length sg = 64"
  obtains srv' w' where
    "SignBridgeCheckpoint E req (srv, w) = (Returns (Inr (SignBridgeCheckpointResponse sg c)), (srv', w'))"
    "SignBridgeCheckpoint E req (srv', w') = (Returns (Inr (SignBridgeCheckpointResponse sg c)), (srv', w'))"
    "enabledRPCs srv' = enabledRPCs srv" "sign_log w' = sign_log w @ [sha256 c]"
proof -
  let ?g1 = "(checkpointGuard srv)\<lparr>highWater := ValidatorTimestamp req, signedCheckpoint := None, signedSignature := None\<rparr>"
  obtain o1 where adv: "CheckAndAdvance (checkpointGuard srv) (ValidatorTimestamp req) (w_os w) = (Inr (), ?g1, o1)"
    using CheckAndAdvance_healthy [OF fs fresh] by blast
  obtain r g2 o2 where rec: "RecordSignature ?g1 (ValidatorTimestamp req) c sg o1 = (r, g2, o2)" by (metis prod.collapse)
  have "c \<noteq> []" "sg \<noteq> []" using verify_checkpoint_length [OF c] sg(2) by auto
  with RecordSignature_current [of c sg ?g1 o1 r g2 o2] rec
  have g2: "g2 = ?g1\<lparr>signedCheckpoint := Some c, signedSignature := Some sg\<rparr>" by simp
  let ?srv = "srv\<lparr>checkpointGuard := g2\<rparr>" and ?w = "w\<lparr>sign_log := sign_log w @ [sha256 c], w_os := o2\<rparr>"
  have "SignBridgeCheckpoint E req (srv, w) = (Returns (Inr (SignBridgeCheckpointResponse sg c)), (?srv, ?w))"
    using SignBridgeCheckpoint_granted [OF c adv] sg rec by (simp add: checked_sign_def Let_def guard_record_def)
  moreover have "SignBridgeCheckpoint E req (?srv, ?w) = (Returns (Inr (SignBridgeCheckpointResponse sg c)), (?srv, ?w))"
    by (rule SignBridgeCheckpoint_memo) (use c l g2 in simp_all)
  ultimately show ?thesis using that [of ?srv ?w] by simp
qed

lemma new_guard_path: "newCheckpointReplayGuard p s = (Inr g, s') \<Longrightarrow> loaded g \<and> statePath g = p"
  by (auto simp: newCheckpointReplayGuard_def Let_def split: sum.splits prod.splits if_splits os_error.splits)

lemma started_server:
  assumes "runDaemon_start P path w0 = (Started d, w1, out)"
  shows "loaded (checkpointGuard (d_server d))" "statePath (checkpointGuard (d_server d)) = GuardStatePath (d_config d)"
    "enabledRPCs (d_server d) = EnabledRPCsFromConfig (CfgEnabledRPCs (ServerCfg (d_config d)))"
    "New_logger (Level (Log (d_config d))) (Format (Log (d_config d))) = Inr (d_logger d)"
proof -
  obtain w2 where s: "start_with P (d_config d) (d_logger d) (d_signer d) w2 = (Started d, w1, out)"
    using assms by (rule runDaemon_Started)
  obtain w3 out1 where "start_server P (d_config d) (d_logger d) (d_signer d) (d_consensus d) out1 w3 = (Started d, w1, out)"
    using s by (rule start_with_Started)
  then obtain w4 w5 where n: "New (signer_env P (d_signer d)) (server_config (d_config d)) w4 = (Inr (d_server d), w5)"
    by (rule start_server_Started)
  then obtain g s' where g: "newCheckpointReplayGuard (GuardStatePath (d_config d)) (w_os w4) = (Inr g, s')" "checkpointGuard (d_server d) = g"
    and e: "enabledRPCs (d_server d) = EnabledRPCsFromConfig (CfgEnabledRPCs (ServerCfg (d_config d)))"
    by (auto simp: New_def get_public_key_def server_config_def dest!: sym [of _ "d_server d"] split: sum.splits prod.splits)
  from g show "loaded (checkpointGuard (d_server d))" "statePath (checkpointGuard (d_server d)) = GuardStatePath (d_config d)"
    using new_guard_path by blast+
  show "enabledRPCs (d_server d) = EnabledRPCsFromConfig (CfgEnabledRPCs (ServerCfg (d_config d)))" by (rule e)
  show "New_logger (Level (Log (d_config d))) (Format (Log (d_config d))) = Inr (d_logger d)"
    using assms by (rule runDaemon_Started)
qed

section \<open>Serving\<close>

text \<open>Claim C10: a started daemon signs what it should.  If the daemon starts with the checkpoint RPC enabled and logging at
  \<^verbatim>\<open>debug\<close> or \<^verbatim>\<open>info\<close>, its guard file's file system works and its backend signs the digest, then a well-formed
  checkpoint request for a timestamp above the mark, from a node the gate lets through, is answered with the
  backend's signature and leaves one audit record of success; and asking again returns the same answer,
  changes nothing and leaves no further audit record.\<close>

theorem daemon_serves_checkpoint:
  assumes start: "runDaemon_start P path w0 = (Started d, w1, out)"
    and rpc: "checkpoint_enabled (d_config d)" "distinct (map fst (CfgEnabledRPCs (ServerCfg (d_config d))))"
    and log: "logger V = d_logger d" "Level (Log (d_config d)) \<in> {''debug'', ''info''}"
    and fs: "healthy (GuardStatePath (d_config d)) (w_os w1)"
    and lib: "eth_lib_spec (eth (libraries P))" "length (ValidatorSet r) < 2 ^ 64"
    and good: "good_checkpoint (libraries P) (selfEVMAddr (d_server d)) r c"
    and fresh: "highWater (checkpointGuard (d_server d)) < ValidatorTimestamp r"
    and gate: "\<not> gate_refuses ctx (full_method (CheckpointRequest r))"
    and sg: "Signer_SignRaw (backends P) (length (sign_log w1)) (d_signer d) (sha256 c) = Returns (Inr sg)"
  shows "\<exists>st1 out1 out2.
    log_serve (signer_env P (d_signer d)) V ctx (CheckpointRequest r) ((d_server d, w1), out)
      = (Returns (Inr (SignBridgeCheckpointResponse sg c)), (st1, out1))
    \<and> audits out1 = audits out @ [(CheckpointRequestId r, hex_encode (sha256 (sha256 c)), True)]
    \<and> log_serve (signer_env P (d_signer d)) V ctx (CheckpointRequest r) (st1, out1)
      = (Returns (Inr (SignBridgeCheckpointResponse sg c)), (st1, out2)) \<and> audits out2 = audits out1"
proof -
  let ?E = "signer_env P (d_signer d)"
  let ?req = "CheckpointRequest r" and ?resp = "Returns (Inr (SignBridgeCheckpointResponse sg c))"
  note srv = started_server [OF start]
  have "good_checkpoint ?E (selfEVMAddr (d_server d)) r c" "eth_lib_spec (eth ?E)"
    using good lib(1) by (simp_all add: good_checkpoint_def signer_env_def)
  then have c: "verify_checkpoint ?E (selfEVMAddr (d_server d)) r = Inr c"
    using verify_checkpoint_iff [of ?E r] lib(2) by simp
  have s: "backendSignRaw ?E (length (sign_log w1)) (sha256 c) = Returns (Inr sg)" "length sg = 64"
    using sg any_raw.compact [OF sg] by (simp_all add: signer_env_def)
  obtain srv' w' where h: "SignBridgeCheckpoint ?E r (d_server d, w1) = (?resp, (srv', w'))"
      "SignBridgeCheckpoint ?E r (srv', w') = (?resp, (srv', w'))"
      "enabledRPCs srv' = enabledRPCs (d_server d)" "sign_log w' = sign_log w1 @ [sha256 c]"
    using healthy_checkpoint [OF c srv(1) fresh _ s] srv(2) fs by auto
  have on: "enabledRPCs (d_server d) (full_method ?req) \<noteq> Some False"
    using checkpoint_rpc_on [OF rpc] srv(3) by simp
  have serve: "serve ?E ctx ?req (d_server d, w1) = (?resp, (srv', w'))"
      "serve ?E ctx ?req (srv', w') = (?resp, (srv', w'))"
    using on gate h by (simp_all add: serve_cases)
  have lev: "level_int (log_level (logger V)) \<le> level_int LevelInfo"
    using New_logger_level [OF srv(4)] log by (auto simp: parseLevel_def)
  obtain out1 where l1: "log_serve ?E V ctx ?req ((d_server d, w1), out) = (?resp, ((srv', w'), out1))"
    using log_serve_answers [OF serve(1)] by blast
  obtain out2 where l2: "log_serve ?E V ctx ?req ((srv', w'), out1) = (?resp, ((srv', w'), out2))"
    using log_serve_answers [OF serve(2)] by blast
  have "one_audit ?E (CheckpointRequestId r) w1 out w' out1" "one_audit ?E (CheckpointRequestId r) w' out1 w' out2"
    using serve_audited [OF lev _ l1] serve_audited [OF lev _ l2] by simp_all
  then show ?thesis using l1 l2 h(4) s by (auto simp: one_audit_def backend_audit_def)
qed

theorem daemon_serves_checkpoint_witness:
  "\<exists>d w1 out st1 out1 sg. runDaemon_start demo_platform ''c.yaml'' demo_daemon_world = (Started d, w1, out)
    \<and> log_serve (signer_env demo_platform demo_signer) (demo_log\<lparr>logger := d_logger d\<rparr>) demo_ctx
        (CheckpointRequest (demo_request demo_valset 5 9)) ((d_server d, w1), out)
      = (Returns (Inr (SignBridgeCheckpointResponse sg (ExpectedCheckpoint (demo_request demo_valset 5 9)))), (st1, out1))"
proof -
  let ?r = "demo_request demo_valset 5 9"
  obtain d w1 out where d: "runDaemon_start demo_platform ''c.yaml'' demo_daemon_world = (Started d, w1, out)"
      "d_config d = demo_daemon_config" "d_signer d = demo_signer" "healthy ''/d/guard.json'' (w_os w1)" "sign_log w1 = []"
      "highWater (checkpointGuard (d_server d)) = 0" "selfEVMAddr (d_server d) = demo_self"
    using demo_daemon_started by blast
  have cfg: "checkpoint_enabled (d_config d)" "distinct (map fst (CfgEnabledRPCs (ServerCfg (d_config d))))"
      "Level (Log (d_config d)) \<in> {''debug'', ''info''}" "GuardStatePath (d_config d) = ''/d/guard.json''"
    unfolding d(2) by (simp_all add: checkpoint_enabled_def GuardStatePath_def demo_daemon_config_def)
  have lib: "eth (libraries demo_platform) = solidity_lib" by (simp add: demo_platform_def)
  have good: "good_checkpoint (libraries demo_platform) (selfEVMAddr (d_server d)) ?r (ExpectedCheckpoint ?r)"
    using demo_valset_good [of 9] lib d(7) by (simp add: good_checkpoint_def)
  have "length (sha256 (ExpectedCheckpoint ?r)) = 32" by simp
  then obtain sg where sg: "Signer_SignRaw (backends demo_platform) (length (sign_log w1)) (d_signer d) (sha256 (ExpectedCheckpoint ?r)) = Returns (Inr sg)"
    unfolding d(3,5) by (simp add: demo_platform_def demo_backend_def demo_signer_def Signer_SignRaw_def FileSigner_SignRaw_def demo_secp_def)
  have rest: "healthy (GuardStatePath (d_config d)) (w_os w1)" "eth_lib_spec (eth (libraries demo_platform))"
      "length (ValidatorSet ?r) < 2 ^ 64" "highWater (checkpointGuard (d_server d)) < ValidatorTimestamp ?r"
      "\<not> gate_refuses demo_ctx (full_method (CheckpointRequest ?r))" "logger (demo_log\<lparr>logger := d_logger d\<rparr>) = d_logger d"
    using d(4,6) cfg(4) lib solidity_lib_spec
    by (simp_all add: demo_request_def demo_valset_def Let_def gate_refuses_def demo_ctx_def)
  from daemon_serves_checkpoint [OF d(1) cfg(1,2) rest(6) cfg(3) rest(1-3) good rest(4,5) sg] d(1,3) show ?thesis by fastforce
qed

text \<open>Claim C39: a switched-off RPC is off in the running daemon.  If the daemon starts from a configuration with a
  \<^verbatim>\<open>false\<close> entry, the entry names a method, and as long as the daemon runs, whatever its guard has become and whoever
  asks, a call of that method is answered with \<^verbatim>\<open>Unimplemented\<close>: it reaches neither the handler nor the backend nor the
  files, and logs at most the peer's connection.\<close>

theorem daemon_refuses_disabled_rpc:
  assumes "runDaemon_start P path w0 = (Started d, w1, out)"
    and "distinct (map fst (CfgEnabledRPCs (ServerCfg (d_config d))))"
    and "(name, False) \<in> set (CfgEnabledRPCs (ServerCfg (d_config d)))"
  shows "\<exists>full. map_of shortRPCNameToFullMethod name = Some full
    \<and> (\<forall>V ctx req g w out. full_method req = full \<longrightarrow>
         log_serve (signer_env P (d_signer d)) V ctx req (((d_server d)\<lparr>checkpointGuard := g\<rparr>, w), out)
           = (Returns (Inl (Status Unimplemented (MethodDisabled full))),
              (((d_server d)\<lparr>checkpointGuard := g\<rparr>, w), connection_logged V ctx out)))"
proof -
  obtain s1 where "Load (yamlUnmarshal P) path (w_os w0) = (Inr (d_config d), s1)"
    using assms(1) by (rule runDaemon_Started)
  from disabled_rpc_stays_disabled [OF this assms(2,3)] obtain full where
      full: "map_of shortRPCNameToFullMethod name = Some full"
        "EnabledRPCsFromConfig (CfgEnabledRPCs (ServerCfg (d_config d))) full = Some False"
    by blast
  let ?E = "signer_env P (d_signer d)"
  have "log_serve ?E V ctx req (((d_server d)\<lparr>checkpointGuard := g\<rparr>, w), out)
      = (Returns (Inl (Status Unimplemented (MethodDisabled full))),
         (((d_server d)\<lparr>checkpointGuard := g\<rparr>, w), connection_logged V ctx out))"
    if "full_method req = full" for V ctx req g w out
    using log_serve_cases [of ?E V ctx req "(d_server d)\<lparr>checkpointGuard := g\<rparr>" w out] that full(2) started_server(3) [OF assms(1)]
    by (simp add: Let_def)
  with full(1) show ?thesis by blast
qed

theorem daemon_refuses_disabled_rpc_witness:
  "\<exists>d w1 out. runDaemon_start demo_dsm_platform ''c.yaml'' demo_daemon_world = (Started d, w1, out)
    \<and> fst (log_serve demo_dsm_env demo_log demo_ctx (SignTxRequest [1] ''r1'') ((d_server d, w1), out))
        = Returns (Inl (Status Unimplemented (MethodDisabled ''/signer.v1.BridgeSigner/SignTx'')))"
proof -
  obtain d w1 out where d: "runDaemon_start demo_dsm_platform ''c.yaml'' demo_daemon_world = (Started d, w1, out)"
      "d_config d = demo_dsm_config" "d_signer d = demo_dsm_backend"
    using demo_dsm_started by blast
  have "CfgEnabledRPCs (ServerCfg (d_config d)) = [(''sign_tx'', False)]" unfolding d(2) by (simp add: demo_dsm_config_def)
  then obtain full where full: "map_of shortRPCNameToFullMethod ''sign_tx'' = Some full"
    and served: "\<And>V ctx req g w out. full_method req = full \<Longrightarrow>
      log_serve demo_dsm_env V ctx req (((d_server d)\<lparr>checkpointGuard := g\<rparr>, w), out)
        = (Returns (Inl (Status Unimplemented (MethodDisabled full))), (((d_server d)\<lparr>checkpointGuard := g\<rparr>, w), connection_logged V ctx out))"
    using daemon_refuses_disabled_rpc [OF d(1), of "''sign_tx''"] d(3) by auto
  have "full = ''/signer.v1.BridgeSigner/SignTx''" using full by (simp add: shortRPCNameToFullMethod_def)
  with served [of "SignTxRequest [1] ''r1''" demo_log demo_ctx "checkpointGuard (d_server d)" w1 out] d(1) show ?thesis by simp
qed

end
