(* ===== verification/Spec2Isabelle.thy ===== *)
theory Spec2Isabelle
  imports Privval_Net Ledger Grpc_Service Daemon_Service
begin

text \<open>
  Verification of the bridge remote signer (\<^verbatim>\<open>src/\<close>), a daemon that holds the keys of a validator
  and signs for it: over gRPC checkpoints of the validator set, oracle attestations, transactions and
  registration messages, and over CometBFT's privval protocol votes and proposals.

  \<^bold>\<open>The parts and how they interact.\<close>  \<^verbatim>\<open>cmd_start.go\<close> loads the configuration, opens the signing
  backend, prepares consensus signing, and builds the gRPC server and the HTTP endpoints.  A gRPC call
  passes a chain of interceptors (panic recovery, switched-off RPCs, elected primary) and reaches a
  handler, which recomputes what it is asked to sign.  The checkpoint handler also asks the replay
  guard, whose high-water mark is kept in a file.  For consensus the daemon dials its targets and
  answers their requests with a locked private validator; an arbiter elects the one node whose votes
  are signed, and the gate of the gRPC server follows the same election.

  \<^bold>\<open>Theories, in the order of their imports.\<close>
  \<^item> \<open>Prelude\<close>: bytes, 64-bit words, big-endian numbers, the outcome type \<open>go\<close> with panics, lemma
    collections.
  \<^item> \<open>Go_Strings\<close>, \<open>Go_Sha256\<close>, \<open>Go_Json\<close>, \<open>Go_Asn1\<close>, \<open>Go_Base64\<close>, \<open>Go_Time\<close>, \<open>Go_Os\<close>: what the
    program uses of Go's standard library.  \<open>Go_Os\<close> is a file system in which any system call may fail.
  \<^item> \<open>Replay_Guard\<close>: \<^verbatim>\<open>server/replay_guard.go\<close>.  The locales \<open>atomic_store\<close> and \<open>monotone_gate\<close> are
    the contracts of the file write and of the guard, both interpreted on the model.
  \<^item> \<open>Eth_Lib\<close>, \<open>Bridge_Checkpoint\<close>, \<open>Attestation\<close>: the ABI encoders of \<^verbatim>\<open>server/checkpoint.go\<close>,
    \<^verbatim>\<open>attestation.go\<close> and \<^verbatim>\<open>initial.go\<close>.
  \<^item> \<open>Primary_Arbiter\<close>: \<^verbatim>\<open>consensus/primary.go\<close>, with the locale \<open>lease\<close>.
  \<^item> \<open>Rpc\<close>: the messages and the dispatch of \<^verbatim>\<open>api/gen\<close>, and \<^verbatim>\<open>server/auth.go\<close>.
  \<^item> \<open>Bridge_Server\<close>: \<^verbatim>\<open>server/server.go\<close> and \<^verbatim>\<open>signer/address.go\<close>.  The record \<open>Server\<close> is the struct,
    \<open>world\<close> is what outlives the process; each handler is a function of both.
  \<^item> \<open>Interleaving\<close>: the same handlers as a step relation with concurrent requests, crashes and restarts.
  \<^item> \<open>Ledger\<close>: an abstract specification of checkpoint signing, a ledger of timestamps and signatures, and
    a refinement mapping from the step relation to it by the locale \<open>ref_map\<close>.
  \<^item> \<open>Metrics\<close>: \<^verbatim>\<open>metrics/metrics.go\<close>.
  \<^item> \<open>Privval\<close>: \<^verbatim>\<open>consensus/validate.go\<close>, \<^verbatim>\<open>handler.go\<close>, \<^verbatim>\<open>locked_pv.go\<close> and \<^verbatim>\<open>server.go\<close>;
    \<open>Privval_Net\<close>: several nodes connected at once.
  \<^item> \<open>Sig_Utils\<close>, \<open>Signer_Backend\<close>: \<^verbatim>\<open>signer/sig_utils.go\<close>, \<^verbatim>\<open>keyring.go\<close>, \<^verbatim>\<open>file_signer.go\<close>,
    \<^verbatim>\<open>fortanix_dsm.go\<close> and \<^verbatim>\<open>signer.go\<close>, with the locale \<open>raw_signer\<close> for what the server relies on,
    interpreted for each backend and for the dispatch.
  \<^item> \<open>Key_Files\<close>: \<^verbatim>\<open>signer/atomicwrite.go\<close>, \<^verbatim>\<open>cmd_export.go\<close> and \<^verbatim>\<open>consensus/connkey.go\<close>, with the
    locale \<open>exclusive_store\<close>.
  \<^item> \<open>Config_File\<close>: \<^verbatim>\<open>config/config.go\<close>; \<open>State_Files\<close>: \<^verbatim>\<open>consensus/statefile.go\<close>, \<^verbatim>\<open>loadpv.go\<close> and
    \<^verbatim>\<open>cmd_init.go\<close>; \<open>Transport\<close>: \<^verbatim>\<open>api/tls/tls.go\<close>; \<open>Audit_Log\<close>: \<^verbatim>\<open>logging/logging.go\<close>;
    \<open>Health\<close>: \<^verbatim>\<open>health/health.go\<close>.
  \<^item> \<open>Server_Log\<close>: the handlers and interceptors of \<^verbatim>\<open>server/server.go\<close> again, with every line they log;
    the log is threaded beside the state, and leaving it out gives back \<open>Bridge_Server\<close>.
  \<^item> \<open>Grpc_Service\<close>: the method table, the generated handlers and the client stubs of \<^verbatim>\<open>api/gen\<close>.
  \<^item> \<open>Daemon\<close>: \<^verbatim>\<open>cmd_root.go\<close>, \<^verbatim>\<open>cmd_start.go\<close> and \<^verbatim>\<open>main.go\<close>, which wire all of these together;
    \<open>Daemon_Service\<close>: a started daemon that answers requests.

  \<^bold>\<open>What is shown.\<close>
  \<^item> Replay: the guard's timestamps grow strictly whatever fails and whenever the process restarts; no
    timestamp is signed twice and all answers for one agree (\<open>Replay_Guard\<close>, \<open>Interleaving\<close>), and this
    holds for every daemon that starts from a configuration file (\<open>Daemon\<close>).  Every execution is a run of
    the abstract ledger (\<open>Ledger\<close>).  A timestamp whose backend call failed is spent: it is never
    answered (\<open>Interleaving\<close>).
  \<^item> Service: a started daemon answers a well-formed request for a new timestamp, and answers it alike when
    asked again; it refuses every call of a switched-off RPC (\<open>Daemon_Service\<close>).  The generated stubs, method table and
    handlers fit together, and a handler under the server's interceptors is the served call (\<open>Grpc_Service\<close>).
  \<^item> Audit: the audit records of a sequence of calls are those of the digests handed to the backend, except for
    failed transactions and for registrations, whose failure leaves no record (\<open>Server_Log\<close>).
  \<^item> No blind signing: each digest handed to the backend belongs to a verified checkpoint, a recomputed
    attestation, an allowed transaction or an own registration (\<open>Interleaving\<close>).  The verification
    accepts exactly the right requests, and what it signs determines the request, up to collisions of
    Keccak (\<open>Bridge_Server\<close>).
  \<^item> Election: one node holds the lease, failback needs a height that has caught up, the role does not
    flap, and a standby's votes are not signed (\<open>Primary_Arbiter\<close>, \<open>Privval_Net\<close>).
  \<^item> Privval: exactly the well-formed requests reach CometBFT, one at a time; the dial loop ends when it
    is cancelled (\<open>Privval\<close>).
  \<^item> Backends: every constructed signer has keys and signatures of the right shape, and a device
    signature is passed on only if it recovers the expected key, in low-S form (\<open>Sig_Utils\<close>,
    \<open>Signer_Backend\<close>).
  \<^item> Files: exports and the bootstrap never overwrite, the connection key and the last-sign state survive
    a restart (\<open>Key_Files\<close>, \<open>State_Files\<close>, \<open>Daemon\<close>).
  \<^item> Configuration and surroundings: what a loaded configuration guarantees, that a switched-off RPC is
    off, mutual TLS, endpoints that cannot sign, confined key commands.
  \<^item> Some theorems record where the code does less than its comments say, for instance
    \<open>threshold_wraps_to_zero\<close>, \<open>hostname_target_locks_out_primary\<close>, \<open>failed_dir_sync_burns_timestamp\<close>,
    \<open>nil_request_panics_gate\<close>, \<open>oversized_r_panics\<close> and \<open>state_checks_can_be_raced\<close>.

  \<^bold>\<open>Parameters.\<close>  Third-party code is an argument of the definitions that use it: go-ethereum, the Cosmos
  codecs and the backend (\<open>env\<close>), the curve (\<open>secp\<close>), the keyring and the DSM SDK, CometBFT (\<open>cmt\<close>,
  \<open>pv_lib\<close>), the YAML decoder, X.509 (\<open>x509\<close>), and of gRPC the connection a stub invokes and the decoder a handler
  is given.  Where a theorem needs documented behaviour of one of them, it is a named hypothesis, and the witness beside the theorem instantiates it.

  \<^bold>\<open>Bounds.\<close>  \<^verbatim>\<open>os.CreateTemp\<close> gives up after 10000 names and the JSON decoder refuses nesting beyond 10000,
  as Go does; the loops of the model carry these numbers as fuel.  A connection is the finite list of the
  frames it delivered and a dial loop the finite list of its attempts, so their theorems hold for every
  length.  Machine integers are words where they can wrap; heights, times and durations are integers
  with Go's saturation and range checks written out.

  \<^bold>\<open>Not modelled.\<close>  The network: TCP, the TLS and SecretConnection handshakes beyond the decision to accept
  a client, gRPC and HTTP framing, deadlines; these are I/O below the decisions of this program.  In
  \<^verbatim>\<open>api/gen\<close> the reflection data, the getters and \<^verbatim>\<open>UnimplementedBridgeSignerServer\<close>, which the program does
  not use.  How a log record is printed, and the text format of the metrics; the log of concurrent calls,
  whose lines may interleave.  Cobra's flag parsing, the SDK's key
  commands and the delivery of signals.  Cancellation of a request's context, which a backend may answer
  with an error like any other.  Loss of completed writes in a power failure.
\<close>

end
